(* ===== verification/Prelude.thy ===== *)
theory Prelude
  imports Main
begin

text \<open>
  Shared foundation of the development: the result of running a piece of Go code
  (a value or a panic), state-passing Go code as functions from a state to an outcome
  and a new state, \<open>for range\<close> loops with \<open>break\<close>, deferred calls, and the
  rules that let the component theories reason about effects structurally.
\<close>

section \<open>Outcomes and state-passing code\<close>

text \<open>
  A Go call either returns or panics (nil dereference, slice bounds, \<open>template.Must\<close>).
  The string names the panic.  A Go function that works on shared state \<open>'s\<close> is a
  function from the state to the outcome and the state at that point: a panic keeps the
  effects that happened before it.
\<close>

datatype 'a outcome = Ok 'a | Panic string

type_synonym ('s, 'a) go = "'s \<Rightarrow> 'a outcome \<times> 's"

definition ret :: "'a \<Rightarrow> ('s, 'a) go" where
  "ret x s = (Ok x, s)"

definition panic :: "string \<Rightarrow> ('s, 'a) go" where
  "panic msg s = (Panic msg, s)"

definition liftO :: "'a outcome \<Rightarrow> ('s, 'a) go" where
  "liftO r s = (r, s)"

definition gets :: "('s \<Rightarrow> 'a) \<Rightarrow> ('s, 'a) go" where
  "gets f s = (Ok (f s), s)"

definition modify :: "('s \<Rightarrow> 's) \<Rightarrow> ('s, unit) go" where
  "modify f s = (Ok (), f s)"

definition andThen :: "('s, 'a) go \<Rightarrow> ('a \<Rightarrow> ('s, 'b) go) \<Rightarrow> ('s, 'b) go" where
  "andThen m f s =
     (case m s of (r, s') \<Rightarrow> (case r of Ok x \<Rightarrow> f x s' | Panic p \<Rightarrow> (Panic p, s')))"

text \<open>\<open>defer d()\<close>: the deferred state change runs on return and on panic.\<close>

definition deferred :: "('s \<Rightarrow> 's) \<Rightarrow> ('s, 'a) go \<Rightarrow> ('s, 'a) go" where
  "deferred d m s = (case m s of (r, s') \<Rightarrow> (r, d s'))"

text \<open>
  \<open>for _, x := range xs { ... }\<close>.  The loop's local variables are the accumulator; a
  body ends with \<open>Continue\<close> (next element) or \<open>Break\<close>.
\<close>

datatype 'c loop = Continue 'c | Break 'c

primrec forRange :: "('x \<Rightarrow> 'c \<Rightarrow> ('s, 'c loop) go) \<Rightarrow> 'x list \<Rightarrow> 'c \<Rightarrow> ('s, 'c) go" where
  "forRange body [] acc = ret acc"
| "forRange body (x # xs) acc =
     andThen (body x acc)
       (\<lambda>l. case l of Continue acc' \<Rightarrow> forRange body xs acc' | Break acc' \<Rightarrow> ret acc')"

section \<open>Evaluation rules\<close>

named_theorems go_eval \<open>unfolding state-passing code applied to a state\<close>

lemma ret_apply [go_eval]: "ret x s = (Ok x, s)"
  by (simp add: ret_def)

lemma panic_apply [go_eval]: "panic msg s = (Panic msg, s)"
  by (simp add: panic_def)

lemma liftO_apply [go_eval]: "liftO r s = (r, s)"
  by (simp add: liftO_def)

lemma gets_apply [go_eval, simp]: "gets f s = (Ok (f s), s)"
  by (simp add: gets_def)

lemma modify_apply [go_eval, simp]: "modify f s = (Ok (), f s)"
  by (simp add: modify_def)

lemma andThen_ret [simp]: "andThen (ret x) f = f x"
  by (rule ext) (simp add: andThen_def ret_def)

lemma andThen_panic [simp]: "andThen (panic msg) f = panic msg"
  by (rule ext) (simp add: andThen_def panic_def)

lemma andThen_liftO_Ok [simp]: "andThen (liftO (Ok x)) f = f x"
  by (rule ext) (simp add: andThen_def liftO_def)

lemma andThen_liftO_Panic [simp]: "andThen (liftO (Panic p)) f = panic p"
  by (rule ext) (simp add: andThen_def liftO_def panic_def)

lemma andThen_right_ret [simp]: "andThen m ret = m"
  by (rule ext) (simp add: andThen_def ret_def split: prod.split outcome.split)

lemma andThen_assoc: "andThen (andThen m f) g = andThen m (\<lambda>x. andThen (f x) g)"
  by (rule ext) (simp add: andThen_def split: prod.split outcome.split)

lemma andThen_Ok: "m s = (Ok x, s') \<Longrightarrow> andThen m f s = f x s'"
  by (simp add: andThen_def)

lemma andThen_Panic: "m s = (Panic p, s') \<Longrightarrow> andThen m f s = (Panic p, s')"
  by (simp add: andThen_def)

lemmas andThen_eval = andThen_Ok andThen_Panic

lemma andThen_OkE:
  assumes "andThen m f s = (Ok y, t)"
  obtains x u where "m s = (Ok x, u)" and "f x u = (Ok y, t)"
  using assms by (auto simp: andThen_def split: prod.splits outcome.splits)

lemma ret_OkD: "ret x s = (Ok y, t) \<Longrightarrow> y = x \<and> t = s"
  by (simp add: ret_def)

lemma liftO_OkD: "liftO r s = (Ok y, t) \<Longrightarrow> r = Ok y \<and> t = s"
  by (simp add: liftO_def)

lemma deferred_apply: "deferred d m s = (fst (m s), d (snd (m s)))"
  by (simp add: deferred_def split: prod.split)


text \<open>A continuation is pushed into the branches of what it follows.\<close>

lemma andThen_if: "andThen (if b then m else n) f = (if b then andThen m f else andThen n f)"
  by simp

lemma andThen_case_option:
  "andThen (case x of None \<Rightarrow> m | Some y \<Rightarrow> g y) f =
     (case x of None \<Rightarrow> andThen m f | Some y \<Rightarrow> andThen (g y) f)"
  by (simp split: option.split)

lemma andThen_case_sum:
  "andThen (case x of Inl e \<Rightarrow> g e | Inr y \<Rightarrow> h y) f =
     (case x of Inl e \<Rightarrow> andThen (g e) f | Inr y \<Rightarrow> andThen (h y) f)"
  by (simp split: sum.split)

lemma andThen_case_prod:
  "andThen (case x of (a, b) \<Rightarrow> g a b) f = (case x of (a, b) \<Rightarrow> andThen (g a b) f)"
  by (simp split: prod.split)

lemma andThen_Let: "andThen (Let v g) f = Let v (\<lambda>x. andThen (g x) f)"
  by simp

lemmas andThen_push =
  andThen_assoc andThen_if andThen_case_option andThen_case_sum andThen_case_prod andThen_Let

lemmas branch_congs = if_cong option.case_cong sum.case_cong prod.case_cong

section \<open>Effects\<close>

text \<open>
  \<open>steps R m\<close>: every run of \<open>m\<close>, returning or panicking, relates the state before to
  the state after by \<open>R\<close>.  For a reflexive and transitive \<open>R\<close> the rule for each control
  structure is structural; the locale states them once, and the components interpret it
  on the relations they care about (which API calls are sent, which fields are kept).
\<close>

definition steps :: "('s \<Rightarrow> 's \<Rightarrow> bool) \<Rightarrow> ('s, 'a) go \<Rightarrow> bool" where
  "steps R m \<longleftrightarrow> (\<forall>s. R s (snd (m s)))"

lemma stepsI: "(\<And>s. R s (snd (m s))) \<Longrightarrow> steps R m"
  by (simp add: steps_def)

lemma stepsD: "steps R m \<Longrightarrow> R s (snd (m s))"
  by (simp add: steps_def)

lemma steps_run: "steps R m \<Longrightarrow> m s = (r, t) \<Longrightarrow> R s t"
  using stepsD [of R m s] by simp

lemma steps_mono: "steps R m \<Longrightarrow> (\<And>s t. R s t \<Longrightarrow> R' s t) \<Longrightarrow> steps R' m"
  by (simp add: steps_def)

lemma steps_if [intro!]:
  "(b \<Longrightarrow> steps R m) \<Longrightarrow> (\<not> b \<Longrightarrow> steps R n) \<Longrightarrow> steps R (if b then m else n)"
  by simp

lemma steps_sum [intro!]:
  "(\<And>e. r = Inl e \<Longrightarrow> steps R (f e)) \<Longrightarrow> (\<And>x. r = Inr x \<Longrightarrow> steps R (g x))
    \<Longrightarrow> steps R (case r of Inl e \<Rightarrow> f e | Inr x \<Rightarrow> g x)"
  by (simp split: sum.split)

lemma steps_option [intro!]:
  "(r = None \<Longrightarrow> steps R m) \<Longrightarrow> (\<And>x. r = Some x \<Longrightarrow> steps R (g x))
    \<Longrightarrow> steps R (case r of None \<Rightarrow> m | Some x \<Rightarrow> g x)"
  by (simp split: option.split)

lemma steps_prod [intro!]:
  "(\<And>a b. r = (a, b) \<Longrightarrow> steps R (f a b)) \<Longrightarrow> steps R (case r of (a, b) \<Rightarrow> f a b)"
  by (simp split: prod.split)

lemma steps_list [intro!]:
  "(xs = [] \<Longrightarrow> steps R m) \<Longrightarrow> (\<And>y ys. xs = y # ys \<Longrightarrow> steps R (f y ys))
    \<Longrightarrow> steps R (case xs of [] \<Rightarrow> m | y # ys \<Rightarrow> f y ys)"
  by (simp split: list.split)

lemma steps_Let [intro!]: "(\<And>x. x = v \<Longrightarrow> steps R (f x)) \<Longrightarrow> steps R (Let v f)"
  by simp

locale effect =
  fixes R :: "'s \<Rightarrow> 's \<Rightarrow> bool"
  assumes eff_refl: "R s s"
    and eff_trans: "R s t \<Longrightarrow> R t u \<Longrightarrow> R s u"
begin

lemma steps_ret: "steps R (ret x)"
  by (simp add: steps_def eff_refl ret_def)

lemma steps_panic: "steps R (panic p)"
  by (simp add: steps_def eff_refl panic_def)

lemma steps_liftO: "steps R (liftO r)"
  by (simp add: steps_def eff_refl liftO_def)

lemma steps_gets: "steps R (gets f)"
  by (simp add: steps_def eff_refl)

lemma steps_modify: "(\<And>s. R s (f s)) \<Longrightarrow> steps R (modify f)"
  by (simp add: steps_def)

lemma steps_andThen:
  assumes "steps R m" and "\<And>x. steps R (f x)"
  shows "steps R (andThen m f)"
  using assms
  by (fastforce simp: steps_def andThen_def intro: eff_trans eff_refl
      split: prod.split outcome.split dest: spec)

lemma steps_andThen_result:
  assumes "steps R m" and "\<And>x s. fst (m s) = Ok x \<Longrightarrow> steps R (f x)"
  shows "steps R (andThen m f)"
proof (rule stepsI)
  fix s
  obtain r t where m: "m s = (r, t)" by fastforce
  have st: "R s t" using stepsD [OF assms(1), of s] m by simp
  show "R s (snd (andThen m f s))"
  proof (cases r)
    case (Ok x)
    then have "steps R (f x)" using assms(2) [of s x] m by simp
    then have "R t (snd (f x t))" by (rule stepsD)
    with st have "R s (snd (f x t))" by (rule eff_trans)
    with Ok m show ?thesis by (simp add: andThen_def)
  next
    case (Panic p)
    with m st show ?thesis by (simp add: andThen_def)
  qed
qed

lemma steps_deferred:
  assumes "steps R m" and "\<And>s. R s (d s)"
  shows "steps R (deferred d m)"
  using assms by (auto simp: steps_def deferred_apply intro: eff_trans)

lemma steps_loop:
  "(\<And>a. l = Continue a \<Longrightarrow> steps R (f a)) \<Longrightarrow> (\<And>a. l = Break a \<Longrightarrow> steps R (g a))
    \<Longrightarrow> steps R (case l of Continue a \<Rightarrow> f a | Break a \<Rightarrow> g a)"
  by (simp split: loop.split)

lemma steps_forRange:
  assumes "\<And>x acc. x \<in> set xs \<Longrightarrow> steps R (body x acc)"
  shows "steps R (forRange body xs acc)"
  using assms
proof (induction xs arbitrary: acc)
  case Nil
  then show ?case by (simp add: steps_ret)
next
  case (Cons x xs)
  then show ?case
    by (auto intro!: steps_andThen steps_loop steps_ret)
qed

lemmas steps_rules =
  steps_ret steps_panic steps_liftO steps_gets steps_andThen steps_forRange steps_loop
  steps_if steps_option steps_sum steps_prod steps_Let

end

text \<open>
  The smallest instance, on the invariants of a state: \<open>I\<close> is kept when its truth before
  gives its truth after.
\<close>

definition keeps :: "('s \<Rightarrow> bool) \<Rightarrow> ('s, 'a) go \<Rightarrow> bool" where
  "keeps I m \<longleftrightarrow> steps (\<lambda>s t. I s \<longrightarrow> I t) m"

interpretation kept: effect "\<lambda>s t. I s \<longrightarrow> I t" for I :: "'s \<Rightarrow> bool"
  by unfold_locales auto

lemma keepsD: "keeps I m \<Longrightarrow> I s \<Longrightarrow> I (snd (m s))"
  by (simp add: keeps_def steps_def)

lemma keepsI: "(\<And>s. I s \<Longrightarrow> I (snd (m s))) \<Longrightarrow> keeps I m"
  by (simp add: keeps_def steps_def)

section \<open>Results\<close>

text \<open>
  \<open>results I m Q\<close>: started where \<open>I\<close> holds, if \<open>m\<close> returns a value (and does not panic),
  the value and the state satisfy \<open>Q\<close>.
\<close>

definition results :: "('s \<Rightarrow> bool) \<Rightarrow> ('s, 'a) go \<Rightarrow> ('a \<Rightarrow> 's \<Rightarrow> bool) \<Rightarrow> bool" where
  "results I m Q \<longleftrightarrow> (\<forall>s x t. I s \<longrightarrow> m s = (Ok x, t) \<longrightarrow> Q x t)"

lemma resultsI: "(\<And>s x t. I s \<Longrightarrow> m s = (Ok x, t) \<Longrightarrow> Q x t) \<Longrightarrow> results I m Q"
  by (simp add: results_def)

lemma resultsD: "results I m Q \<Longrightarrow> I s \<Longrightarrow> m s = (Ok x, t) \<Longrightarrow> Q x t"
  by (simp add: results_def)

lemma results_andThen:
  "results I m R \<Longrightarrow> (\<And>x. results (R x) (f x) Q) \<Longrightarrow> results I (andThen m f) Q"
  by (fastforce simp: results_def elim!: andThen_OkE)

lemma results_ret: "(\<And>s. I s \<Longrightarrow> Q x s) \<Longrightarrow> results I (ret x) Q"
  by (simp add: results_def ret_def)

lemma results_panic: "results I (panic p) Q"
  by (simp add: results_def panic_def)

lemma results_liftO: "(\<And>x s. r = Ok x \<Longrightarrow> I s \<Longrightarrow> Q x s) \<Longrightarrow> results I (liftO r) Q"
  by (simp add: results_def liftO_def)

lemma results_if:
  "(b \<Longrightarrow> results I m Q) \<Longrightarrow> (\<not> b \<Longrightarrow> results I n Q) \<Longrightarrow> results I (if b then m else n) Q"
  by simp

lemma results_sum:
  "(\<And>e. r = Inl e \<Longrightarrow> results I (f e) Q) \<Longrightarrow> (\<And>x. r = Inr x \<Longrightarrow> results I (g x) Q)
    \<Longrightarrow> results I (case r of Inl e \<Rightarrow> f e | Inr x \<Rightarrow> g x) Q"
  by (simp split: sum.split)

lemma results_option:
  "(r = None \<Longrightarrow> results I m Q) \<Longrightarrow> (\<And>x. r = Some x \<Longrightarrow> results I (g x) Q)
    \<Longrightarrow> results I (case r of None \<Rightarrow> m | Some x \<Rightarrow> g x) Q"
  by (simp split: option.split)

lemma results_Let: "(\<And>x. x = v \<Longrightarrow> results I (f x) Q) \<Longrightarrow> results I (Let v f) Q"
  by simp

lemma results_keeps: "keeps I m \<Longrightarrow> results I m (\<lambda>_. I)"
  by (auto simp: results_def dest: keepsD)

lemmas results_rules =
  results_andThen results_ret results_panic results_liftO results_if results_sum results_option
  results_Let

section \<open>Total correctness\<close>

text \<open>
  \<open>returns I m Q\<close>: started where \<open>I\<close> holds, \<open>m\<close> does return, with a value in \<open>Q\<close>, and \<open>I\<close>
  holds again.  Nothing else is left of a run: no panic.
\<close>

definition returns :: "('s \<Rightarrow> bool) \<Rightarrow> ('s, 'a) go \<Rightarrow> ('a \<Rightarrow> bool) \<Rightarrow> bool" where
  "returns I m Q \<longleftrightarrow> (\<forall>s. I s \<longrightarrow> (\<exists>x t. m s = (Ok x, t) \<and> Q x \<and> I t))"

abbreviation returning :: "('s \<Rightarrow> bool) \<Rightarrow> ('s, 'a) go \<Rightarrow> bool" where
  "returning I m \<equiv> returns I m (\<lambda>_. True)"

lemma returnsI: "(\<And>s. I s \<Longrightarrow> \<exists>x t. m s = (Ok x, t) \<and> Q x \<and> I t) \<Longrightarrow> returns I m Q"
  by (simp add: returns_def)

lemma returnsE:
  assumes "returns I m Q" and "I s"
  obtains x t where "m s = (Ok x, t)" and "Q x" and "I t"
  using assms by (auto simp: returns_def)

lemma returning_run: "returning I m \<Longrightarrow> I s \<Longrightarrow> (\<exists>x. fst (m s) = Ok x) \<and> I (snd (m s))"
  by (auto simp: returns_def)

lemma returns_andThen:
  assumes "returns I m R" and "\<And>x. R x \<Longrightarrow> returns I (f x) Q"
  shows "returns I (andThen m f) Q"
proof (rule returnsI)
  fix s
  assume "I s"
  with assms(1) obtain x t where m: "m s = (Ok x, t)" and x: "R x" and t: "I t" by (rule returnsE)
  from assms(2) [OF x] t obtain y u where "f x t = (Ok y, u)" "Q y" "I u" by (rule returnsE)
  with m show "\<exists>x t. andThen m f s = (Ok x, t) \<and> Q x \<and> I t" by (auto simp: andThen_Ok)
qed

lemma returns_seq: "returning I m \<Longrightarrow> (\<And>x. returns I (f x) Q) \<Longrightarrow> returns I (andThen m f) Q"
  by (rule returns_andThen)

lemma returns_ret: "Q x \<Longrightarrow> returns I (ret x) Q"
  by (simp add: returns_def ret_def)

lemma returns_gets: "returning I (gets f)"
  by (simp add: returns_def)

lemma returns_modify: "(\<And>s. I s \<Longrightarrow> I (f s)) \<Longrightarrow> returning I (modify f)"
  by (simp add: returns_def)

lemma returns_if:
  "(b \<Longrightarrow> returns I m Q) \<Longrightarrow> (\<not> b \<Longrightarrow> returns I n Q) \<Longrightarrow> returns I (if b then m else n) Q"
  by simp

lemma returns_sum:
  "(\<And>e. r = Inl e \<Longrightarrow> returns I (f e) Q) \<Longrightarrow> (\<And>x. r = Inr x \<Longrightarrow> returns I (g x) Q)
    \<Longrightarrow> returns I (case r of Inl e \<Rightarrow> f e | Inr x \<Rightarrow> g x) Q"
  by (simp split: sum.split)

lemma returns_option:
  "(r = None \<Longrightarrow> returns I m Q) \<Longrightarrow> (\<And>x. r = Some x \<Longrightarrow> returns I (g x) Q)
    \<Longrightarrow> returns I (case r of None \<Rightarrow> m | Some x \<Rightarrow> g x) Q"
  by (simp split: option.split)

lemma returns_list:
  "(xs = [] \<Longrightarrow> returns I m Q) \<Longrightarrow> (\<And>y ys. xs = y # ys \<Longrightarrow> returns I (f y ys) Q)
    \<Longrightarrow> returns I (case xs of [] \<Rightarrow> m | y # ys \<Rightarrow> f y ys) Q"
  by (simp split: list.split)

lemma returns_prod:
  "(\<And>a b. r = (a, b) \<Longrightarrow> returns I (f a b) Q) \<Longrightarrow> returns I (case r of (a, b) \<Rightarrow> f a b) Q"
  by (simp split: prod.split)

lemma returns_Let: "(\<And>x. x = v \<Longrightarrow> returns I (f x) Q) \<Longrightarrow> returns I (Let v f) Q"
  by simp

lemma returns_loop:
  "(\<And>a. l = Continue a \<Longrightarrow> returns I (f a) Q) \<Longrightarrow> (\<And>a. l = Break a \<Longrightarrow> returns I (g a) Q)
    \<Longrightarrow> returns I (case l of Continue a \<Rightarrow> f a | Break a \<Rightarrow> g a) Q"
  by (simp split: loop.split)

lemma returns_forRange:
  assumes "\<And>x acc. x \<in> set xs \<Longrightarrow> returning I (body x acc)"
  shows "returning I (forRange body xs acc)"
  using assms
proof (induction xs arbitrary: acc)
  case Nil
  then show ?case by (simp add: returns_ret)
next
  case (Cons x xs)
  then show ?case
    by (auto intro!: returns_seq returns_loop returns_ret)
qed

lemma returns_deferred:
  assumes "returning I m" and "\<And>s. I s \<Longrightarrow> I (d s)"
  shows "returning I (deferred d m)"
  using assms by (fastforce simp: returns_def deferred_apply)

lemmas returns_rules =
  returns_seq returns_ret returns_gets returns_if returns_sum returns_option returns_list
  returns_prod returns_Let returns_loop returns_forRange

end
