(* ===== verification/GoStrings.thy ===== *)
theory GoStrings
  imports Prelude
begin

text \<open>
  The parts of Go's \<open>strings\<close>, \<open>strconv\<close>, \<open>regexp\<close> and \<open>bufio\<close> packages the
  controller uses, on Go strings as byte lists: \<open>Split\<close>, \<open>Join\<close>, \<open>TrimSpace\<close>,
  \<open>Atoi\<close>, \<open>FormatInt\<close>, \<open>ParseBool\<close>, the one fixed regular expression
  \<open>-{2,}\<close>, and line scanning.
\<close>

section \<open>strings.Split and strings.Join on a one-byte separator\<close>

fun splitOn :: "char \<Rightarrow> string \<Rightarrow> string list" where
  "splitOn c [] = [[]]"
| "splitOn c (x # xs) =
     (if x = c then [] # splitOn c xs
      else (case splitOn c xs of [] \<Rightarrow> [[x]] | p # ps \<Rightarrow> (x # p) # ps))"

fun joinWith :: "char \<Rightarrow> string list \<Rightarrow> string" where
  "joinWith c [] = []"
| "joinWith c [p] = p"
| "joinWith c (p # q # ps) = p @ c # joinWith c (q # ps)"

lemma splitOn_nonempty [simp]: "splitOn c s \<noteq> []"
  by (induction s) (auto split: list.split)

lemma joinWith_Cons: "ps \<noteq> [] \<Longrightarrow> joinWith c (p # ps) = p @ c # joinWith c ps"
  by (cases ps) auto

lemma joinWith_Cons_Cons: "joinWith c ((x # p) # ps) = x # joinWith c (p # ps)"
  by (cases ps) auto

lemma join_split [simp]: "joinWith c (splitOn c s) = s"
proof (induction s)
  case Nil
  then show ?case by simp
next
  case (Cons x xs)
  then show ?case
    by (cases "splitOn c xs") (auto simp: joinWith_Cons joinWith_Cons_Cons)
qed

lemma splitOn_no_sep: "c \<notin> set s \<Longrightarrow> splitOn c s = [s]"
  by (induction s) auto

lemma splitOn_append: "c \<notin> set p \<Longrightarrow> splitOn c (p @ c # s) = p # splitOn c s"
  by (induction p) auto

lemma splitOn_append_sep: "splitOn c (s @ c # t) = splitOn c s @ splitOn c t"
proof (induction s)
  case Nil
  then show ?case by simp
next
  case (Cons x xs)
  then show ?case by (cases "splitOn c xs") auto
qed

lemma splitOn_parts: "p \<in> set (splitOn c s) \<Longrightarrow> c \<notin> set p"
proof (induction s arbitrary: p)
  case Nil
  then show ?case by simp
next
  case (Cons x xs)
  show ?case
  proof (cases "splitOn c xs")
    case Nil
    then show ?thesis by simp
  next
    case (Cons q qs)
    with Cons.prems Cons.IH show ?thesis
      by (auto split: if_splits)
  qed
qed

lemma split_join:
  "ps \<noteq> [] \<Longrightarrow> (\<And>p. p \<in> set ps \<Longrightarrow> c \<notin> set p) \<Longrightarrow> splitOn c (joinWith c ps) = ps"
proof (induction ps)
  case Nil
  then show ?case by simp
next
  case (Cons p ps)
  show ?case
  proof (cases "ps = []")
    case True
    with Cons.prems show ?thesis by (simp add: splitOn_no_sep)
  next
    case False
    with Cons show ?thesis
      by (simp add: joinWith_Cons splitOn_append)
  qed
qed

lemma splitOn_singleton_iff: "splitOn c s = [t] \<longleftrightarrow> s = t \<and> c \<notin> set s"
  by (metis joinWith.simps(2) join_split list.set_intros(1) splitOn_no_sep splitOn_parts)

section \<open>Decimal numbers: strconv.FormatInt and strconv.Atoi\<close>

definition isDigit :: "char \<Rightarrow> bool" where
  "isDigit c \<longleftrightarrow> 48 \<le> (of_char c :: nat) \<and> (of_char c :: nat) \<le> 57"

definition digitVal :: "char \<Rightarrow> nat" where
  "digitVal c = of_char c - 48"

definition digitChar :: "nat \<Rightarrow> char" where
  "digitChar d = ''0123456789'' ! d"

fun showNat :: "nat \<Rightarrow> string" where
  "showNat n = (if n < 10 then [digitChar n] else showNat (n div 10) @ [digitChar (n mod 10)])"

declare showNat.simps [simp del]

definition formatInt :: "int \<Rightarrow> string" where
  "formatInt i = (if i < 0 then CHR ''-'' # showNat (nat (- i)) else showNat (nat i))"

text \<open>
  \<open>ParseUint\<close> in base 10 reads digit by digit and stops with a range error as soon as
  the value leaves 64 bits, before it looks at the rest.
\<close>

datatype uint_result = UOk nat | USyntax | URange

fun parseDigits :: "nat \<Rightarrow> string \<Rightarrow> uint_result" where
  "parseDigits n [] = UOk n"
| "parseDigits n (c # cs) =
     (if isDigit c then
        (if 10 * n + digitVal c \<ge> 2 ^ 64 then URange else parseDigits (10 * n + digitVal c) cs)
      else USyntax)"

definition parseUint :: "string \<Rightarrow> uint_result" where
  "parseUint s = (if s = [] then USyntax else parseDigits 0 s)"

text \<open>
  \<open>Atoi\<close> (64-bit \<open>int\<close>): the value and whether \<open>err\<close> is nil.  A syntax error gives 0,
  a range error the nearest bound.
\<close>

definition atoi :: "string \<Rightarrow> int \<times> bool" where
  "atoi s =
     (let neg = (case s of c # _ \<Rightarrow> c = CHR ''-'' | [] \<Rightarrow> False);
          body = (case s of c # cs \<Rightarrow> if c = CHR ''-'' \<or> c = CHR ''+'' then cs else s | [] \<Rightarrow> s)
      in case parseUint body of
           USyntax \<Rightarrow> (0, False)
         | URange \<Rightarrow> (if neg then - (2 ^ 63) else 2 ^ 63 - 1, False)
         | UOk u \<Rightarrow>
             (if \<not> neg \<and> u \<ge> 2 ^ 63 then (2 ^ 63 - 1, False)
              else if neg \<and> u > 2 ^ 63 then (- (2 ^ 63), False)
              else (if neg then - int u else int u, True)))"

lemma digitChar_cases:
  assumes "d < 10"
  shows "of_char (digitChar d) = d + 48"
proof -
  from assms have "d \<in> {0, 1, 2, 3, 4, 5, 6, 7, 8, 9}" by auto
  then show ?thesis by (auto simp: digitChar_def)
qed

lemma isDigit_digitChar [simp]: "d < 10 \<Longrightarrow> isDigit (digitChar d)"
  by (simp add: isDigit_def digitChar_cases)

lemma digitVal_digitChar [simp]: "d < 10 \<Longrightarrow> digitVal (digitChar d) = d"
  by (simp add: digitVal_def digitChar_cases)

lemma showNat_nonempty [simp]: "showNat n \<noteq> []"
  by (subst showNat.simps) simp

lemma showNat_digits: "\<forall>c \<in> set (showNat n). isDigit c"
proof (induction n rule: showNat.induct)
  case (1 n)
  then show ?case by (subst showNat.simps) auto
qed

lemma parseDigits_append:
  "parseDigits n xs = UOk m \<Longrightarrow> parseDigits n (xs @ ys) = parseDigits m ys"
  by (induction n xs arbitrary: m rule: parseDigits.induct) (auto split: if_splits)

lemma parseDigits_showNat: "n < 2 ^ 64 \<Longrightarrow> parseDigits 0 (showNat n) = UOk n"
proof (induction n rule: showNat.induct)
  case (1 n)
  show ?case
  proof (cases "n < 10")
    case True
    then show ?thesis by (subst showNat.simps) simp
  next
    case False
    with 1 have "parseDigits 0 (showNat (n div 10)) = UOk (n div 10)" by simp
    then have "parseDigits 0 (showNat n) = parseDigits (n div 10) [digitChar (n mod 10)]"
      using False by (subst showNat.simps) (simp add: parseDigits_append)
    with "1.prems" show ?thesis by simp
  qed
qed

lemma isDigit_not_sign: "isDigit c \<Longrightarrow> c \<noteq> CHR ''-'' \<and> c \<noteq> CHR ''+''"
  by (auto simp: isDigit_def)

lemma atoi_showNat: "n < 2 ^ 63 \<Longrightarrow> atoi (showNat n) = (int n, True)"
proof -
  assume n: "n < 2 ^ 63"
  obtain c cs where s: "showNat n = c # cs" by (cases "showNat n") auto
  have "isDigit c" using showNat_digits [of n] s by simp
  then have c: "c \<noteq> CHR ''-''" "c \<noteq> CHR ''+''" using isDigit_not_sign by auto
  have "parseUint (c # cs) = UOk n"
    using parseDigits_showNat [of n] n s by (simp add: parseUint_def)
  with c n show ?thesis by (simp add: atoi_def s Let_def)
qed

lemma atoi_formatInt: "- (2 ^ 63) \<le> i \<Longrightarrow> i < 2 ^ 63 \<Longrightarrow> atoi (formatInt i) = (i, True)"
proof (cases "i < 0")
  case True
  assume lo: "- (2 ^ 63) \<le> i"
  let ?n = "nat (- i)"
  have n: "?n \<le> 2 ^ 63" using lo True by simp
  then have "parseUint (showNat ?n) = UOk ?n"
    using parseDigits_showNat [of ?n] by (simp add: parseUint_def)
  with True n show ?thesis by (simp add: atoi_def formatInt_def Let_def)
next
  case False
  assume "i < 2 ^ 63"
  with False show ?thesis using atoi_showNat [of "nat i"] by (simp add: formatInt_def)
qed

section \<open>strconv.ParseBool\<close>

definition parseBool :: "string \<Rightarrow> bool \<times> bool" where
  "parseBool s =
     (if s \<in> {''1'', ''t'', ''T'', ''true'', ''TRUE'', ''True''} then (True, True)
      else if s \<in> {''0'', ''f'', ''F'', ''false'', ''FALSE'', ''False''} then (False, True)
      else (False, False))"

section \<open>regexp.MustCompile(\<open>-{2,}\<close>).ReplaceAllString(s, \<open>-\<close>)\<close>

fun squeezeDashes :: "string \<Rightarrow> string" where
  "squeezeDashes (a # b # xs) =
     (if a = CHR ''-'' \<and> b = CHR ''-'' then squeezeDashes (b # xs)
      else a # squeezeDashes (b # xs))"
| "squeezeDashes xs = xs"

lemma squeezeDashes_hd: "xs \<noteq> [] \<Longrightarrow> squeezeDashes xs \<noteq> [] \<and> hd (squeezeDashes xs) = hd xs"
  by (induction xs rule: squeezeDashes.induct) auto

lemma squeezeDashes_idem: "squeezeDashes (squeezeDashes xs) = squeezeDashes xs"
proof (induction xs rule: squeezeDashes.induct)
  case (1 a b xs)
  then show ?case
    using squeezeDashes_hd [of "b # xs"] by (cases "squeezeDashes (b # xs)") auto
qed auto

lemma squeezeDashes_set: "set (squeezeDashes xs) = set xs"
  by (induction xs rule: squeezeDashes.induct) auto

section \<open>strings.TrimSpace\<close>

text \<open>The UTF-8 encodings of the code points for which \<open>unicode.IsSpace\<close> holds.\<close>

definition spaceEncodings :: "string list" where
  "spaceEncodings =
     [[CHR 0x09],
      [CHR 0x0A],
      [CHR 0x0B],
      [CHR 0x0C],
      [CHR 0x0D],
      [CHR 0x20],
      [CHR 0xC2, CHR 0x85],
      [CHR 0xC2, CHR 0xA0],
      [CHR 0xE1, CHR 0x9A, CHR 0x80],
      [CHR 0xE2, CHR 0x80, CHR 0x80],
      [CHR 0xE2, CHR 0x80, CHR 0x81],
      [CHR 0xE2, CHR 0x80, CHR 0x82],
      [CHR 0xE2, CHR 0x80, CHR 0x83],
      [CHR 0xE2, CHR 0x80, CHR 0x84],
      [CHR 0xE2, CHR 0x80, CHR 0x85],
      [CHR 0xE2, CHR 0x80, CHR 0x86],
      [CHR 0xE2, CHR 0x80, CHR 0x87],
      [CHR 0xE2, CHR 0x80, CHR 0x88],
      [CHR 0xE2, CHR 0x80, CHR 0x89],
      [CHR 0xE2, CHR 0x80, CHR 0x8A],
      [CHR 0xE2, CHR 0x80, CHR 0xA8],
      [CHR 0xE2, CHR 0x80, CHR 0xA9],
      [CHR 0xE2, CHR 0x80, CHR 0xAF],
      [CHR 0xE2, CHR 0x81, CHR 0x9F],
      [CHR 0xE3, CHR 0x80, CHR 0x80]]"

text \<open>Drop a list of encodings from the front as long as one is a prefix.\<close>

definition stripOne :: "string list \<Rightarrow> string \<Rightarrow> string option" where
  "stripOne encs s =
     (case filter (\<lambda>e. take (length e) s = e) encs of
        [] \<Rightarrow> None
      | e # _ \<Rightarrow> Some (drop (length e) s))"

fun stripAll :: "nat \<Rightarrow> string list \<Rightarrow> string \<Rightarrow> string" where
  "stripAll 0 encs s = s"
| "stripAll (Suc n) encs s =
     (case stripOne encs s of None \<Rightarrow> s | Some s' \<Rightarrow> stripAll n encs s')"

definition trimSpace :: "string \<Rightarrow> string" where
  "trimSpace s =
     (let l = stripAll (length s) spaceEncodings s
      in rev (stripAll (length l) (map rev spaceEncodings) (rev l)))"

text \<open>
  The fuel of \<open>stripAll\<close> is the length of the string, and every encoding is at least one
  byte long, so the fuel is never what stops it.
\<close>

lemma spaceEncodings_nonempty: "e \<in> set spaceEncodings \<Longrightarrow> e \<noteq> []"
  by (auto simp: spaceEncodings_def)

lemma stripOne_shorter:
  assumes "stripOne encs s = Some t" and "\<And>e. e \<in> set encs \<Longrightarrow> e \<noteq> []"
  shows "length t < length s"
proof -
  obtain e es where f: "filter (\<lambda>e. take (length e) s = e) encs = e # es" "t = drop (length e) s"
    using assms(1) by (auto simp: stripOne_def split: list.splits)
  from f(1) have "e \<in> set (filter (\<lambda>e. take (length e) s = e) encs)" by simp
  then have "e \<in> set encs" and tk: "take (length e) s = e" by auto
  then have "e \<noteq> []" using assms(2) by blast
  with tk f(2) show ?thesis by (cases s; cases e) auto
qed

lemma stripAll_done:
  assumes "\<And>e. e \<in> set encs \<Longrightarrow> e \<noteq> []"
  shows "length s \<le> n \<Longrightarrow> stripOne encs (stripAll n encs s) = None"
proof (induction n arbitrary: s)
  case 0
  then show ?case
    using stripOne_shorter [of encs s] assms by (cases "stripOne encs s") auto
next
  case (Suc n)
  show ?case
  proof (cases "stripOne encs s")
    case None
    then show ?thesis by simp
  next
    case (Some t)
    then have "length t < length s" using stripOne_shorter assms by blast
    with Suc Some show ?thesis by simp
  qed
qed

section \<open>bufio.Scanner with ScanLines\<close>

text \<open>
  A line ends at a newline, loses one trailing carriage return, and the last line needs
  no newline.  A line of 65536 bytes or more does not fit the scanner's buffer: scanning
  stops there with \<open>ErrTooLong\<close>.  The result is the lines read and whether that happened.
\<close>

definition maxScanTokenSize :: nat where
  "maxScanTokenSize = 65536"

definition dropCR :: "string \<Rightarrow> string" where
  "dropCR l = (if l \<noteq> [] \<and> last l = CHR 0x0D then butlast l else l)"

definition rawLines :: "string \<Rightarrow> string list" where
  "rawLines s =
     (let ps = splitOn CHR 0x0A s in if last ps = [] then butlast ps else ps)"

fun scanRaw :: "string list \<Rightarrow> string list \<times> bool" where
  "scanRaw [] = ([], False)"
| "scanRaw (l # ls) =
     (if length l \<ge> maxScanTokenSize then ([], True)
      else (case scanRaw ls of (out, tooLong) \<Rightarrow> (dropCR l # out, tooLong)))"

definition scanLines :: "string \<Rightarrow> string list \<times> bool" where
  "scanLines s = scanRaw (rawLines s)"

lemma scanRaw_all:
  "\<forall>l \<in> set ls. length l < maxScanTokenSize \<Longrightarrow> scanRaw ls = (map dropCR ls, False)"
  by (induction ls) auto

end
