(* ===== verification/GoTime.thy ===== *)
theory GoTime
  imports GoStrings
begin

text \<open>
  Go's \<open>time.Duration\<close> (a signed 64-bit number of nanoseconds, kept here as an \<open>int\<close>
  with its bounds written out): \<open>time.ParseDuration\<close>, which reads the interval flags
  and annotations, \<open>Duration.String\<close>, which puts the interval into the Prometheus
  query, and the saturating subtraction behind \<open>time.Since\<close>.
\<close>

type_synonym duration = int

definition hour :: duration where "hour = 3600000000000"
definition minute :: duration where "minute = 60000000000"
definition second :: duration where "second = 1000000000"

section \<open>Rounding to an IEEE double\<close>

text \<open>
  The fraction of a duration (\<open>1.5h\<close>) is computed in \<open>float64\<close>.  A non-negative double
  is \<open>m * 2 ^ e\<close>; \<open>roundQ a b\<close> is the double nearest to \<open>a / b\<close>, ties to even.  The values
  met here are far from the exponent limits, so only the 53-bit significand matters.
\<close>

fun bitLen :: "nat \<Rightarrow> nat" where
  "bitLen n = (if n = 0 then 0 else Suc (bitLen (n div 2)))"

declare bitLen.simps [simp del]

definition roundEven :: "nat \<Rightarrow> nat \<Rightarrow> nat" where
  "roundEven a b =
     (let q = a div b; r = a mod b
      in if 2 * r > b \<or> (2 * r = b \<and> odd q) then Suc q else q)"

definition scaled :: "nat \<Rightarrow> nat \<Rightarrow> int \<Rightarrow> nat \<times> nat" where
  "scaled a b e = (if e \<ge> 0 then (a, b * 2 ^ nat e) else (a * 2 ^ nat (- e), b))"

definition roundQ :: "nat \<Rightarrow> nat \<Rightarrow> nat \<times> int" where
  "roundQ a b =
     (if a = 0 then (0, 0)
      else let e0 = int (bitLen a) - int (bitLen b) - 53;
               (a0, b0) = scaled a b e0;
               e = (if a0 div b0 \<ge> 2 ^ 53 then e0 + 1 else e0);
               (a1, b1) = scaled a b e
           in (roundEven a1 b1, e))"

definition mulD :: "nat \<times> int \<Rightarrow> nat \<times> int \<Rightarrow> nat \<times> int" where
  "mulD x y =
     (case (x, y) of ((m, e), (n, d)) \<Rightarrow>
        (case scaled (m * n) 1 (- (e + d)) of (a, b) \<Rightarrow> roundQ a b))"

definition truncD :: "nat \<times> int \<Rightarrow> nat" where
  "truncD x = (case x of (m, e) \<Rightarrow> (if e \<ge> 0 then m * 2 ^ nat e else m div 2 ^ nat (- e)))"

text \<open>\<open>uint64(float64(f) * (float64(unit) / scale))\<close>, with \<open>scale\<close> an exact power of ten.\<close>

definition fractionNs :: "nat \<Rightarrow> nat \<Rightarrow> nat \<Rightarrow> nat" where
  "fractionNs f unit scale = truncD (mulD (roundQ f 1) (roundQ unit scale))"

section \<open>time.ParseDuration\<close>

fun leadingInt :: "nat \<Rightarrow> string \<Rightarrow> (nat \<times> string) option" where
  "leadingInt x [] = Some (x, [])"
| "leadingInt x (c # cs) =
     (if \<not> isDigit c then Some (x, c # cs)
      else if x > 2 ^ 63 div 10 then None
      else if 10 * x + digitVal c > 2 ^ 63 then None
      else leadingInt (10 * x + digitVal c) cs)"

text \<open>The digits after the point: value, scale and rest; digits that overflow are skipped.\<close>

fun leadingFraction :: "nat \<Rightarrow> nat \<Rightarrow> bool \<Rightarrow> string \<Rightarrow> nat \<times> nat \<times> string" where
  "leadingFraction x scale overflow [] = (x, scale, [])"
| "leadingFraction x scale overflow (c # cs) =
     (if \<not> isDigit c then (x, scale, c # cs)
      else if overflow then leadingFraction x scale True cs
      else if x > (2 ^ 63 - 1) div 10 then leadingFraction x scale True cs
      else if 10 * x + digitVal c > 2 ^ 63 then leadingFraction x scale True cs
      else leadingFraction (10 * x + digitVal c) (10 * scale) False cs)"

definition isUnitChar :: "char \<Rightarrow> bool" where
  "isUnitChar c \<longleftrightarrow> c \<noteq> CHR ''.'' \<and> \<not> isDigit c"

definition unitMap :: "string \<rightharpoonup> nat" where
  "unitMap u =
     (if u = ''ns'' then Some 1
      else if u = ''us'' \<or> u = [CHR 0xC2, CHR 0xB5, CHR ''s''] \<or> u = [CHR 0xCE, CHR 0xBC, CHR ''s'']
        then Some 1000
      else if u = ''ms'' then Some 1000000
      else if u = ''s'' then Some 1000000000
      else if u = ''m'' then Some 60000000000
      else if u = ''h'' then Some 3600000000000
      else None)"

text \<open>The number of a group: integer part, fraction, scale and rest, or \<open>None\<close>.\<close>

definition parseNumber :: "string \<Rightarrow> (nat \<times> nat \<times> nat \<times> string) option" where
  "parseNumber s =
     (case leadingInt 0 s of None \<Rightarrow> None
      | Some (v, s1) \<Rightarrow>
        let pre = length s1 \<noteq> length s;
            dot = s1 \<noteq> [] \<and> hd s1 = CHR ''.'';
            frac = (if dot then leadingFraction 0 1 False (tl s1) else (0, 1, s1));
            post = dot \<and> length (snd (snd frac)) \<noteq> length (tl s1)
        in if \<not> pre \<and> \<not> post then None else Some (v, frac))"

text \<open>
  One \<open>number unit\<close> group added to \<open>d\<close>, or \<open>None\<close> for the error; \<open>uint64\<close> arithmetic
  wraps in the last addition.
\<close>

definition addUnits :: "nat \<Rightarrow> nat \<Rightarrow> nat \<Rightarrow> nat \<Rightarrow> nat \<Rightarrow> nat option" where
  "addUnits d v f scale unit =
     (if v > 2 ^ 63 div unit then None
      else let v' = v * unit + (if f > 0 then fractionNs f unit scale else 0)
           in if f > 0 \<and> v' > 2 ^ 63 then None
              else let d' = (d + v') mod 2 ^ 64
                   in if d' > 2 ^ 63 then None else Some d')"

definition parseGroup :: "nat \<Rightarrow> string \<Rightarrow> (nat \<times> string) option" where
  "parseGroup d s =
     (if s = [] \<or> \<not> (hd s = CHR ''.'' \<or> isDigit (hd s)) then None
      else case parseNumber s of None \<Rightarrow> None
      | Some (v, f, scale, s2) \<Rightarrow>
        let u = takeWhile isUnitChar s2
        in if u = [] then None
           else case unitMap u of None \<Rightarrow> None
           | Some unit \<Rightarrow>
             map_option (\<lambda>d'. (d', dropWhile isUnitChar s2)) (addUnits d v f scale unit))"

lemma leadingInt_rest: "leadingInt x s = Some (y, t) \<Longrightarrow> length t \<le> length s"
  by (induction x s arbitrary: y t rule: leadingInt.induct) (auto split: if_splits intro: le_SucI)

lemma leadingFraction_rest:
  "length (snd (snd (leadingFraction x sc ov s))) \<le> length s"
  by (induction x sc ov s rule: leadingFraction.induct) (auto intro: le_SucI)

lemma dropWhile_shorter: "takeWhile p s \<noteq> [] \<Longrightarrow> length (dropWhile p s) < length s"
  by (cases s) (auto split: if_splits intro: le_imp_less_Suc length_dropWhile_le)

lemma parseNumber_rest:
  assumes "parseNumber s = Some (v, f, sc, t)"
  shows "length t \<le> length s"
proof -
  obtain s1 where li: "leadingInt 0 s = Some (v, s1)"
    and fr: "(f, sc, t) = (if s1 \<noteq> [] \<and> hd s1 = CHR ''.'' then leadingFraction 0 1 False (tl s1)
                          else (0, 1, s1))"
    using assms by (auto simp: parseNumber_def Let_def split: option.splits if_splits)
  have "length t \<le> length s1"
  proof (cases "s1 \<noteq> [] \<and> hd s1 = CHR ''.''")
    case True
    with fr have "t = snd (snd (leadingFraction 0 1 False (tl s1)))"
      by (metis snd_conv)
    then have "length t \<le> length (tl s1)" by (simp only: leadingFraction_rest)
    then show ?thesis by simp
  next
    case False
    with fr show ?thesis by (metis eq_iff snd_conv)
  qed
  with leadingInt_rest [OF li] show ?thesis by simp
qed

lemma parseGroup_shorter:
  assumes "parseGroup d s = Some (d', rest)"
  shows "length rest < length s"
proof -
  obtain v f sc s2 where n: "parseNumber s = Some (v, f, sc, s2)"
    using assms by (auto simp: parseGroup_def split: option.splits if_splits)
  have "rest = dropWhile isUnitChar s2" and "takeWhile isUnitChar s2 \<noteq> []"
    using assms by (auto simp: parseGroup_def n Let_def split: option.splits if_splits)
  then have "length rest < length s2" by (simp add: dropWhile_shorter)
  also have "length s2 \<le> length s" using n by (rule parseNumber_rest)
  finally show ?thesis .
qed

text \<open>Each group consumes at least one byte, which is why the loop over the groups ends.\<close>

function parseGroups :: "nat \<Rightarrow> string \<Rightarrow> nat option" where
  "parseGroups d s =
     (if s = [] then Some d
      else case parseGroup d s of None \<Rightarrow> None
           | Some (d', rest) \<Rightarrow> parseGroups d' rest)"
  by pat_completeness auto
termination
  by (relation "measure (\<lambda>(d, s). length s)") (auto dest: parseGroup_shorter)

declare parseGroups.simps [simp del]

lemma parseGroups_Nil [simp]: "parseGroups d [] = Some d"
  by (simp add: parseGroups.simps)

lemma parseGroups_Cons [simp]:
  "parseGroups d (c # cs) =
     (case parseGroup d (c # cs) of None \<Rightarrow> None | Some (d', rest) \<Rightarrow> parseGroups d' rest)"
  by (simp add: parseGroups.simps [of d "c # cs"])

definition parseDuration :: "string \<Rightarrow> duration option" where
  "parseDuration s0 =
     (let neg = (case s0 of c # _ \<Rightarrow> c = CHR ''-'' | [] \<Rightarrow> False);
          s = (case s0 of c # cs \<Rightarrow> if c = CHR ''-'' \<or> c = CHR ''+'' then cs else s0 | [] \<Rightarrow> s0)
      in if s = ''0'' then Some 0
         else if s = [] then None
         else case parseGroups 0 s of None \<Rightarrow> None
         | Some d \<Rightarrow>
           if neg then Some (- int d)
           else if d > 2 ^ 63 - 1 then None else Some (int d))"

lemma parseGroup_bound: "parseGroup d s = Some (d', rest) \<Longrightarrow> d' \<le> 2 ^ 63"
  by (auto simp: parseGroup_def addUnits_def Let_def split: option.splits if_splits)

lemma parseGroups_bound: "parseGroups d s = Some r \<Longrightarrow> d \<le> 2 ^ 63 \<Longrightarrow> r \<le> 2 ^ 63"
proof (induction d s rule: parseGroups.induct)
  case (1 d s)
  show ?case
  proof (cases "s = []")
    case True
    with "1.prems" show ?thesis by simp
  next
    case False
    with "1.prems" obtain d' rest where g: "parseGroup d s = Some (d', rest)"
      and r: "parseGroups d' rest = Some r"
      by (subst (asm) parseGroups.simps) (auto split: option.splits)
    from "1.IH" [OF False g refl r] parseGroup_bound [OF g] show ?thesis by simp
  qed
qed

lemma parseDuration_int64:
  "parseDuration s = Some d \<Longrightarrow> - (2 ^ 63) \<le> d \<and> d < 2 ^ 63"
  by (auto simp: parseDuration_def Let_def split: option.splits if_splits
      dest!: parseGroups_bound)

section \<open>Duration.String\<close>

fun fracDigits :: "nat \<Rightarrow> nat \<Rightarrow> string" where
  "fracDigits 0 v = []"
| "fracDigits (Suc p) v = fracDigits p (v div 10) @ [digitChar (v mod 10)]"

definition dropZeros :: "string \<Rightarrow> string" where
  "dropZeros s = rev (dropWhile (\<lambda>c. c = CHR ''0'') (rev s))"

definition fmtFrac :: "nat \<Rightarrow> nat \<Rightarrow> string" where
  "fmtFrac v prec =
     (let ds = dropZeros (fracDigits prec (v mod 10 ^ prec))
      in if ds = [] then [] else CHR ''.'' # ds)"

definition durationString :: "duration \<Rightarrow> string" where
  "durationString d =
     (let u = nat \<bar>d\<bar>;
          t = (if u = 0 then ''0s''
               else if u < 1000 then showNat u @ ''ns''
               else if u < 1000000 then showNat (u div 1000) @ fmtFrac u 3 @ [CHR 0xC2, CHR 0xB5, CHR ''s'']
               else if u < 1000000000 then showNat (u div 1000000) @ fmtFrac u 6 @ ''ms''
               else let sec = u div 1000000000; mins = sec div 60; hrs = mins div 60;
                        secPart = showNat (sec mod 60) @ fmtFrac u 9 @ ''s''
                    in if mins = 0 then secPart
                       else if hrs = 0 then showNat (mins mod 60) @ ''m'' @ secPart
                       else showNat hrs @ ''h'' @ showNat (mins mod 60) @ ''m'' @ secPart)
      in if d < 0 then CHR ''-'' # t else t)"

section \<open>time.Since\<close>

definition satDuration :: "int \<Rightarrow> duration" where
  "satDuration d = max (- (2 ^ 63)) (min (2 ^ 63 - 1) d)"

definition timeSince :: "int \<Rightarrow> int \<Rightarrow> duration" where
  "timeSince now start = satDuration (now - start)"

text \<open>
  A whole number of hours written as a decimal number and \<open>h\<close> parses to that many hours,
  as long as it fits a \<open>Duration\<close>.
\<close>

lemma leadingInt_parse:
  "\<forall>c \<in> set ds. isDigit c \<Longrightarrow> rest = [] \<or> \<not> isDigit (hd rest) \<Longrightarrow>
   parseDigits x ds = UOk n \<Longrightarrow> n \<le> 2 ^ 63 \<Longrightarrow> leadingInt x (ds @ rest) = Some (n, rest)"
proof (induction x ds rule: parseDigits.induct)
  case (1 x)
  then show ?case by (cases rest) auto
next
  case (2 x c cs)
  have mono: "parseDigits y cs = UOk n \<Longrightarrow> y \<le> n" for y
    by (induction y cs rule: parseDigits.induct) (auto split: if_splits)
  from 2 have p: "parseDigits (10 * x + digitVal c) cs = UOk n" by (auto split: if_splits)
  with mono have "10 * x + digitVal c \<le> n" by blast
  with 2 p show ?case by (auto split: if_splits)
qed

lemma parseDuration_hours:
  assumes "n \<le> 2562047"
  shows "parseDuration (showNat n @ ''h'') = Some (int n * hour)"
proof -
  obtain c cs where s: "showNat n = c # cs" by (cases "showNat n") auto
  have ds: "\<forall>c \<in> set (showNat n). isDigit c" by (rule showNat_digits)
  then have c: "isDigit c" "c \<noteq> CHR ''-''" "c \<noteq> CHR ''+''"
    using s isDigit_not_sign [of c] by auto
  have h: "\<not> isDigit (CHR ''h'')" "isUnitChar (CHR ''h'')"
    by (auto simp: isDigit_def isUnitChar_def)
  have li: "leadingInt 0 (showNat n @ ''h'') = Some (n, ''h'')"
    using leadingInt_parse [OF ds _ parseDigits_showNat, of "''h''"] h assms by simp
  then have "parseNumber (showNat n @ ''h'') = Some (n, 0, 1, ''h'')"
    by (simp add: parseNumber_def Let_def)
  then have "parseGroup 0 (showNat n @ ''h'') = Some (n * 3600000000000, [])"
    using assms c h by (simp add: parseGroup_def addUnits_def s Let_def unitMap_def)
  then have "parseGroups 0 (showNat n @ ''h'') = Some (n * 3600000000000)"
    by (simp add: s)
  then show ?thesis using assms c by (simp add: parseDuration_def s hour_def Let_def)
qed

text \<open>A bare number other than 0 has no unit and does not parse.\<close>

lemma parseDuration_no_unit:
  assumes "0 < n" and "n < 2 ^ 63"
  shows "parseDuration (showNat n) = None"
proof -
  obtain c cs where s: "showNat n = c # cs" by (cases "showNat n") auto
  have ds: "\<forall>c \<in> set (showNat n). isDigit c" by (rule showNat_digits)
  then have c: "isDigit c" "c \<noteq> CHR ''-''" "c \<noteq> CHR ''+''"
    using s isDigit_not_sign [of c] by auto
  have li: "leadingInt 0 (showNat n) = Some (n, [])"
    using leadingInt_parse [OF ds _ parseDigits_showNat, of "[]"] assms by simp
  have "showNat n \<noteq> ''0''"
    using parseDigits_showNat [of n] assms by (auto simp: isDigit_def digitVal_def)
  moreover have "parseNumber (showNat n) = Some (n, 0, 1, [])"
    using li by (simp add: parseNumber_def Let_def)
  ultimately show ?thesis
    using c by (simp add: parseDuration_def s parseGroup_def Let_def)
qed

end
