(* ===== verification/Sha256.thy ===== *)
theory Sha256
  imports GoStrings "HOL-Library.Word"
begin

unbundle bit_operations_syntax

text \<open>
  \<open>crypto/sha256\<close>, \<open>crypto/hmac\<close> and \<open>encoding/hex\<close>, the standard library calls
  behind the signed unidling requests: FIPS 180-4 SHA-256, RFC 2104 HMAC with its
  64-byte block, and lower-case hex with a case-insensitive decoder.
\<close>

type_synonym w32 = "32 word"
type_synonym bytes = "8 word list"

section \<open>SHA-256\<close>

definition rotr :: "nat \<Rightarrow> w32 \<Rightarrow> w32" where
  "rotr n x = drop_bit n x OR push_bit (32 - n) x"

text \<open>
  The constants are the first 32 bits of the fractional parts of the cube roots (round
  constants) and of the square roots (initial state) of the first primes, computed here
  from that description in fixed point: the greatest \<open>r\<close> with \<open>r ^ k \<le> n\<close>, bit by bit.
\<close>

definition rootFloor :: "nat \<Rightarrow> nat \<Rightarrow> nat" where
  "rootFloor k n = foldr (\<lambda>b r. if (r + 2 ^ b) ^ k \<le> n then r + 2 ^ b else r) [0..<36] 0"

definition primesBelow :: "nat \<Rightarrow> nat list" where
  "primesBelow m = filter (\<lambda>n. list_all (\<lambda>d. n mod d \<noteq> 0) [2..<n]) [2..<m]"

definition rootBits :: "nat \<Rightarrow> nat \<Rightarrow> w32" where
  "rootBits k p = word_of_nat (rootFloor k (p * 2 ^ (32 * k)))"

definition sha_K :: "w32 list" where
  "sha_K = map (rootBits 3) (primesBelow 312)"

datatype sha_state = ShaState w32 w32 w32 w32 w32 w32 w32 w32

definition sha_init :: sha_state where
  "sha_init =
     ShaState (rootBits 2 2) (rootBits 2 3) (rootBits 2 5) (rootBits 2 7)
              (rootBits 2 11) (rootBits 2 13) (rootBits 2 17) (rootBits 2 19)"

fun sha_round :: "sha_state \<Rightarrow> w32 \<Rightarrow> w32 \<Rightarrow> sha_state" where
  "sha_round (ShaState a b c d e f g h) k w =
     (let s1 = rotr 6 e XOR rotr 11 e XOR rotr 25 e;
          ch = (e AND f) XOR (NOT e AND g);
          t1 = h + s1 + ch + k + w;
          s0 = rotr 2 a XOR rotr 13 a XOR rotr 22 a;
          maj = (a AND b) XOR (a AND c) XOR (b AND c)
      in ShaState (t1 + (s0 + maj)) a b c (d + t1) e f g)"

fun sha_rounds :: "sha_state \<Rightarrow> w32 list \<Rightarrow> w32 list \<Rightarrow> sha_state" where
  "sha_rounds st (k # ks) (w # ws) = sha_rounds (sha_round st k w) ks ws"
| "sha_rounds st _ _ = st"

text \<open>
  The message schedule as a sliding window: the last sixteen words, oldest first, and the
  number of words still to emit.
\<close>

fun sha_schedule :: "nat \<Rightarrow> w32 list \<Rightarrow> w32 list" where
  "sha_schedule 0 ws = []"
| "sha_schedule (Suc n) [] = []"
| "sha_schedule (Suc n) (w # ws) =
     w # sha_schedule n
       (ws @ [let w15 = ws ! 0; w2 = ws ! 13; w7 = ws ! 8;
                  s0 = rotr 7 w15 XOR rotr 18 w15 XOR drop_bit 3 w15;
                  s1 = rotr 17 w2 XOR rotr 19 w2 XOR drop_bit 10 w2
              in s1 + w7 + s0 + w])"

fun sha_add :: "sha_state \<Rightarrow> sha_state \<Rightarrow> sha_state" where
  "sha_add (ShaState a b c d e f g h) (ShaState a' b' c' d' e' f' g' h') =
     ShaState (a + a') (b + b') (c + c') (d + d') (e + e') (f + f') (g + g') (h + h')"

definition sha_block :: "sha_state \<Rightarrow> w32 list \<Rightarrow> sha_state" where
  "sha_block st ws = sha_add st (sha_rounds st sha_K (sha_schedule 64 ws))"

fun words_of_bytes :: "bytes \<Rightarrow> w32 list" where
  "words_of_bytes (a # b # c # d # bs) =
     (push_bit 24 (ucast a) OR push_bit 16 (ucast b) OR push_bit 8 (ucast c) OR ucast d)
     # words_of_bytes bs"
| "words_of_bytes _ = []"

definition bytes_of_word :: "w32 \<Rightarrow> bytes" where
  "bytes_of_word w = [ucast (drop_bit 24 w), ucast (drop_bit 16 w), ucast (drop_bit 8 w), ucast w]"

definition sha_pad :: "bytes \<Rightarrow> bytes" where
  "sha_pad m =
     (let n = length m; z = (119 - n mod 64) mod 64
      in m @ [0x80] @ replicate z 0
         @ map (\<lambda>i. ucast (drop_bit (8 * i) (word_of_nat (8 * n) :: 64 word)))
             [7, 6, 5, 4, 3, 2, 1, 0])"

fun sha_blocks :: "nat \<Rightarrow> sha_state \<Rightarrow> w32 list \<Rightarrow> sha_state" where
  "sha_blocks 0 st ws = st"
| "sha_blocks (Suc n) st ws = sha_blocks n (sha_block st (take 16 ws)) (drop 16 ws)"

fun sha_digest :: "sha_state \<Rightarrow> bytes" where
  "sha_digest (ShaState a b c d e f g h) = concat (map bytes_of_word [a, b, c, d, e, f, g, h])"

definition sha256 :: "bytes \<Rightarrow> bytes" where
  "sha256 m = (let p = sha_pad m in sha_digest (sha_blocks (length p div 64) sha_init (words_of_bytes p)))"

lemma length_sha_digest [simp]: "length (sha_digest st) = 32"
  by (cases st) (simp add: bytes_of_word_def)

lemma length_sha256 [simp]: "length (sha256 m) = 32"
  by (simp add: sha256_def Let_def)

text \<open>Padding fills whole 64-byte blocks, so the block count above leaves nothing over.\<close>

lemma length_sha_pad: "64 dvd length (sha_pad m)"
proof -
  let ?n = "length m"
  obtain q r where n: "?n = 64 * q + r" "r < 64"
    by (metis mod_less_divisor mult_div_mod_eq zero_less_numeral)
  then have r: "?n mod 64 = r" by simp
  have "?n + 9 + (119 - r) mod 64 = (if r \<le> 55 then 64 * (q + 1) else 64 * (q + 2))"
    using n by (auto simp: mod_if)
  then have "64 dvd ?n + 9 + (119 - r) mod 64" by simp
  moreover have "length (sha_pad m) = ?n + 9 + (119 - r) mod 64"
    by (simp add: sha_pad_def Let_def r)
  ultimately show ?thesis by simp
qed

section \<open>HMAC\<close>

definition hmac_key :: "bytes \<Rightarrow> bytes" where
  "hmac_key k = (let k' = (if length k > 64 then sha256 k else k) in k' @ replicate (64 - length k') 0)"

definition hmac_sha256 :: "bytes \<Rightarrow> bytes \<Rightarrow> bytes" where
  "hmac_sha256 key msg =
     (let k = hmac_key key
      in sha256 (map (\<lambda>b. b XOR 0x5c) k @ sha256 (map (\<lambda>b. b XOR 0x36) k @ msg)))"

lemma length_hmac_sha256 [simp]: "length (hmac_sha256 key msg) = 32"
  by (simp add: hmac_sha256_def Let_def)

section \<open>Hex\<close>

definition hexDigit :: "8 word \<Rightarrow> char" where
  "hexDigit d = ''0123456789abcdef'' ! unat d"

definition hexVal :: "char \<Rightarrow> 8 word option" where
  "hexVal c =
     (let n = (of_char c :: nat)
      in if 48 \<le> n \<and> n \<le> 57 then Some (word_of_nat (n - 48))
         else if 97 \<le> n \<and> n \<le> 102 then Some (word_of_nat (n - 87))
         else if 65 \<le> n \<and> n \<le> 70 then Some (word_of_nat (n - 55))
         else None)"

fun hexEncode :: "bytes \<Rightarrow> string" where
  "hexEncode [] = []"
| "hexEncode (b # bs) = hexDigit (drop_bit 4 b) # hexDigit (b AND 15) # hexEncode bs"

text \<open>\<open>hex.DecodeString\<close>: \<open>None\<close> is its error (a bad digit or an odd length).\<close>

fun hexDecode :: "string \<Rightarrow> bytes option" where
  "hexDecode [] = Some []"
| "hexDecode [_] = None"
| "hexDecode (a # b # cs) =
     (case (hexVal a, hexVal b) of
        (Some x, Some y) \<Rightarrow> map_option ((#) (push_bit 4 x OR y)) (hexDecode cs)
      | _ \<Rightarrow> None)"

lemma less_16_cases:
  "(n :: nat) < 16 \<Longrightarrow> n \<in> {0, 1, 2, 3, 4, 5, 6, 7, 8, 9, 10, 11, 12, 13, 14, 15}"
  unfolding insert_iff empty_iff by arith

lemma hexVal_hexDigit:
  assumes "d < 16"
  shows "hexVal (hexDigit d) = Some d"
proof -
  have "unat d < 16" using assms by (simp add: word_less_nat_alt)
  from less_16_cases [OF this] have "hexVal (''0123456789abcdef'' ! unat d) = Some (word_of_nat (unat d))"
    by (elim insertE) (simp_all add: hexVal_def Let_def)
  then show ?thesis by (simp add: hexDigit_def)
qed

lemma mask_nibble: "(15 :: 8 word) = mask 4"
  by (simp add: mask_eq_exp_minus_1)

lemma nibbles: "push_bit 4 (drop_bit 4 b) OR (b AND 15) = (b :: 8 word)"
  unfolding mask_nibble
  by (rule bit_word_eqI) (auto simp: bit_simps)

lemma high_nibble_less: "drop_bit 4 b < (16 :: 8 word)"
proof -
  have "unat b < 256" using unsigned_less [of b] by simp
  then have "unat b div 16 < 16" by simp
  moreover have "unat (drop_bit 4 b) = unat b div 16"
    by (simp only: unat_drop_bit_eq) (simp add: drop_bit_eq_div)
  ultimately show ?thesis by (simp only: word_less_nat_alt) simp
qed

lemma low_nibble_less: "b AND 15 < (16 :: 8 word)"
  by (rule le_less_trans [OF word_and_le1]) simp

lemma hexDecode_hexEncode [simp]: "hexDecode (hexEncode bs) = Some bs"
  by (induction bs) (simp_all add: hexVal_hexDigit high_nibble_less low_nibble_less nibbles)

lemma length_hexEncode [simp]: "length (hexEncode bs) = 2 * length bs"
  by (induction bs) auto

end
