(* ===== verification/Hmac.thy ===== *)
theory Hmac
  imports Sha256
begin

text \<open>
  Request verification, unidler/helpers.go: a page carries the hexadecimal HMAC-SHA256 of
  the namespace name, the callback brings it back in a header.  The contract of a signer
  and its verifier is a locale, interpreted on the code's two functions.
\<close>

section \<open>The code\<close>

text \<open>\<open>[]byte(s)\<close>: a Go string is its bytes.\<close>

definition bytesOf :: "string \<Rightarrow> bytes" where
  "bytesOf s = map of_char s"

definition hmacSign :: "string \<Rightarrow> bytes \<Rightarrow> bytes" where
  "hmacSign ns secret = hmac_sha256 secret (bytesOf ns)"

definition hmacVerifier :: "string \<Rightarrow> string \<Rightarrow> bytes \<Rightarrow> bool" where
  "hmacVerifier verify toverify secret =
     (case hexDecode toverify of
        None \<Rightarrow> False
      | Some hmacHex \<Rightarrow> hmacSign verify secret = hmacHex)"

definition hmacSigner :: "string \<Rightarrow> bytes \<Rightarrow> string" where
  "hmacSigner ns secret = hexEncode (hmacSign ns secret)"

section \<open>The contract of a token scheme\<close>

locale token_scheme =
  fixes mac :: "'n \<Rightarrow> 'k \<Rightarrow> 'm"
    and decode :: "'t \<Rightarrow> 'm option"
    and signer :: "'n \<Rightarrow> 'k \<Rightarrow> 't"
    and verifier :: "'n \<Rightarrow> 't \<Rightarrow> 'k \<Rightarrow> bool"
  assumes verifier_iff: "verifier n t k \<longleftrightarrow> decode t = Some (mac n k)"
    and decode_signer: "decode (signer n k) = Some (mac n k)"
begin

lemma accepts_own: "verifier n (signer n k) k"
  by (simp add: verifier_iff decode_signer)

lemma accepts_other: "verifier n (signer n' k') k \<longleftrightarrow> mac n k = mac n' k'"
  by (auto simp: verifier_iff decode_signer)

lemma accepted_same_mac: "verifier n t k \<Longrightarrow> verifier n' t k' \<Longrightarrow> mac n k = mac n' k'"
  by (simp add: verifier_iff)

lemma accepts_iff_decode: "verifier n t k \<longleftrightarrow> decode t = decode (signer n k)"
  by (simp add: verifier_iff decode_signer)

end

interpretation tok: token_scheme hmacSign hexDecode hmacSigner hmacVerifier
  by unfold_locales (auto simp: hmacVerifier_def hmacSigner_def split: option.split)

section \<open>Hexadecimal up to letter case\<close>

definition toLower :: "char \<Rightarrow> char" where
  "toLower c = (let n = (of_char c :: nat) in if 65 \<le> n \<and> n \<le> 90 then char_of (n + 32) else c)"

lemma digit_codes:
  assumes "hexVal c = Some d"
  shows "(of_char c :: nat) \<in> {48, 49, 50, 51, 52, 53, 54, 55, 56, 57} \<union> {65, 66, 67, 68, 69, 70}
           \<union> {97, 98, 99, 100, 101, 102}"
proof -
  have "48 \<le> (of_char c :: nat) \<and> (of_char c :: nat) \<le> 57 \<or> 65 \<le> (of_char c :: nat) \<and> (of_char c :: nat) \<le> 70
      \<or> 97 \<le> (of_char c :: nat) \<and> (of_char c :: nat) \<le> 102"
    using assms by (auto simp: hexVal_def Let_def split: if_splits)
  then show ?thesis unfolding Un_iff insert_iff empty_iff by arith
qed

lemma hexVal_digit:
  assumes "hexVal c = Some d"
  shows "toLower c = hexDigit d" and "d < 16"
proof -
  define n where "n = (of_char c :: nat)"
  then have c: "c = char_of n" by simp
  have "n \<in> {48, 49, 50, 51, 52, 53, 54, 55, 56, 57} \<union> {65, 66, 67, 68, 69, 70}
           \<union> {97, 98, 99, 100, 101, 102}"
    using digit_codes [OF assms] n_def by simp
  then have "toLower c = hexDigit d \<and> d < 16"
    using assms unfolding c
    by (elim UnE insertE emptyE) (auto simp: hexVal_def toLower_def hexDigit_def Let_def char_of_def bit_iff_odd)
  then show "toLower c = hexDigit d" and "d < 16" by simp_all
qed

lemma toLower_hexDigit: "d < 16 \<Longrightarrow> toLower (hexDigit d) = hexDigit d"
  by (rule hexVal_digit) (rule hexVal_hexDigit)

lemma hexVal_toLower: "hexVal (toLower c) = hexVal c"
proof -
  have "(of_char (char_of (n + 32) :: char) :: nat) = n + 32" if "n \<le> 90" for n :: nat
    using that by simp
  then show ?thesis
    by (auto simp: hexVal_def toLower_def Let_def)
qed

lemma hexVal_iff: "hexVal c = Some d \<longleftrightarrow> d < 16 \<and> toLower c = hexDigit d"
  using hexVal_digit hexVal_hexDigit hexVal_toLower by metis

lemma mask_nibble_self: "x < 16 \<Longrightarrow> x AND 15 = (x :: 8 word)"
  using less_mask_eq [of x 4] by (simp add: mask_nibble)

lemma nibbles_of_or:
  assumes "x < 16" and "y < (16 :: 8 word)"
  shows "drop_bit 4 (push_bit 4 x OR y) = x" and "(push_bit 4 x OR y) AND 15 = y"
proof -
  have bits: "bit x i \<Longrightarrow> i < 4" "bit y i \<Longrightarrow> i < 4" for i
    using assms mask_nibble_self [of x] mask_nibble_self [of y] unfolding mask_nibble
    by (auto simp: bit_simps dest: arg_cong [where f = "\<lambda>v. bit v i"])
  show "drop_bit 4 (push_bit 4 x OR y) = x"
    by (rule bit_word_eqI) (use bits in \<open>fastforce simp: bit_simps\<close>)
  show "(push_bit 4 x OR y) AND 15 = y"
    unfolding mask_nibble
    by (rule bit_word_eqI) (use bits in \<open>fastforce simp: bit_simps\<close>)
qed

lemma hexDecode_iff: "hexDecode t = Some bs \<longleftrightarrow> map toLower t = hexEncode bs"
proof (induction t arbitrary: bs rule: hexDecode.induct)
  case 1
  then show ?case by (cases bs) auto
next
  case (2 c)
  then show ?case by (cases bs) auto
next
  case (3 a b cs)
  show ?case
  proof
    assume "hexDecode (a # b # cs) = Some bs"
    then obtain x y r where "hexVal a = Some x" "hexVal b = Some y" "hexDecode cs = Some r"
      "bs = (push_bit 4 x OR y) # r"
      by (auto split: option.splits)
    moreover from this 3 have "map toLower cs = hexEncode r" by fastforce
    ultimately show "map toLower (a # b # cs) = hexEncode bs"
      by (simp add: hexVal_iff nibbles_of_or del: drop_bit_or)
  next
    assume e: "map toLower (a # b # cs) = hexEncode bs"
    then obtain v r where "bs = v # r" by (cases bs) auto
    with e 3 show "hexDecode (a # b # cs) = Some bs"
      using hexVal_iff [of a "drop_bit 4 v"] hexVal_iff [of b "v AND 15"]
      by (simp add: high_nibble_less low_nibble_less nibbles)
  qed
qed

section \<open>Properties\<close>

text \<open>
  C26. The verifier accepts exactly the hexadecimal forms of the namespace's own HMAC, in
  either letter case: in particular what \<open>hmacSigner\<close> issued, and nothing else.
\<close>

theorem hmacVerifier_iff:
  "hmacVerifier ns token secret \<longleftrightarrow> map toLower token = hmacSigner ns secret"
  by (simp add: tok.verifier_iff hexDecode_iff hmacSigner_def)

end
