(* ===== verification/Kube.thy ===== *)
theory Kube
  imports Prelude GoTime "HOL-Library.Word"
begin

text \<open>
  What the controller exchanges with its surroundings: the Kubernetes objects it reads,
  the merge patches it sends, the process state its goroutines share, and the
  \<open>platform\<close>, a record of functions that stands for everything that is not the
  controller's own code (the controller-runtime client and the API server behind it, the
  Prometheus client, pod exec, the clock, the environment).  No law of the platform is
  assumed here; a theorem that needs one states it.
\<close>

section \<open>Kubernetes objects, as far as the controller reads them\<close>

type_synonym labels = "string \<rightharpoonup> string"
type_synonym int32 = "32 word"

record namespace =
  ns_name :: string
  ns_labels :: labels
  ns_annotations :: labels

record envVar =
  env_name :: string
  env_value :: string

record container =
  con_env :: "envVar list"

text \<open>\<open>Spec.Replicas\<close> and \<open>Spec.Selector\<close> are Go pointers: \<open>None\<close> is nil.\<close>

record deployment =
  dep_name :: string
  dep_namespace :: string
  dep_labels :: labels
  dep_annotations :: labels
  dep_replicas :: "int32 option"
  dep_selector :: "labels option"
  dep_containers :: "container list"

record pod =
  pod_name :: string
  pod_namespace :: string
  pod_labels :: labels
  pod_phase :: string
  pod_startTime :: "int option"

record ingress =
  ing_name :: string
  ing_namespace :: string
  ing_labels :: labels
  ing_annotations :: labels
  ing_hosts :: "string list"

text \<open>A zero \<open>networkv1.Ingress\<close>, as \<open>&networkv1.Ingress{}\<close> makes it.\<close>

definition emptyIngress :: ingress where
  "emptyIngress = \<lparr>ing_name = [], ing_namespace = [], ing_labels = Map.empty,
                   ing_annotations = Map.empty, ing_hosts = []\<rparr>"

datatype gerror = NotFound string | GoError string

fun errorString :: "gerror \<Rightarrow> string" where
  "errorString (NotFound m) = m"
| "errorString (GoError m) = m"

section \<open>Requests\<close>

record requirement =
  req_key :: string
  req_op :: string
  req_values :: "string list"

datatype label_selector = Requirements "requirement list" | LabelSet labels

record list_options =
  lo_namespace :: "string option"
  lo_selector :: "label_selector option"

abbreviation inNamespace :: "string \<Rightarrow> label_selector \<Rightarrow> list_options" where
  "inNamespace ns sel \<equiv> \<lparr>lo_namespace = Some ns, lo_selector = Some sel\<rparr>"

datatype kind = KNamespace | KDeployment | KPod | KIngress

datatype objref =
    NamespaceRef string
  | DeploymentRef string string
  | IngressRef string string

abbreviation refOfDeployment :: "deployment \<Rightarrow> objref" where
  "refOfDeployment d \<equiv> DeploymentRef (dep_namespace d) (dep_name d)"

abbreviation refOfIngress :: "ingress \<Rightarrow> objref" where
  "refOfIngress i \<equiv> IngressRef (ing_namespace i) (ing_name i)"

text \<open>
  The value \<open>json.Marshal\<close> receives: maps of maps with numbers, strings and nil.  Every
  object the code builds has distinct keys.
\<close>

datatype json = JNull | JNum int | JStr string | JObj "(string \<times> json) list"

fun jsonOfOption :: "string option \<Rightarrow> json" where
  "jsonOfOption None = JNull"
| "jsonOfOption (Some v) = JStr v"

text \<open>The requests that leave the process, in the order they are sent.\<close>

datatype call =
    CList kind list_options
  | CGet objref
  | CPatch objref json
  | CProm string
  | CExec string string "string list"

fun isPatch :: "call \<Rightarrow> bool" where
  "isPatch (CPatch _ _) = True"
| "isPatch _ = False"

fun isProm :: "call \<Rightarrow> bool" where
  "isProm (CProm _) = True"
| "isProm _ = False"

section \<open>Process state\<close>

text \<open>The counters of \<open>internal/handlers/metrics\<close>; a histogram keeps its observations.\<close>

record metrics =
  requestCount :: "string \<Rightarrow> nat"
  requestDuration :: "string \<Rightarrow> duration list"
  allowedRequests :: nat
  verificationRequests :: nat
  verificationRequired :: nat
  blockedRequests :: nat
  noNamespaceRequests :: nat
  unidleEvents :: nat
  serviceIdleEvents :: nat
  cliIdleEvents :: nat

text \<open>
  An \<open>http.ResponseWriter\<close>: the header map handlers edit, the status line with the
  headers that went out with it (once), informational responses, and the body.
\<close>

record pageData =
  pd_RefreshInterval :: int
  pd_FormatHeader :: string
  pd_CodeHeader :: string
  pd_ContentType :: string
  pd_OriginalURI :: string
  pd_Namespace :: string
  pd_IngressName :: string
  pd_ServiceName :: string
  pd_ServicePort :: string
  pd_RequestID :: string
  pd_ErrorCode :: string
  pd_ErrorMessage :: string
  pd_Verifier :: string

datatype body = Page string pageData | Text string

record response =
  r_header :: labels
  r_status :: "(int \<times> labels) option"
  r_informational :: "(int \<times> labels) list"
  r_body :: "body list"

definition newResponse :: response where
  "newResponse = \<lparr>r_header = Map.empty, r_status = None, r_informational = [], r_body = []\<rparr>"

text \<open>
  The state: the outside world \<open>'w\<close>, the requests sent so far, the metrics, the
  unidler's lock map, the namespaces handed to \<open>go h.Unidle(...)\<close>, and the response of
  the HTTP request being served.
\<close>

record 'w st =
  world :: 'w
  calls :: "call list"
  metrics :: metrics
  locks :: "string \<rightharpoonup> string"
  spawned :: "namespace list"
  resp :: response

section \<open>The platform\<close>

datatype prom_value = Vector "string list" | NonVector

record exec_request =
  ex_pod :: string
  ex_namespace :: string
  ex_command :: "string list"
  ex_stdin :: bool
  ex_stdout :: bool
  ex_stderr :: bool
  ex_tty :: bool

record 'w platform =
  newRequirementOk :: "string \<Rightarrow> string \<Rightarrow> string list \<Rightarrow> bool"
  listNamespaces :: "list_options \<Rightarrow> 'w \<Rightarrow> (gerror + namespace list) \<times> 'w"
  listDeployments :: "list_options \<Rightarrow> 'w \<Rightarrow> (gerror + deployment list) \<times> 'w"
  listPods :: "list_options \<Rightarrow> 'w \<Rightarrow> (gerror + pod list) \<times> 'w"
  listIngresses :: "list_options \<Rightarrow> 'w \<Rightarrow> (gerror + ingress list) \<times> 'w"
  getNamespace :: "string \<Rightarrow> 'w \<Rightarrow> (gerror + namespace) \<times> 'w"
  getDeployment :: "string \<Rightarrow> string \<Rightarrow> 'w \<Rightarrow> (gerror + deployment) \<times> 'w"
  getIngress :: "string \<Rightarrow> string \<Rightarrow> 'w \<Rightarrow> (gerror + ingress) \<times> 'w"
  sendPatch :: "objref \<Rightarrow> json \<Rightarrow> 'w \<Rightarrow> gerror option \<times> 'w"
  promQuery :: "string \<Rightarrow> 'w \<Rightarrow> (gerror + prom_value \<times> string list) \<times> 'w"
  restConfig :: "'w \<Rightarrow> gerror option"
  newClientset :: "'w \<Rightarrow> gerror option"
  addToScheme :: "'w \<Rightarrow> gerror option"
  newExecutor :: "exec_request \<Rightarrow> 'w \<Rightarrow> gerror option"
  execStream :: "exec_request \<Rightarrow> 'w \<Rightarrow> (gerror + string \<times> string) \<times> 'w"
  clock :: "'w \<Rightarrow> int"
  clockRFC3339 :: "'w \<Rightarrow> string"
  getenv :: "string \<Rightarrow> string"
  matchString :: "string \<Rightarrow> string \<Rightarrow> bool"
  urlHostname :: "string \<Rightarrow> string option"
  templateParses :: "string \<Rightarrow> bool"
  pollUntil :: "duration \<Rightarrow> duration \<Rightarrow> bool \<Rightarrow> ('w st, gerror + bool) go \<Rightarrow> ('w st, gerror option) go"

text \<open>
  Every request to the platform is recorded in \<open>calls\<close> and may move the world, whether it
  succeeds or fails.
\<close>

definition request :: "call \<Rightarrow> ('w \<Rightarrow> 'r \<times> 'w) \<Rightarrow> ('w st, 'r) go" where
  "request c f s = (case f (world s) of (r, w) \<Rightarrow> (Ok r, s\<lparr>world := w, calls := calls s @ [c]\<rparr>))"

definition ListNamespaces :: "'w platform \<Rightarrow> list_options \<Rightarrow> ('w st, gerror + namespace list) go" where
  "ListNamespaces P opts = request (CList KNamespace opts) (listNamespaces P opts)"

definition ListDeployments :: "'w platform \<Rightarrow> list_options \<Rightarrow> ('w st, gerror + deployment list) go" where
  "ListDeployments P opts = request (CList KDeployment opts) (listDeployments P opts)"

definition ListPods :: "'w platform \<Rightarrow> list_options \<Rightarrow> ('w st, gerror + pod list) go" where
  "ListPods P opts = request (CList KPod opts) (listPods P opts)"

definition ListIngresses :: "'w platform \<Rightarrow> list_options \<Rightarrow> ('w st, gerror + ingress list) go" where
  "ListIngresses P opts = request (CList KIngress opts) (listIngresses P opts)"

definition GetNamespace :: "'w platform \<Rightarrow> string \<Rightarrow> ('w st, gerror + namespace) go" where
  "GetNamespace P n = request (CGet (NamespaceRef n)) (getNamespace P n)"

definition GetDeployment :: "'w platform \<Rightarrow> string \<Rightarrow> string \<Rightarrow> ('w st, gerror + deployment) go" where
  "GetDeployment P ns n = request (CGet (DeploymentRef ns n)) (getDeployment P ns n)"

definition GetIngress :: "'w platform \<Rightarrow> string \<Rightarrow> string \<Rightarrow> ('w st, gerror + ingress) go" where
  "GetIngress P ns n = request (CGet (IngressRef ns n)) (getIngress P ns n)"

definition Patch :: "'w platform \<Rightarrow> objref \<Rightarrow> json \<Rightarrow> ('w st, gerror option) go" where
  "Patch P ref p = request (CPatch ref p) (sendPatch P ref p)"

definition PromQuery :: "'w platform \<Rightarrow> string \<Rightarrow> ('w st, gerror + prom_value \<times> string list) go" where
  "PromQuery P q = request (CProm q) (promQuery P q)"

definition ExecStream :: "'w platform \<Rightarrow> exec_request \<Rightarrow> ('w st, gerror + string \<times> string) go" where
  "ExecStream P r = request (CExec (ex_pod r) (ex_namespace r) (ex_command r)) (execStream P r)"

lemmas request_defs =
  ListNamespaces_def ListDeployments_def ListPods_def ListIngresses_def GetNamespace_def
  GetDeployment_def GetIngress_def Patch_def PromQuery_def ExecStream_def

definition countMetric :: "(metrics \<Rightarrow> metrics) \<Rightarrow> ('w st, unit) go" where
  "countMetric f = modify (\<lambda>s. s\<lparr>metrics := f (metrics s)\<rparr>)"

section \<open>Effects: which requests a piece of code sends, which fields it keeps\<close>

definition emitsRel :: "(call \<Rightarrow> bool) \<Rightarrow> 'w st \<Rightarrow> 'w st \<Rightarrow> bool" where
  "emitsRel Q s t \<longleftrightarrow> (\<exists>new. calls t = calls s @ new \<and> (\<forall>c \<in> set new. Q c))"

abbreviation emits :: "(call \<Rightarrow> bool) \<Rightarrow> ('w st, 'a) go \<Rightarrow> bool" where
  "emits Q m \<equiv> steps (emitsRel Q) m"

interpretation em: effect "emitsRel Q :: 'w st \<Rightarrow> 'w st \<Rightarrow> bool" for Q
proof
  fix s :: "'w st"
  show "emitsRel Q s s" by (simp add: emitsRel_def)
next
  fix s t u :: "'w st"
  assume "emitsRel Q s t" and "emitsRel Q t u"
  then obtain a b where "calls t = calls s @ a" "\<forall>c \<in> set a. Q c"
    "calls u = calls t @ b" "\<forall>c \<in> set b. Q c"
    unfolding emitsRel_def by blast
  then have "calls u = calls s @ (a @ b) \<and> (\<forall>c \<in> set (a @ b). Q c)" by auto
  then show "emitsRel Q s u" unfolding emitsRel_def by blast
qed

lemma emits_request: "Q c \<Longrightarrow> emits Q (request c f)"
  by (rule stepsI) (auto simp: request_def emitsRel_def split: prod.split)

lemma emits_countMetric: "emits Q (countMetric f)"
  by (rule stepsI) (simp add: countMetric_def emitsRel_def)

lemma emits_ListNamespaces: "Q (CList KNamespace opts) \<Longrightarrow> emits Q (ListNamespaces P opts)"
  by (simp add: request_defs emits_request)

lemma emits_ListDeployments: "Q (CList KDeployment opts) \<Longrightarrow> emits Q (ListDeployments P opts)"
  by (simp add: request_defs emits_request)

lemma emits_ListPods: "Q (CList KPod opts) \<Longrightarrow> emits Q (ListPods P opts)"
  by (simp add: request_defs emits_request)

lemma emits_ListIngresses: "Q (CList KIngress opts) \<Longrightarrow> emits Q (ListIngresses P opts)"
  by (simp add: request_defs emits_request)

lemma emits_GetNamespace: "Q (CGet (NamespaceRef n)) \<Longrightarrow> emits Q (GetNamespace P n)"
  by (simp add: request_defs emits_request)

lemma emits_GetDeployment: "Q (CGet (DeploymentRef ns n)) \<Longrightarrow> emits Q (GetDeployment P ns n)"
  by (simp add: request_defs emits_request)

lemma emits_GetIngress: "Q (CGet (IngressRef ns n)) \<Longrightarrow> emits Q (GetIngress P ns n)"
  by (simp add: request_defs emits_request)

lemma emits_Patch: "Q (CPatch ref p) \<Longrightarrow> emits Q (Patch P ref p)"
  by (simp add: request_defs emits_request)

lemma emits_PromQuery: "Q (CProm q) \<Longrightarrow> emits Q (PromQuery P q)"
  by (simp add: request_defs emits_request)

lemma emits_ExecStream:
  "Q (CExec (ex_pod r) (ex_namespace r) (ex_command r)) \<Longrightarrow> emits Q (ExecStream P r)"
  by (simp add: request_defs emits_request)

lemmas emits_rules =
  em.steps_rules emits_countMetric emits_ListNamespaces emits_ListDeployments emits_ListPods
  emits_ListIngresses emits_GetNamespace emits_GetDeployment emits_GetIngress emits_Patch
  emits_PromQuery emits_ExecStream

lemma emitsD:
  assumes "emits Q m"
  obtains new where "calls (snd (m s)) = calls s @ new" and "\<forall>c \<in> set new. Q c"
  using stepsD [OF assms, of s] by (auto simp: emitsRel_def)

lemma emits_mono: "emits Q m \<Longrightarrow> (\<And>c. Q c \<Longrightarrow> Q' c) \<Longrightarrow> emits Q' m"
  by (erule steps_mono) (auto simp: emitsRel_def)

text \<open>A field of the state that a piece of code leaves alone.\<close>

abbreviation preserves :: "('w st \<Rightarrow> 'f) \<Rightarrow> ('w st, 'a) go \<Rightarrow> bool" where
  "preserves f m \<equiv> steps (\<lambda>s t. f t = f s) m"

interpretation pres: effect "\<lambda>s t. f t = f s" for f :: "'w st \<Rightarrow> 'f"
  by unfold_locales auto

lemma preserves_request:
  "(\<And>s w cs. f (s\<lparr>world := w, calls := cs\<rparr>) = f s) \<Longrightarrow> preserves f (request c g)"
  by (rule stepsI) (auto simp: request_def split: prod.split)

lemma preserves_countMetric:
  "(\<And>s m. f (s\<lparr>metrics := m\<rparr>) = f s) \<Longrightarrow> preserves f (countMetric g)"
  by (rule stepsI) (simp add: countMetric_def)

lemmas preserves_rules = pres.steps_rules preserves_countMetric

lemma request_eval:
  "request c f s = (Ok (fst (f (world s))), s\<lparr>world := snd (f (world s)), calls := calls s @ [c]\<rparr>)"
  by (simp add: request_def split: prod.split)

end
