(* ===== verification/Http.thy ===== *)
theory Http
  imports Kube Hmac
begin

text \<open>
  The parts of Go's \<open>net/http\<close>, \<open>net/url\<close> and \<open>unicode/utf8\<close> the unidler's handlers use:
  request headers under canonical names, query parameters, the response writer with its
  one status line, the status texts, and the runes of a string.
\<close>

section \<open>Header names\<close>

definition isUpper :: "char \<Rightarrow> bool" where
  "isUpper c = (let n = (of_char c :: nat) in 65 \<le> n \<and> n \<le> 90)"

definition isLower :: "char \<Rightarrow> bool" where
  "isLower c = (let n = (of_char c :: nat) in 97 \<le> n \<and> n \<le> 122)"

definition toUpper :: "char \<Rightarrow> char" where
  "toUpper c = (if isLower c then char_of ((of_char c :: nat) - 32) else c)"

text \<open>
  \<open>textproto.CanonicalMIMEHeaderKey\<close> on a valid header name: a letter at the start or after
  a dash is upper case, the others are lower case.
\<close>

fun canonical :: "bool \<Rightarrow> string \<Rightarrow> string" where
  "canonical up [] = []"
| "canonical up (c # cs) =
     (if up then toUpper c else toLower c) # canonical (c = CHR ''-'') cs"

definition canonicalKey :: "string \<Rightarrow> string" where
  "canonicalKey k = canonical True k"

section \<open>Requests\<close>

text \<open>A request as the server hands it over; its header map has canonical keys.\<close>

record http_request =
  rq_path :: string
  rq_rawQuery :: string
  rq_header :: "string \<rightharpoonup> string list"
  rq_protoMajor :: int
  rq_protoMinor :: int

definition headerGet :: "http_request \<Rightarrow> string \<Rightarrow> string" where
  "headerGet r k = (case rq_header r (canonicalKey k) of Some (v # _) \<Rightarrow> v | _ \<Rightarrow> '''')"

text \<open>\<open>url.QueryUnescape\<close>: \<open>None\<close> for an incomplete or invalid percent escape.\<close>

fun queryUnescape :: "string \<Rightarrow> string option" where
  "queryUnescape [] = Some []"
| "queryUnescape (c # cs) =
     (if c = CHR ''%'' then
        (case cs of
           a # b # rest \<Rightarrow>
             (case (hexVal a, hexVal b) of
                (Some x, Some y) \<Rightarrow>
                  map_option ((#) (char_of (unat x * 16 + unat y))) (queryUnescape rest)
              | _ \<Rightarrow> None)
         | _ \<Rightarrow> None)
      else if c = CHR ''+'' then map_option ((#) (CHR '' '')) (queryUnescape cs)
      else map_option ((#) c) (queryUnescape cs))"

text \<open>\<open>strings.Cut\<close> at a byte.\<close>

definition cutAt :: "char \<Rightarrow> string \<Rightarrow> string \<times> string" where
  "cutAt sep s = (takeWhile (\<lambda>c. c \<noteq> sep) s, drop 1 (dropWhile (\<lambda>c. c \<noteq> sep) s))"

text \<open>
  \<open>URL.Query().Get(k)\<close>: the first value of the key; a pair with a semicolon, an empty
  key-value text or a bad escape is skipped, as \<open>Query\<close> drops the errors.
\<close>

definition queryPair :: "string \<Rightarrow> (string \<times> string) option" where
  "queryPair pair =
     (if pair = '''' \<or> List.member pair (CHR '';'') then None
      else case cutAt (CHR ''='') pair of (k, v) \<Rightarrow>
        (case (queryUnescape k, queryUnescape v) of
           (Some k', Some v') \<Rightarrow> Some (k', v')
         | _ \<Rightarrow> None))"

definition queryGet :: "http_request \<Rightarrow> string \<Rightarrow> string" where
  "queryGet r k =
     (case map_of (List.map_filter queryPair (splitOn (CHR ''&'') (rq_rawQuery r))) k of
        Some v \<Rightarrow> v | None \<Rightarrow> '''')"

section \<open>The response writer\<close>

definition setHeader :: "string \<Rightarrow> string \<Rightarrow> ('w st, unit) go" where
  "setHeader k v = modify (\<lambda>s. s\<lparr>resp := (resp s)\<lparr>r_header := (r_header (resp s))(canonicalKey k \<mapsto> v)\<rparr>\<rparr>)"

text \<open>
  A second status is ignored; an informational status sends the headers but leaves the
  final status open; an invalid code panics.
\<close>

definition writeStatus :: "int \<Rightarrow> response \<Rightarrow> response" where
  "writeStatus code rp =
     (if 100 \<le> code \<and> code \<le> 199 \<and> code \<noteq> 101
      then rp\<lparr>r_informational := r_informational rp @ [(code, r_header rp)]\<rparr>
      else rp\<lparr>r_status := Some (code, r_header rp)\<rparr>)"

definition WriteHeader :: "int \<Rightarrow> ('w st, unit) go" where
  "WriteHeader code s =
     (if r_status (resp s) \<noteq> None then (Ok (), s)
      else if code < 100 \<or> code > 999 then (Panic ''invalid WriteHeader code'', s)
      else (Ok (), s\<lparr>resp := writeStatus code (resp s)\<rparr>))"

definition bodyAllowed :: "int \<Rightarrow> bool" where
  "bodyAllowed status = (\<not> (100 \<le> status \<and> status \<le> 199) \<and> status \<noteq> 204 \<and> status \<noteq> 304)"

text \<open>\<open>Write\<close> of a non-empty body: status 200 if none was sent; a refused body is an ignored error.\<close>

definition Write :: "body \<Rightarrow> ('w st, unit) go" where
  "Write b = andThen (WriteHeader 200) (\<lambda>_.
     modify (\<lambda>s. case r_status (resp s) of
         Some (code, _) \<Rightarrow>
           if bodyAllowed code then s\<lparr>resp := (resp s)\<lparr>r_body := r_body (resp s) @ [b]\<rparr>\<rparr> else s
       | None \<Rightarrow> s))"

section \<open>Runes\<close>

definition byte :: "char \<Rightarrow> nat" where "byte c = of_char c"

definition inRange :: "nat \<Rightarrow> nat \<Rightarrow> char \<Rightarrow> bool" where
  "inRange lo hi c = (lo \<le> byte c \<and> byte c \<le> hi)"

definition replacement :: string where
  "replacement = [CHR 0xEF, CHR 0xBF, CHR 0xBD]"

text \<open>
  \<open>for _, c := range s\<close> with \<open>string(c)\<close>: how many bytes the rune at the front takes, 0 when
  they are not valid UTF-8 (then one byte is skipped and the rune is U+FFFD).
\<close>

fun runeLength :: "string \<Rightarrow> nat" where
  "runeLength [] = 0"
| "runeLength (a # s) =
     (let n = byte a in
      if n < 0x80 then 1
      else if 0xC2 \<le> n \<and> n \<le> 0xDF then
        (case s of b # _ \<Rightarrow> if inRange 0x80 0xBF b then 2 else 0 | _ \<Rightarrow> 0)
      else if 0xE0 \<le> n \<and> n \<le> 0xEF then
        (case s of b # c # _ \<Rightarrow>
           if inRange (if n = 0xE0 then 0xA0 else 0x80) (if n = 0xED then 0x9F else 0xBF) b
              \<and> inRange 0x80 0xBF c then 3 else 0
         | _ \<Rightarrow> 0)
      else if 0xF0 \<le> n \<and> n \<le> 0xF4 then
        (case s of b # c # d # _ \<Rightarrow>
           if inRange (if n = 0xF0 then 0x90 else 0x80) (if n = 0xF4 then 0x8F else 0xBF) b
              \<and> inRange 0x80 0xBF c \<and> inRange 0x80 0xBF d then 4 else 0
         | _ \<Rightarrow> 0)
      else 0)"

function runeStrings :: "string \<Rightarrow> string list" where
  "runeStrings [] = []"
| "runeStrings (a # s) =
     (if runeLength (a # s) = 0 then replacement # runeStrings s
      else take (runeLength (a # s)) (a # s) # runeStrings (drop (runeLength (a # s)) (a # s)))"
  by pat_completeness auto
termination
  by (relation "measure length") auto

end
