(* ===== verification/StatusCodes.thy ===== *)
theory StatusCodes
  imports GoStrings
begin

text \<open>
  The comma-separated annotations the idler and the unidler edit on an ingress:
  \<open>addStatusCode\<close> (idler/helpers.go) puts the 503 code or the Traefik middleware in when
  an environment is idled, \<open>removeStatusCode\<close> (unidler/helpers.go) takes it out again.
  The contract of the pair is a locale; the last section interprets it on the two
  functions.
\<close>

section \<open>The two functions\<close>

text \<open>\<open>addStatusCode\<close> returns a pointer that is never nil.\<close>

fun hasPart :: "string \<Rightarrow> string list \<Rightarrow> bool" where
  "hasPart code [] = False"
| "hasPart code (c # cs) = (if c = code then True else hasPart code cs)"

definition addStatusCode :: "string \<Rightarrow> string \<Rightarrow> string" where
  "addStatusCode codes code =
     (if codes = '''' then code
      else if hasPart code (splitOn (CHR '','') codes) then codes
      else codes @ '','' @ code)"

fun keepOthers :: "string \<Rightarrow> string list \<Rightarrow> string list \<Rightarrow> string list" where
  "keepOthers code newCodes [] = newCodes"
| "keepOthers code newCodes (c # cs) =
     (if c \<noteq> code then keepOthers code (newCodes @ [c]) cs else keepOthers code newCodes cs)"

definition removeStatusCode :: "string \<Rightarrow> string \<Rightarrow> string option" where
  "removeStatusCode codes code =
     (let newCodes = keepOthers code [] (splitOn (CHR '','') codes)
      in if newCodes = [] then None else Some (joinWith (CHR '','') newCodes))"

text \<open>
  The Traefik middleware of a namespace: runs of dashes are squeezed, because Traefik
  uses a normalised namespace name.
\<close>

definition traefikMiddleware :: "string \<Rightarrow> string" where
  "traefikMiddleware ns = squeezeDashes ns @ ''-aergia@kubernetescrd''"

section \<open>Their effect on the list of codes\<close>

abbreviation codesOf :: "string \<Rightarrow> string list" where
  "codesOf s \<equiv> splitOn (CHR '','') s"

lemma hasPart_iff [simp]: "hasPart code cs \<longleftrightarrow> code \<in> set cs"
  by (induction cs) auto

lemma keepOthers_filter: "keepOthers code acc cs = acc @ filter (\<lambda>c. c \<noteq> code) cs"
  by (induction cs arbitrary: acc) auto

lemma addStatusCode_codes:
  assumes "CHR '','' \<notin> set code"
  shows "codesOf (addStatusCode codes code) =
           (if codes = '''' then [code]
            else if code \<in> set (codesOf codes) then codesOf codes
            else codesOf codes @ [code])"
  using assms by (simp add: addStatusCode_def splitOn_no_sep splitOn_append_sep)

lemma removeStatusCode_filter:
  "removeStatusCode codes code =
     (let rest = filter (\<lambda>c. c \<noteq> code) (codesOf codes)
      in if rest = [] then None else Some (joinWith (CHR '','') rest))"
  by (simp add: removeStatusCode_def keepOthers_filter)

lemma removeStatusCode_codes:
  assumes "removeStatusCode codes code = Some codes'"
  shows "codesOf codes' = filter (\<lambda>c. c \<noteq> code) (codesOf codes)"
proof -
  let ?rest = "filter (\<lambda>c. c \<noteq> code) (codesOf codes)"
  have "?rest \<noteq> []" and "codes' = joinWith (CHR '','') ?rest"
    using assms by (auto simp: removeStatusCode_filter Let_def split: if_splits)
  moreover have "\<And>p. p \<in> set ?rest \<Longrightarrow> CHR '','' \<notin> set p"
    using splitOn_parts by fastforce
  ultimately show ?thesis using split_join [of ?rest "CHR '',''"] by blast
qed

lemma removeStatusCode_None:
  "removeStatusCode codes code = None \<longleftrightarrow> (\<forall>c \<in> set (codesOf codes). c = code)"
  by (auto simp: removeStatusCode_filter Let_def filter_empty_conv)

lemma no_comma_traefik: "CHR '','' \<notin> set ns \<Longrightarrow> CHR '','' \<notin> set (traefikMiddleware ns)"
  by (simp add: traefikMiddleware_def squeezeDashes_set)

section \<open>The contract\<close>

text \<open>
  What an annotation editor promises: \<open>add\<close> inserts a code once and keeps the others in
  order, \<open>remove\<close> filters it out, and an annotation left without codes disappears.
\<close>

locale code_editor =
  fixes add :: "string \<Rightarrow> string \<Rightarrow> string"
    and remove :: "string \<Rightarrow> string \<Rightarrow> string option"
    and codes :: "string \<Rightarrow> string list"
    and valid :: "string \<Rightarrow> bool"
  assumes add_codes:
      "valid c \<Longrightarrow> codes (add s c) =
         (if s = '''' then [c] else if c \<in> set (codes s) then codes s else codes s @ [c])"
    and remove_Some: "remove s c = Some s' \<Longrightarrow> codes s' = filter (\<lambda>x. x \<noteq> c) (codes s)"
    and remove_None: "remove s c = None \<longleftrightarrow> (\<forall>x \<in> set (codes s). x = c)"
    and codes_inj: "codes s = codes t \<Longrightarrow> s = t"
begin

lemma add_present: "valid c \<Longrightarrow> c \<in> set (codes (add s c))"
  by (simp add: add_codes)

lemma add_keeps: "valid c \<Longrightarrow> s \<noteq> '''' \<Longrightarrow> set (codes s) \<subseteq> set (codes (add s c))"
  by (auto simp: add_codes)

lemma add_idem: "valid c \<Longrightarrow> c \<noteq> '''' \<Longrightarrow> codes '''' = [''''] \<Longrightarrow> add (add s c) c = add s c"
proof (rule codes_inj)
  assume v: "valid c" and c: "c \<noteq> ''''" and e: "codes '''' = ['''']"
  have "add s c \<noteq> '''' \<or> c \<notin> set (codes (add s c))" using c e by auto
  with add_present [OF v, of s] have "add s c \<noteq> ''''" by blast
  with v add_present [OF v, of s] show "codes (add (add s c) c) = codes (add s c)"
    by (subst add_codes) simp_all
qed

lemma remove_absent: "remove s c = Some s' \<Longrightarrow> c \<notin> set (codes s')"
  by (auto dest: remove_Some)

lemma remove_add:
  assumes "valid c" and "s \<noteq> ''''" and "codes s \<noteq> []"
  shows "remove (add s c) c = Some s \<longleftrightarrow> c \<notin> set (codes s)"
proof
  assume "remove (add s c) c = Some s"
  then show "c \<notin> set (codes s)" by (rule remove_absent)
next
  assume fresh: "c \<notin> set (codes s)"
  with assms have codes: "codes (add s c) = codes s @ [c]" by (simp add: add_codes)
  obtain x where "x \<in> set (codes s)" "x \<noteq> c"
    using assms(3) fresh by (cases "codes s") auto
  then have "remove (add s c) c \<noteq> None" using codes by (auto simp: remove_None)
  then obtain s' where s': "remove (add s c) c = Some s'" by blast
  have "codes s' = codes s"
    using remove_Some [OF s'] fresh by (auto simp: codes filter_id_conv)
  then show "remove (add s c) c = Some s" using s' codes_inj by blast
qed

lemma remove_add_empty: "valid c \<Longrightarrow> remove (add '''' c) c = None"
  by (simp add: remove_None add_codes)

end

interpretation codes: code_editor addStatusCode removeStatusCode codesOf "\<lambda>c. CHR '','' \<notin> set c"
proof
  fix s t :: string
  assume "codesOf s = codesOf t"
  then have "joinWith (CHR '','') (codesOf s) = joinWith (CHR '','') (codesOf t)" by simp
  then show "s = t" by simp
qed (simp_all add: addStatusCode_codes removeStatusCode_codes removeStatusCode_None)

end
