(* ===== verification/Restrictions.thy ===== *)
theory Restrictions
  imports GoStrings Kube
begin

text \<open>
  Who may wake an environment: unidler/restrictions.go.  IP addresses and user agents are
  checked against a list that comes from the ingress annotation, else the namespace
  annotation, else the global list the process was started with.  Regular expression
  matching (\<open>regexp.MatchString\<close>, errors count as no match) is the platform's
  \<open>matchString\<close>.
\<close>

section \<open>The unidler's configuration\<close>

text \<open>
  \<open>Unidler\<close> without its client, logger and lock map, which are the platform and the
  process state.  The global lists are nil when their file does not exist.
\<close>

record unidler =
  RefreshInterval :: int
  UnidlerHTTPPort :: int
  u_Debug :: bool
  VerifiedUnidling :: bool
  VerifiedSecret :: string
  AllowedUserAgents :: "string list option"
  BlockedUserAgents :: "string list option"
  AllowedIPs :: "string list option"
  BlockedIPs :: "string list option"
  DefaultHTTPResponseCode :: int

section \<open>List checks\<close>

fun matchAny :: "(string \<Rightarrow> string \<Rightarrow> bool) \<Rightarrow> string list \<Rightarrow> string \<Rightarrow> bool" where
  "matchAny re [] agent = False"
| "matchAny re (ua # uas) agent = (if re ua agent then True else matchAny re uas agent)"

definition checkAgents :: "(string \<Rightarrow> string \<Rightarrow> bool) \<Rightarrow> string list \<Rightarrow> string \<Rightarrow> bool" where
  "checkAgents re blockedAgents requestUserAgent =
     (if requestUserAgent \<noteq> '''' then matchAny re blockedAgents requestUserAgent else False)"

fun containsIP :: "string \<Rightarrow> string list \<Rightarrow> bool" where
  "containsIP ua [] = False"
| "containsIP ua (ip # ips) = (if ua = ip then True else containsIP ua ips)"

fun anyIP :: "string list \<Rightarrow> string list \<Rightarrow> bool" where
  "anyIP [] clientIPs = False"
| "anyIP (ua # uas) clientIPs = (if containsIP ua clientIPs then True else anyIP uas clientIPs)"

definition checkIPList :: "string list \<Rightarrow> string list \<Rightarrow> string \<Rightarrow> bool" where
  "checkIPList allowList xForwardedFor trueClientIP =
     (let clientIPs = (if trueClientIP \<noteq> '''' then [trueClientIP] else xForwardedFor)
      in anyIP allowList clientIPs)"

section \<open>Annotations\<close>

definition checkAgentAnnotations ::
  "(string \<Rightarrow> string \<Rightarrow> bool) \<Rightarrow> string \<Rightarrow> string \<Rightarrow> string list option \<Rightarrow> labels \<Rightarrow> labels \<Rightarrow> bool" where
  "checkAgentAnnotations re annotation ua g ns i =
     (case i annotation of
        Some agents \<Rightarrow> checkAgents re (splitOn (CHR '','') agents) ua
      | None \<Rightarrow>
        (case ns annotation of
           Some agents \<Rightarrow> checkAgents re (splitOn (CHR '','') agents) ua
         | None \<Rightarrow> (case g of Some l \<Rightarrow> checkAgents re l ua | None \<Rightarrow> False)))"

definition checkIPAnnotations ::
  "string \<Rightarrow> string \<Rightarrow> string list \<Rightarrow> string list option \<Rightarrow> labels \<Rightarrow> labels \<Rightarrow> bool" where
  "checkIPAnnotations annotation tcip xff g ns i =
     (case i annotation of
        Some alist \<Rightarrow> checkIPList (splitOn (CHR '','') alist) xff tcip
      | None \<Rightarrow>
        (case ns annotation of
           Some alist \<Rightarrow> checkIPList (splitOn (CHR '','') alist) xff tcip
         | None \<Rightarrow> (case g of Some l \<Rightarrow> checkIPList l xff tcip | None \<Rightarrow> False)))"

definition checkAccess ::
  "(string \<Rightarrow> string \<Rightarrow> bool) \<Rightarrow> unidler \<Rightarrow> labels \<Rightarrow> labels \<Rightarrow> string \<Rightarrow> string \<Rightarrow> string list \<Rightarrow> bool" where
  "checkAccess re h nsannotations annotations userAgent trueClientIP xForwardedFor =
     (let blockedIP = checkIPAnnotations ''idling.amazee.io/ip-block-list'' trueClientIP xForwardedFor
                        (BlockedIPs h) nsannotations annotations
      in if blockedIP then False
      else let allowedIP = checkIPAnnotations ''idling.amazee.io/ip-allow-list'' trueClientIP xForwardedFor
                             (AllowedIPs h) nsannotations annotations
      in if allowedIP then True
      else let blockedAgent = checkAgentAnnotations re ''idling.amazee.io/blocked-agents'' userAgent
                                (BlockedUserAgents h) nsannotations annotations
      in if blockedAgent then False
      else let allowedAgent = checkAgentAnnotations re ''idling.amazee.io/allowed-agents'' userAgent
                                (AllowedUserAgents h) nsannotations annotations
      in if allowedAgent then True
      else True)"

section \<open>Specification\<close>

text \<open>
  The list in force for an annotation, and the addresses a request is known by: the
  specification the functions above are compared with.
\<close>

definition effectiveList :: "string \<Rightarrow> string list option \<Rightarrow> labels \<Rightarrow> labels \<Rightarrow> string list" where
  "effectiveList annotation g ns i =
     (case i annotation of Some l \<Rightarrow> splitOn (CHR '','') l
      | None \<Rightarrow> (case ns annotation of Some l \<Rightarrow> splitOn (CHR '','') l
      | None \<Rightarrow> (case g of Some l \<Rightarrow> l | None \<Rightarrow> [])))"

definition clientAddresses :: "string \<Rightarrow> string list \<Rightarrow> string set" where
  "clientAddresses tcip xff = (if tcip \<noteq> '''' then {tcip} else set xff)"

lemma matchAny_iff: "matchAny re uas agent \<longleftrightarrow> (\<exists>ua \<in> set uas. re ua agent)"
  by (induction uas) auto

lemma containsIP_iff: "containsIP ua ips \<longleftrightarrow> ua \<in> set ips"
  by (induction ips) auto

lemma anyIP_iff: "anyIP uas ips \<longleftrightarrow> set uas \<inter> set ips \<noteq> {}"
  by (induction uas) (auto simp: containsIP_iff)

lemma checkAgents_iff:
  "checkAgents re l ua \<longleftrightarrow> ua \<noteq> '''' \<and> (\<exists>p \<in> set l. re p ua)"
  by (simp add: checkAgents_def matchAny_iff)

lemma checkIPList_iff:
  "checkIPList l xff tcip \<longleftrightarrow> set l \<inter> clientAddresses tcip xff \<noteq> {}"
  by (simp add: checkIPList_def anyIP_iff clientAddresses_def)

lemma checkIPAnnotations_iff:
  "checkIPAnnotations a tcip xff g ns i \<longleftrightarrow>
     set (effectiveList a g ns i) \<inter> clientAddresses tcip xff \<noteq> {}"
  by (simp add: checkIPAnnotations_def effectiveList_def checkIPList_iff split: option.split)

lemma checkAgentAnnotations_iff:
  "checkAgentAnnotations re a ua g ns i \<longleftrightarrow>
     ua \<noteq> '''' \<and> (\<exists>p \<in> set (effectiveList a g ns i). re p ua)"
  by (auto simp: checkAgentAnnotations_def effectiveList_def checkAgents_iff split: option.split)

lemmas access_simps = checkIPAnnotations_iff checkAgentAnnotations_iff

lemma checkAccess_iff:
  "checkAccess re h ns i ua tcip xff \<longleftrightarrow>
     set (effectiveList ''idling.amazee.io/ip-block-list'' (BlockedIPs h) ns i)
       \<inter> clientAddresses tcip xff = {} \<and>
     (set (effectiveList ''idling.amazee.io/ip-allow-list'' (AllowedIPs h) ns i)
       \<inter> clientAddresses tcip xff \<noteq> {} \<or>
      ua = '''' \<or>
      (\<forall>p \<in> set (effectiveList ''idling.amazee.io/blocked-agents'' (BlockedUserAgents h) ns i).
         \<not> re p ua))"
  by (auto simp: checkAccess_def access_simps)


text \<open>
  The allowed-agents list decides nothing: whatever the global list and the two
  \<open>allowed-agents\<close> annotations say, the answer is the same.  (The README presents the
  list as a way to restrict access.)
\<close>

theorem allowed_agents_irrelevant:
  "checkAccess re (h\<lparr>AllowedUserAgents := g\<rparr>)
     (ns(''idling.amazee.io/allowed-agents'' := a)) (i(''idling.amazee.io/allowed-agents'' := b))
     ua tcip xff
   = checkAccess re h ns i ua tcip xff"
  by (simp add: checkAccess_iff effectiveList_def cong: option.case_cong)

text \<open>
  An empty block-list annotation on an ingress is not an empty list: it is the list of one
  empty address, and it blocks every request that carries neither a \<open>True-Client-IP\<close> nor an
  \<open>X-Forwarded-For\<close> header (whose missing value splits to one empty address too).
\<close>

theorem empty_block_list_blocks:
  "\<not> checkAccess re h ns (i(''idling.amazee.io/ip-block-list'' \<mapsto> '''')) ua '''' (splitOn (CHR '','') '''')"
  by (simp add: checkAccess_iff effectiveList_def clientAddresses_def)

text \<open>
  Addresses in \<open>X-Forwarded-For\<close> are not trimmed: an address after a comma and a space is
  compared with the space in front, so a list of plain addresses only ever sees the first
  one of a header in the usual form.
\<close>

theorem forwarded_address_keeps_space:
  assumes "CHR '','' \<notin> set ip"
  shows "checkIPList l (splitOn (CHR '','') (xff @ '', '' @ ip)) '''' \<longleftrightarrow>
           checkIPList l (splitOn (CHR '','') xff) '''' \<or> CHR '' '' # ip \<in> set l"
proof -
  have "splitOn (CHR '','') (xff @ [CHR '',''] @ (CHR '' '' # ip)) = splitOn (CHR '','') xff @ [CHR '' '' # ip]"
    using assms splitOn_append_sep [of "CHR '',''" xff "CHR '' '' # ip"] by (simp add: splitOn_no_sep)
  then show ?thesis
    by (auto simp: checkIPList_iff clientAddresses_def)
qed

end
