(* ===== verification/IdlerConfig.thy ===== *)
theory IdlerConfig
  imports Kube
begin

text \<open>
  What the two idlers share: the \<open>Idler\<close> configuration and the selectors file
  (idler/handler.go), the translation of selectors into label requirements
  (idler/helpers.go), and running a command in a pod (\<open>execPod\<close>).
\<close>

section \<open>Configuration\<close>

record idlerSelector =
  sel_Name :: string
  sel_Operator :: string
  sel_Values :: "string list"

record namespaceSelectorsLabels =
  ProjectName :: string
  EnvironmentName :: string
  ProjectIdling :: string
  EnvironmentIdling :: string
  EnvironmentType :: string

record cliSelectors =
  cli_SkipBuildCheck :: bool
  cli_SkipCronCheck :: bool
  cli_SkipProcessCheck :: bool
  cli_Namespace :: "idlerSelector list"
  cli_Builds :: "idlerSelector list"
  cli_Deployments :: "idlerSelector list"
  cli_Pods :: "idlerSelector list"

record serviceSelectors =
  svc_SkipBuildCheck :: bool
  svc_SkipHitCheck :: bool
  svc_SkipIngressPatch :: bool
  svc_Namespace :: "idlerSelector list"
  svc_Builds :: "idlerSelector list"
  svc_Deployments :: "idlerSelector list"
  svc_Pods :: "idlerSelector list"
  svc_Ingress :: "idlerSelector list"

record selectorData =
  nsLabels :: namespaceSelectorsLabels
  serviceName :: string
  cli :: cliSelectors
  service :: serviceSelectors

text \<open>\<open>Idler\<close> without its clients, logger and scheme, which are the platform.\<close>

record idler =
  PodCheckInterval :: duration
  DryRun :: bool
  i_Debug :: bool
  Selectors :: selectorData
  PrometheusCheckInterval :: duration

section \<open>Label requirements\<close>

text \<open>
  \<open>labels.NewRequirement\<close> returns nil and an error for an invalid key, operator or value
  list; the error is dropped.
\<close>

definition generateSelector :: "'w platform \<Rightarrow> idlerSelector \<Rightarrow> requirement option" where
  "generateSelector P s =
     (if newRequirementOk P (sel_Name s) (sel_Operator s) (sel_Values s)
      then Some \<lparr>req_key = sel_Name s, req_op = sel_Operator s, req_values = sel_Values s\<rparr>
      else None)"

text \<open>Each selector is dereferenced: an invalid one panics.\<close>

fun appendRequirements ::
  "'w platform \<Rightarrow> requirement list \<Rightarrow> idlerSelector list \<Rightarrow> requirement list outcome" where
  "appendRequirements P labelRequirements [] = Ok labelRequirements"
| "appendRequirements P labelRequirements (rs # selectors) =
     (case generateSelector P rs of
        None \<Rightarrow> Panic ''nil pointer dereference''
      | Some r \<Rightarrow> appendRequirements P (labelRequirements @ [r]) selectors)"

definition generateLabelRequirements ::
  "'w platform \<Rightarrow> idlerSelector list \<Rightarrow> requirement list outcome" where
  "generateLabelRequirements P selectors = appendRequirements P [] selectors"

definition requirementOf :: "idlerSelector \<Rightarrow> requirement" where
  "requirementOf s = \<lparr>req_key = sel_Name s, req_op = sel_Operator s, req_values = sel_Values s\<rparr>"

definition selectorOk :: "'w platform \<Rightarrow> idlerSelector \<Rightarrow> bool" where
  "selectorOk P s = newRequirementOk P (sel_Name s) (sel_Operator s) (sel_Values s)"

lemma appendRequirements_eq:
  "appendRequirements P acc ss =
     (if \<forall>s \<in> set ss. selectorOk P s then Ok (acc @ map requirementOf ss)
      else Panic ''nil pointer dereference'')"
  by (induction ss arbitrary: acc)
    (auto simp: generateSelector_def selectorOk_def requirementOf_def)

text \<open>
  The selectors of the configuration file become one label requirement each, in order;
  if any of them is rejected by the label library, the controller panics instead of
  returning an error.
\<close>

theorem generateLabelRequirements_eq:
  "generateLabelRequirements P ss =
     (if \<forall>s \<in> set ss. selectorOk P s then Ok (map requirementOf ss)
      else Panic ''nil pointer dereference'')"
  by (simp add: generateLabelRequirements_def appendRequirements_eq)

section \<open>Running a command in a pod\<close>

text \<open>
  \<open>execPod\<close>: each step of building the request may fail, and every failure, like one of
  the stream, is wrapped and loses the output.
\<close>

definition execPod ::
  "'w platform \<Rightarrow> string \<Rightarrow> string \<Rightarrow> string list \<Rightarrow> bool \<Rightarrow> bool
     \<Rightarrow> ('w st, gerror + string \<times> string) go" where
  "execPod P podName ns command stdin tty =
     andThen (gets world) (\<lambda>w.
       case restConfig P w of
         Some err \<Rightarrow> ret (Inl (GoError (''unable to get config: '' @ errorString err)))
       | None \<Rightarrow>
         (case newClientset P w of
            Some err \<Rightarrow> ret (Inl (GoError (''unable to create client: '' @ errorString err)))
          | None \<Rightarrow>
            (case addToScheme P w of
               Some err \<Rightarrow> ret (Inl (GoError (''error adding to scheme: '' @ errorString err)))
             | None \<Rightarrow>
               let cmd = (if command = [] then [''sh''] else command);
                   req = \<lparr>ex_pod = podName, ex_namespace = ns, ex_command = cmd, ex_stdin = stdin,
                          ex_stdout = True, ex_stderr = True, ex_tty = tty\<rparr>
               in (case newExecutor P req w of
                     Some err \<Rightarrow>
                       ret (Inl (GoError (''error while creating Executor: '' @ errorString err)))
                   | None \<Rightarrow>
                     andThen (ExecStream P req) (\<lambda>r.
                       case r of
                         Inl err \<Rightarrow> ret (Inl (GoError (''error in Stream: '' @ errorString err)))
                       | Inr out \<Rightarrow> ret (Inr out))))))"

lemma emits_execPod:
  assumes "\<And>cmd. Q (CExec podName ns cmd)"
  shows "emits Q (execPod P podName ns command stdin tty)"
  unfolding execPod_def
  by (intro emits_rules steps_option steps_sum steps_Let) (simp add: assms)

lemma preserves_execPod:
  assumes "\<And>s w cs. f (s\<lparr>world := w, calls := cs\<rparr>) = f s"
  shows "preserves f (execPod P podName ns command stdin tty)"
  unfolding execPod_def ExecStream_def
  by (intro preserves_rules steps_option steps_sum steps_Let preserves_request assms)

end
