(* ===== verification/ServiceIdler.thy ===== *)
theory ServiceIdler
  imports IdlerConfig StatusCodes
begin

text \<open>
  The service idler: \<open>KubernetesServiceIdler\<close>, \<open>idleDeployments\<close> and \<open>patchIngress\<close> of
  idler/service-kubernetes.go and the cron entry point \<open>ServiceIdler\<close> of
  idler/service.go.  One environment is one namespace: builds are checked first, then the
  age of the pods, then (unless forced) the traffic in Prometheus; only then are the
  ingresses patched and, if that worked, the deployments scaled to zero.
\<close>

section \<open>Deciding whether an environment is idle\<close>

text \<open>A namespace annotation overrides the configured interval when it parses.\<close>

definition intervalOverride :: "duration \<Rightarrow> string \<Rightarrow> namespace \<Rightarrow> duration" where
  "intervalOverride dflt annotation namespace =
     (case ns_annotations namespace annotation of
        Some v \<Rightarrow> (case parseDuration v of Some t \<Rightarrow> t | None \<Rightarrow> dflt)
      | None \<Rightarrow> dflt)"

fun activeBuild :: "pod list \<Rightarrow> bool" where
  "activeBuild [] = False"
| "activeBuild (build # builds) =
     (if pod_phase build = ''Running'' \<or> pod_phase build = ''Pending'' then True
      else activeBuild builds)"

text \<open>A failing list call is logged and counts as no running build.\<close>

definition serviceRunningBuild ::
  "'w platform \<Rightarrow> idler \<Rightarrow> list_options \<Rightarrow> ('w st, bool) go" where
  "serviceRunningBuild P h listOption =
     (if \<not> svc_SkipBuildCheck (service (Selectors h)) then
        andThen (ListPods P listOption) (\<lambda>r.
          case r of Inl err \<Rightarrow> ret False | Inr builds \<Rightarrow> ret (activeBuild builds))
      else ret False)"

text \<open>
  \<open>deployment.Spec.Replicas != zeroReps\<close> compares two pointers, and \<open>zeroReps\<close> was just
  allocated: no pointer that was there before can be equal to it.
\<close>

definition differsFromFresh :: "int32 option \<Rightarrow> bool" where
  "differsFromFresh replicas = True"

fun anyPodOlder :: "int \<Rightarrow> duration \<Rightarrow> bool \<Rightarrow> pod list \<Rightarrow> bool" where
  "anyPodOlder now podIntervalCheck idle [] = idle"
| "anyPodOlder now podIntervalCheck idle (pod # pods) =
     (case pod_startTime pod of
        Some t \<Rightarrow>
          (let hs = timeSince now t
           in anyPodOlder now podIntervalCheck (if hs > podIntervalCheck then True else idle) pods)
      | None \<Rightarrow> anyPodOlder now podIntervalCheck idle pods)"

definition checkDeployment ::
  "'w platform \<Rightarrow> idler \<Rightarrow> namespace \<Rightarrow> duration \<Rightarrow> deployment \<Rightarrow> bool \<Rightarrow> ('w st, bool loop) go" where
  "checkDeployment P h namespace podIntervalCheck deployment idle =
     (if differsFromFresh (dep_replicas deployment) then
        (case dep_replicas deployment of
           None \<Rightarrow> panic ''nil pointer dereference''
         | Some _ \<Rightarrow>
           andThen (ListPods P (inNamespace (ns_name namespace)
                      (LabelSet [serviceName (Selectors h) \<mapsto> dep_name deployment]))) (\<lambda>r.
             case r of
               Inl err \<Rightarrow> ret (Break idle)
             | Inr pods \<Rightarrow>
               andThen (gets (\<lambda>s. clock P (world s))) (\<lambda>now.
                 ret (Continue (anyPodOlder now podIntervalCheck idle pods)))))
      else ret (Continue idle))"

definition nginxQuery :: "string \<Rightarrow> duration \<Rightarrow> string" where
  "nginxQuery ns interval =
     ''round(sum(increase(nginx_ingress_controller_requests{exported_namespace='' @ [CHR 0x22] @ ns
       @ [CHR 0x22] @ '',status=~'' @ [CHR 0x22] @ ''2[0-9x]{2}'' @ [CHR 0x22] @ ''}[''
       @ durationString interval @ ''])) by (status))''"

definition traefikQuery :: "string \<Rightarrow> duration \<Rightarrow> string" where
  "traefikQuery ns interval =
     ''round(sum(increase(traefik_service_requests_total{exported_service=~'' @ [CHR 0x22] @ ns
       @ ''-.*'' @ [CHR 0x22] @ '',code=~'' @ [CHR 0x22] @ ''2[0-9x]{2}'' @ [CHR 0x22] @ ''}[''
       @ durationString interval @ ''])) by (code))''"

text \<open>
  Each sample is printed by the Prometheus library and read back with \<open>Atoi\<close>, its error
  ignored; the sum is a 64-bit \<open>int\<close> that wraps.
\<close>

fun addHits :: "64 word \<Rightarrow> string list \<Rightarrow> 64 word" where
  "addHits numHits [] = numHits"
| "addHits numHits (v # vs) = addHits (numHits + word_of_int (fst (atoi v))) vs"

fun vectorHits :: "64 word \<Rightarrow> prom_value \<Rightarrow> 64 word" where
  "vectorHits numHits (Vector resultVal) = addHits numHits resultVal"
| "vectorHits numHits NonVector = numHits"

text \<open>\<open>None\<close>: a query failed and the function returned.\<close>

definition environmentHits ::
  "'w platform \<Rightarrow> namespace \<Rightarrow> duration \<Rightarrow> ('w st, 64 word option) go" where
  "environmentHits P namespace interval =
     andThen (PromQuery P (nginxQuery (ns_name namespace) interval)) (\<lambda>r1.
       case r1 of
         Inl err \<Rightarrow> ret None
       | Inr (result, warnings) \<Rightarrow>
         andThen (PromQuery P (traefikQuery (ns_name namespace) interval)) (\<lambda>r2.
           case r2 of
             Inl err \<Rightarrow> ret None
           | Inr (result2, warnings2) \<Rightarrow> ret (Some (vectorHits (vectorHits 0 result) result2))))"

section \<open>Patching the ingresses\<close>

definition ingressPatch :: "ingress \<Rightarrow> json" where
  "ingressPatch ingress =
     (let ingressValue = (case ing_annotations ingress ''nginx.ingress.kubernetes.io/custom-http-errors''
                            of Some v \<Rightarrow> v | None \<Rightarrow> '''');
          traefikValue = (case ing_annotations ingress ''traefik.ingress.kubernetes.io/router.middlewares''
                            of Some v \<Rightarrow> v | None \<Rightarrow> '''')
      in JObj [(''metadata'', JObj
           [(''labels'', JObj [(''idling.amazee.io/idled'', JStr ''true'')]),
            (''annotations'', JObj
               [(''nginx.ingress.kubernetes.io/custom-http-errors'',
                 JStr (addStatusCode ingressValue ''503'')),
                (''traefik.ingress.kubernetes.io/router.middlewares'',
                 JStr (addStatusCode traefikValue (traefikMiddleware (ing_namespace ingress))))])])])"

definition idledLabelPatch :: "string \<Rightarrow> json" where
  "idledLabelPatch v =
     JObj [(''metadata'', JObj [(''labels'', JObj [(''idling.amazee.io/idled'', JStr v)])])]"

text \<open>The loop stops at the first ingress that cannot be patched; \<open>patched\<close> and the error.\<close>

definition patchOneIngress ::
  "'w platform \<Rightarrow> idler \<Rightarrow> ingress \<Rightarrow> bool \<times> gerror option \<Rightarrow> ('w st, (bool \<times> gerror option) loop) go" where
  "patchOneIngress P h ingress acc =
     (if \<not> DryRun h then
        andThen (Patch P (refOfIngress ingress) (ingressPatch ingress)) (\<lambda>e.
          case e of
            Some err \<Rightarrow>
              ret (Break (fst acc, Some (GoError (''error patching ingress '' @ ing_name ingress))))
          | None \<Rightarrow> ret (Continue (True, snd acc)))
      else ret (Continue acc))"

definition patchIngress ::
  "'w platform \<Rightarrow> idler \<Rightarrow> namespace \<Rightarrow> ('w st, gerror option) go" where
  "patchIngress P h namespace =
     (if \<not> svc_SkipIngressPatch (service (Selectors h)) then
        andThen (liftO (generateLabelRequirements P (svc_Ingress (service (Selectors h))))) (\<lambda>reqs.
        andThen (ListIngresses P (inNamespace (ns_name namespace) (Requirements reqs))) (\<lambda>r.
          case r of
            Inl err \<Rightarrow> ret (Some (GoError ''error getting ingress''))
          | Inr ingressList \<Rightarrow>
            andThen (forRange (patchOneIngress P h) ingressList (False, None)) (\<lambda>acc.
              case snd acc of
                Some err \<Rightarrow> ret (Some err)
              | None \<Rightarrow>
                if fst acc then
                  andThen (countMetric (\<lambda>m. m\<lparr>serviceIdleEvents := serviceIdleEvents m + 1\<rparr>)) (\<lambda>_.
                  andThen (Patch P (NamespaceRef (ns_name namespace)) (idledLabelPatch ''true'')) (\<lambda>e.
                    case e of
                      Some err \<Rightarrow>
                        ret (Some (GoError (''error patching namespace '' @ ns_name namespace)))
                    | None \<Rightarrow> ret None))
                else ret None)))
      else ret None)"

section \<open>Scaling the deployments to zero\<close>

text \<open>The replicas to come back to: what the deployment has now, or 1 when that is not positive.\<close>

definition idleReplicas :: "int32 \<Rightarrow> int" where
  "idleReplicas replicas = (if sint replicas > 0 then sint replicas else 1)"

definition idlePatch :: "bool \<Rightarrow> bool \<Rightarrow> string \<Rightarrow> int32 \<Rightarrow> json" where
  "idlePatch forceIdle forceScale now replicas =
     JObj
       [(''spec'', JObj [(''replicas'', JNum 0)]),
        (''metadata'', JObj
          [(''labels'', JObj
             ([(''idling.amazee.io/watch'', JStr ''true''),
               (''idling.amazee.io/idled'', JStr ''true'')]
              @ (if forceIdle then [(''idling.amazee.io/force-idled'', JStr ''true'')] else [])
              @ (if forceScale then [(''idling.amazee.io/force-scaled'', JStr ''true'')] else []))),
           (''annotations'', JObj
             [(''idling.amazee.io/idled-at'', JStr now),
              (''idling.amazee.io/unidle-replicas'', JStr (formatInt (idleReplicas replicas)))])])]"

definition idleOneDeployment ::
  "'w platform \<Rightarrow> idler \<Rightarrow> bool \<Rightarrow> bool \<Rightarrow> deployment \<Rightarrow> unit \<Rightarrow> ('w st, unit loop) go" where
  "idleOneDeployment P h forceIdle forceScale deployment acc =
     (if \<not> DryRun h then
        (case dep_replicas deployment of
           None \<Rightarrow> panic ''nil pointer dereference''
         | Some replicas \<Rightarrow>
           andThen (gets (\<lambda>s. clockRFC3339 P (world s))) (\<lambda>now.
           andThen (Patch P (refOfDeployment deployment) (idlePatch forceIdle forceScale now replicas))
             (\<lambda>e. ret (Continue ()))))
      else ret (Continue ()))"

definition idleDeployments ::
  "'w platform \<Rightarrow> idler \<Rightarrow> deployment list \<Rightarrow> bool \<Rightarrow> bool \<Rightarrow> ('w st, unit) go" where
  "idleDeployments P h deployments forceIdle forceScale =
     forRange (idleOneDeployment P h forceIdle forceScale) deployments ()"

section \<open>One environment\<close>

text \<open>The environment is only scaled when its ingresses were patched.\<close>

definition idleEnvironment ::
  "'w platform \<Rightarrow> idler \<Rightarrow> namespace \<Rightarrow> deployment list \<Rightarrow> bool \<Rightarrow> bool \<Rightarrow> ('w st, unit) go" where
  "idleEnvironment P h namespace deployments forceIdle forceScale =
     andThen (patchIngress P h namespace) (\<lambda>err.
       case err of
         Some e \<Rightarrow> ret ()
       | None \<Rightarrow> idleDeployments P h deployments forceIdle forceScale)"

definition KubernetesServiceIdler ::
  "'w platform \<Rightarrow> idler \<Rightarrow> namespace \<Rightarrow> bool \<Rightarrow> bool \<Rightarrow> ('w st, unit) go" where
  "KubernetesServiceIdler P h namespace forceIdle forceScale =
     andThen (liftO (generateLabelRequirements P (svc_Builds (service (Selectors h))))) (\<lambda>buildReqs.
     let listOption = inNamespace (ns_name namespace) (Requirements buildReqs);
         podIntervalCheck =
           intervalOverride (PodCheckInterval h) ''idling.amazee.io/pod-interval'' namespace;
         prometheusInternalCheck =
           intervalOverride (PrometheusCheckInterval h) ''idling.amazee.io/prometheus-interval'' namespace
     in
     andThen (serviceRunningBuild P h listOption) (\<lambda>runningBuild.
     if runningBuild then ret ()
     else
       andThen (liftO (generateLabelRequirements P (svc_Deployments (service (Selectors h))))) (\<lambda>depReqs.
       andThen (ListDeployments P (inNamespace (ns_name namespace) (Requirements depReqs))) (\<lambda>r.
       case r of
         Inl err \<Rightarrow> ret ()
       | Inr deployments \<Rightarrow>
         andThen (forRange (checkDeployment P h namespace podIntervalCheck) deployments False) (\<lambda>idle.
         if idle \<or> forceIdle \<or> forceScale then
           andThen
             (if \<not> svc_SkipHitCheck (service (Selectors h)) \<and> \<not> forceIdle \<and> \<not> forceScale
              then environmentHits P namespace prometheusInternalCheck
              else ret (Some 0)) (\<lambda>hits.
           case hits of
             None \<Rightarrow> ret ()
           | Some numHits \<Rightarrow>
             if numHits \<noteq> 0 then ret ()
             else idleEnvironment P h namespace deployments forceIdle forceScale)
         else ret ())))))"

section \<open>The cron job\<close>

definition serviceNamespace ::
  "'w platform \<Rightarrow> idler \<Rightarrow> namespace \<Rightarrow> unit \<Rightarrow> ('w st, unit loop) go" where
  "serviceNamespace P h namespace acc =
     (case (ns_labels namespace (ProjectIdling (nsLabels (Selectors h))),
            ns_labels namespace (EnvironmentIdling (nsLabels (Selectors h))),
            ns_labels namespace (EnvironmentType (nsLabels (Selectors h)))) of
        (Some projectAutoIdle, Some environmentAutoIdle, Some environmentType) \<Rightarrow>
          if environmentAutoIdle = ''1'' \<and> projectAutoIdle = ''1'' then
            andThen (KubernetesServiceIdler P h namespace False False) (\<lambda>_. ret (Continue ()))
          else ret (Continue ())
      | _ \<Rightarrow> ret (Continue ()))"

definition ServiceIdler :: "'w platform \<Rightarrow> idler \<Rightarrow> ('w st, unit) go" where
  "ServiceIdler P h =
     andThen (liftO (generateLabelRequirements P (svc_Namespace (service (Selectors h))))) (\<lambda>reqs.
     andThen (ListNamespaces P \<lparr>lo_namespace = None, lo_selector = Some (Requirements reqs)\<rparr>) (\<lambda>r.
       case r of
         Inl err \<Rightarrow> ret ()
       | Inr namespaces \<Rightarrow> forRange (serviceNamespace P h) namespaces ()))"

end
