(* ===== verification/ServiceIdlerProps.thy ===== *)
theory ServiceIdlerProps
  imports ServiceIdler
begin

text \<open>
  What the service idler guarantees: when it refrains from acting (running builds,
  traffic, dry run), what it may send and in which order, and the exact patches it sends.
\<close>

section \<open>Decision and action\<close>

text \<open>
  \<open>KubernetesServiceIdler\<close> is a decision, which only reads, followed by the action on the
  deployments the decision returned.
\<close>

definition serviceDecision ::
  "'w platform \<Rightarrow> idler \<Rightarrow> namespace \<Rightarrow> bool \<Rightarrow> bool \<Rightarrow> ('w st, deployment list option) go" where
  "serviceDecision P h namespace forceIdle forceScale =
     andThen (liftO (generateLabelRequirements P (svc_Builds (service (Selectors h))))) (\<lambda>buildReqs.
     andThen (serviceRunningBuild P h (inNamespace (ns_name namespace) (Requirements buildReqs)))
       (\<lambda>runningBuild.
     if runningBuild then ret None
     else
       andThen (liftO (generateLabelRequirements P (svc_Deployments (service (Selectors h))))) (\<lambda>depReqs.
       andThen (ListDeployments P (inNamespace (ns_name namespace) (Requirements depReqs))) (\<lambda>r.
       case r of
         Inl err \<Rightarrow> ret None
       | Inr deployments \<Rightarrow>
         andThen (forRange (checkDeployment P h namespace
             (intervalOverride (PodCheckInterval h) ''idling.amazee.io/pod-interval'' namespace))
             deployments False) (\<lambda>idle.
         if idle \<or> forceIdle \<or> forceScale then
           andThen
             (if \<not> svc_SkipHitCheck (service (Selectors h)) \<and> \<not> forceIdle \<and> \<not> forceScale
              then environmentHits P namespace
                (intervalOverride (PrometheusCheckInterval h) ''idling.amazee.io/prometheus-interval''
                  namespace)
              else ret (Some 0)) (\<lambda>hits.
           case hits of
             None \<Rightarrow> ret None
           | Some numHits \<Rightarrow> if numHits \<noteq> 0 then ret None else ret (Some deployments))
         else ret None)))))"

definition serviceAction ::
  "'w platform \<Rightarrow> idler \<Rightarrow> namespace \<Rightarrow> bool \<Rightarrow> bool \<Rightarrow> deployment list option \<Rightarrow> ('w st, unit) go" where
  "serviceAction P h namespace forceIdle forceScale d =
     (case d of
        None \<Rightarrow> ret ()
      | Some deployments \<Rightarrow>
        andThen (patchIngress P h namespace) (\<lambda>err.
          case err of
            Some e \<Rightarrow> ret ()
          | None \<Rightarrow> idleDeployments P h deployments forceIdle forceScale))"

lemma KubernetesServiceIdler_split:
  "KubernetesServiceIdler P h namespace forceIdle forceScale =
     andThen (serviceDecision P h namespace forceIdle forceScale)
       (serviceAction P h namespace forceIdle forceScale)"
  unfolding KubernetesServiceIdler_def idleEnvironment_def serviceDecision_def Let_def
  by (simp add: andThen_push serviceAction_def cong: branch_congs)

section \<open>Requests\<close>

text \<open>The requests of the read-only part: lists in the namespace, and Prometheus queries.\<close>

fun readIn :: "string \<Rightarrow> call \<Rightarrow> bool" where
  "readIn ns (CList k opts) = (lo_namespace opts = Some ns)"
| "readIn ns (CProm q) = True"
| "readIn ns _ = False"

lemma emits_serviceRunningBuild:
  "Q (CList KPod opts) \<Longrightarrow> emits Q (serviceRunningBuild P h opts)"
  unfolding serviceRunningBuild_def by (intro emits_rules)

lemma emits_checkDeployment:
  assumes "\<And>sel. Q (CList KPod (inNamespace (ns_name namespace) sel))"
  shows "emits Q (checkDeployment P h namespace iv d idle)"
  unfolding checkDeployment_def by (intro emits_rules assms)

lemma emits_environmentHits:
  assumes "\<And>q. Q (CProm q)"
  shows "emits Q (environmentHits P namespace iv)"
  unfolding environmentHits_def by (intro emits_rules assms)

lemma emits_serviceDecision:
  assumes "\<And>k sel. Q (CList k (inNamespace (ns_name namespace) sel))"
    and "\<And>q. \<not> forceIdle \<Longrightarrow> \<not> forceScale \<Longrightarrow> \<not> svc_SkipHitCheck (service (Selectors h)) \<Longrightarrow> Q (CProm q)"
  shows "emits Q (serviceDecision P h namespace forceIdle forceScale)"
  unfolding serviceDecision_def
  by (intro emits_rules emits_serviceRunningBuild emits_checkDeployment emits_environmentHits assms)
    (auto intro: assms)

lemma emits_patchIngress:
  assumes "\<And>sel. Q (CList KIngress (inNamespace (ns_name namespace) sel))"
    and "\<And>i. \<not> DryRun h \<Longrightarrow> Q (CPatch (refOfIngress i) (ingressPatch i))"
    and "\<not> DryRun h \<Longrightarrow> Q (CPatch (NamespaceRef (ns_name namespace)) (idledLabelPatch ''true''))"
  shows "emits Q (patchIngress P h namespace)"
proof (cases "DryRun h")
  case False
  then show ?thesis
    unfolding patchIngress_def patchOneIngress_def by (intro emits_rules assms)
next
  case True
  have none: "forRange (patchOneIngress P h) is (False, None) = ret (False, None)" for "is"
    by (induction "is") (simp_all add: patchOneIngress_def True)
  show ?thesis
    unfolding patchIngress_def none
    by (simp cong: branch_congs split del: if_split) (intro emits_rules assms)
qed

lemma emits_idleDeployments:
  assumes "\<And>d now r. \<not> DryRun h \<Longrightarrow> Q (CPatch (refOfDeployment d) (idlePatch forceIdle forceScale now r))"
  shows "emits Q (idleDeployments P h ds forceIdle forceScale)"
  unfolding idleDeployments_def idleOneDeployment_def by (intro emits_rules assms)

lemma emits_serviceAction:
  assumes "\<And>sel. Q (CList KIngress (inNamespace (ns_name namespace) sel))"
    and "\<And>r p. \<not> DryRun h \<Longrightarrow> Q (CPatch r p)"
  shows "emits Q (serviceAction P h namespace forceIdle forceScale d)"
  unfolding serviceAction_def
  by (intro emits_rules emits_patchIngress emits_idleDeployments assms)

lemma emits_KubernetesServiceIdler:
  assumes "\<And>k sel. Q (CList k (inNamespace (ns_name namespace) sel))"
    and "\<And>q. \<not> forceIdle \<Longrightarrow> \<not> forceScale \<Longrightarrow> \<not> svc_SkipHitCheck (service (Selectors h)) \<Longrightarrow> Q (CProm q)"
    and "\<And>r p. \<not> DryRun h \<Longrightarrow> Q (CPatch r p)"
  shows "emits Q (KubernetesServiceIdler P h namespace forceIdle forceScale)"
  unfolding KubernetesServiceIdler_split
  by (intro emits_rules emits_serviceDecision emits_serviceAction assms)

lemma emits_ServiceIdler:
  assumes "\<And>k opts. Q (CList k opts)"
    and "\<And>q. \<not> svc_SkipHitCheck (service (Selectors h)) \<Longrightarrow> Q (CProm q)"
    and "\<And>r p. \<not> DryRun h \<Longrightarrow> Q (CPatch r p)"
  shows "emits Q (ServiceIdler P h)"
proof -
  have ns: "emits Q (serviceNamespace P h n acc)" for n acc
    unfolding serviceNamespace_def
    by (intro emits_rules emits_KubernetesServiceIdler assms)
  show ?thesis
    unfolding ServiceIdler_def by (intro emits_rules ns assms)
qed

text \<open>The order of the patches: everything before the first deployment patch is not one.\<close>

fun isDeploymentPatch :: "call \<Rightarrow> bool" where
  "isDeploymentPatch (CPatch (DeploymentRef _ _) _) = True"
| "isDeploymentPatch _ = False"

section \<open>When nothing is done\<close>

lemma activeBuild_iff:
  "activeBuild bs \<longleftrightarrow> (\<exists>b \<in> set bs. pod_phase b = ''Running'' \<or> pod_phase b = ''Pending'')"
  by (induction bs) auto

lemma build_blocks:
  assumes "\<forall>sl \<in> set (svc_Builds (service (Selectors h))). selectorOk P sl"
    and "\<not> svc_SkipBuildCheck (service (Selectors h))"
    and "opts = inNamespace (ns_name namespace)
                  (Requirements (map requirementOf (svc_Builds (service (Selectors h)))))"
    and "listPods P opts (world s) = (Inr builds, w)"
    and "b \<in> set builds" and "pod_phase b = ''Running'' \<or> pod_phase b = ''Pending''"
  shows "KubernetesServiceIdler P h namespace forceIdle forceScale s
           = (Ok (), s\<lparr>world := w, calls := calls s @ [CList KPod opts]\<rparr>)"
proof -
  have g: "generateLabelRequirements P (svc_Builds (service (Selectors h)))
             = Ok (map requirementOf (svc_Builds (service (Selectors h))))"
    using assms(1) by (simp add: generateLabelRequirements_def appendRequirements_eq)
  have "activeBuild builds" using assms(5,6) by (auto simp: activeBuild_iff)
  then have "serviceRunningBuild P h opts s
               = (Ok True, s\<lparr>world := w, calls := calls s @ [CList KPod opts]\<rparr>)"
    using assms(2,4)
    by (simp add: serviceRunningBuild_def andThen_def ListPods_def request_eval ret_def)
  then show ?thesis
    by (simp add: KubernetesServiceIdler_def g Let_def assms(3) [symmetric] andThen_Ok ret_def)
qed

text \<open>
  C11. With a running or pending build in the namespace the idler only lists the builds: it
  returns without patching anything, forced or not.
\<close>

theorem running_build_blocks_idling:
  assumes "\<forall>sl \<in> set (svc_Builds (service (Selectors h))). selectorOk P sl"
    and "\<not> svc_SkipBuildCheck (service (Selectors h))"
    and "opts = inNamespace (ns_name namespace)
                  (Requirements (map requirementOf (svc_Builds (service (Selectors h)))))"
    and "listPods P opts (world s) = (Inr builds, w)"
    and "b \<in> set builds" and "pod_phase b = ''Running'' \<or> pod_phase b = ''Pending''"
  shows "KubernetesServiceIdler P h namespace forceIdle forceScale s
           = (Ok (), s\<lparr>world := w, calls := calls s @ [CList KPod opts]\<rparr>)"
  using assms by (rule build_blocks)

text \<open>
  A dry run never patches anything: neither one environment, forced or not, nor the
  cron job over all of them sends a single patch.
\<close>

theorem dry_run_never_patches:
  assumes "DryRun h"
  shows "(\<exists>new. calls (snd (KubernetesServiceIdler P h namespace forceIdle forceScale s)) = calls s @ new
               \<and> \<not> list_ex isPatch new)
       \<and> (\<exists>new. calls (snd (ServiceIdler P h s)) = calls s @ new \<and> \<not> list_ex isPatch new)"
proof
  have "emits (\<lambda>c. \<not> isPatch c) (KubernetesServiceIdler P h namespace forceIdle forceScale)"
    by (rule emits_KubernetesServiceIdler) (simp_all add: assms)
  from stepsD [OF this, of s]
  show "\<exists>new. calls (snd (KubernetesServiceIdler P h namespace forceIdle forceScale s)) = calls s @ new
               \<and> \<not> list_ex isPatch new"
    by (auto simp: emitsRel_def list_ex_iff)
  have "emits (\<lambda>c. \<not> isPatch c) (ServiceIdler P h)"
    by (rule emits_ServiceIdler) (simp_all add: assms)
  from stepsD [OF this, of s]
  show "\<exists>new. calls (snd (ServiceIdler P h s)) = calls s @ new \<and> \<not> list_ex isPatch new"
    by (auto simp: emitsRel_def list_ex_iff)
qed

text \<open>A forced run never asks Prometheus: force-idling and force-scaling bypass the hit check.\<close>

theorem forced_skips_hit_check:
  assumes "forceIdle \<or> forceScale"
  shows "\<exists>new. calls (snd (KubernetesServiceIdler P h namespace forceIdle forceScale s)) = calls s @ new
               \<and> \<not> list_ex isProm new"
proof -
  have "emits (\<lambda>c. \<not> isProm c) (KubernetesServiceIdler P h namespace forceIdle forceScale)"
    using assms by (intro emits_KubernetesServiceIdler) auto
  from stepsD [OF this, of s] show ?thesis
    by (auto simp: emitsRel_def list_ex_iff)
qed

section \<open>Ingresses before deployments\<close>

text \<open>
  C12. Deployments are scaled last, and only after every ingress was patched: the requests
  of a run are a part without deployment patches, during which \<open>patchIngress\<close> returned, and
  the deployment patches; when \<open>patchIngress\<close> fails there are none.
\<close>

theorem ingresses_before_deployments:
  "\<exists>pre post. calls (snd (KubernetesServiceIdler P h namespace forceIdle forceScale s)) = calls s @ pre @ post
     \<and> \<not> list_ex isDeploymentPatch pre \<and> list_all isDeploymentPatch post
     \<and> (post = [] \<or> (\<exists>t. fst (patchIngress P h namespace t) = Ok None
                          \<and> calls (snd (patchIngress P h namespace t)) = calls s @ pre))"
proof -
  let ?D = "serviceDecision P h namespace forceIdle forceScale"
  let ?R = "snd (KubernetesServiceIdler P h namespace forceIdle forceScale s)"
  have dec: "emits (\<lambda>c. \<not> isDeploymentPatch c) ?D"
    by (rule emits_serviceDecision) simp_all
  have ing: "emits (\<lambda>c. \<not> isDeploymentPatch c) (patchIngress P h namespace)"
    by (rule emits_patchIngress) simp_all
  obtain d t where D: "?D s = (d, t)" by fastforce
  obtain pre where pre: "calls t = calls s @ pre" "\<forall>c \<in> set pre. \<not> isDeploymentPatch c"
    using emitsD [OF dec, of s] D by auto
  show ?thesis
  proof (cases "\<exists>ds. d = Ok (Some ds)")
    case False
    then have "?R = t"
      using D by (cases d) (auto simp: KubernetesServiceIdler_split andThen_def serviceAction_def ret_def
        split: option.splits)
    with pre show ?thesis by (intro exI [of _ pre] exI [of _ "[]"]) (auto simp: list_ex_iff)
  next
    case True
    then obtain ds where d: "d = Ok (Some ds)" by blast
    obtain r u where I: "patchIngress P h namespace t = (r, u)" by fastforce
    obtain mid where mid: "calls u = calls t @ mid" "\<forall>c \<in> set mid. \<not> isDeploymentPatch c"
      using emitsD [OF ing, of t] I by auto
    have R: "?R = (if r = Ok None then snd (idleDeployments P h ds forceIdle forceScale u) else u)"
      using D d I by (cases r) (auto simp: KubernetesServiceIdler_split andThen_def serviceAction_def
        ret_def split: option.splits)
    have "emits isDeploymentPatch (idleDeployments P h ds forceIdle forceScale)"
      by (rule emits_idleDeployments) simp
    then obtain post where post: "calls (snd (idleDeployments P h ds forceIdle forceScale u)) = calls u @ post"
      "\<forall>c \<in> set post. isDeploymentPatch c"
      by (rule emitsD)
    show ?thesis
    proof (cases "r = Ok None")
      case True
      then have "calls ?R = calls s @ (pre @ mid) @ post" using R pre mid post by simp
      moreover have "fst (patchIngress P h namespace t) = Ok None"
        "calls (snd (patchIngress P h namespace t)) = calls s @ pre @ mid"
        using I True pre mid by simp_all
      moreover have "\<not> list_ex isDeploymentPatch (pre @ mid)" "list_all isDeploymentPatch post"
        using pre mid post by (auto simp: list_ex_iff list_all_iff)
      ultimately show ?thesis by (metis append_assoc)
    next
      case False
      then have "calls ?R = calls s @ (pre @ mid) @ []" using R pre mid by simp
      moreover have "\<not> list_ex isDeploymentPatch (pre @ mid)"
        using pre mid by (auto simp: list_ex_iff)
      ultimately show ?thesis by (intro exI [of _ "pre @ mid"] exI [of _ "[]"]) simp
    qed
  qed
qed

section \<open>The hit check\<close>

lemma environmentHits_Some:
  assumes "environmentHits P namespace i u = (Ok (Some n), t)"
  shows "\<exists>v1 warn1 w1 v2 warn2 w2.
     promQuery P (nginxQuery (ns_name namespace) i) (world u) = (Inr (v1, warn1), w1)
     \<and> promQuery P (traefikQuery (ns_name namespace) i) w1 = (Inr (v2, warn2), w2)
     \<and> n = vectorHits (vectorHits 0 v1) v2
     \<and> calls t = calls u @ [CProm (nginxQuery (ns_name namespace) i),
                              CProm (traefikQuery (ns_name namespace) i)]"
  using assms
  by (fastforce simp: environmentHits_def PromQuery_def request_def ret_def
      elim!: andThen_OkE split: sum.splits prod.splits)

text \<open>What the decision did before it let an unforced environment be idled.\<close>

definition unpatchedSince :: "'w st \<Rightarrow> 'w st \<Rightarrow> bool" where
  "unpatchedSince s u \<longleftrightarrow> (\<exists>pre. calls u = calls s @ pre \<and> \<not> list_ex isPatch pre)"

lemma results_emits:
  assumes "emits (\<lambda>c. \<not> isPatch c) m"
  shows "results (unpatchedSince s) m (\<lambda>_. unpatchedSince s)"
proof (rule resultsI)
  fix u x t
  assume "unpatchedSince s u" and "m u = (Ok x, t)"
  moreover from emitsD [OF assms, of u] obtain new
    where "calls (snd (m u)) = calls u @ new" "\<forall>c \<in> set new. \<not> isPatch c" .
  ultimately show "unpatchedSince s t"
    by (fastforce simp: unpatchedSince_def list_ex_iff)
qed

lemma results_emits_seq:
  "emits (\<lambda>c. \<not> isPatch c) m \<Longrightarrow> (\<And>x. results (unpatchedSince s) (f x) Q)
    \<Longrightarrow> results (unpatchedSince s) (andThen m f) Q"
  by (rule results_andThen [OF results_emits])

lemma serviceDecision_Some:
  assumes "\<not> svc_SkipHitCheck (service (Selectors h))"
  shows "results (unpatchedSince s) (serviceDecision P h namespace False False)
     (\<lambda>d t. d \<noteq> None \<longrightarrow> (\<exists>u. unpatchedSince s u
        \<and> environmentHits P namespace (intervalOverride (PrometheusCheckInterval h)
             ''idling.amazee.io/prometheus-interval'' namespace) u = (Ok (Some 0), t)))"
proof -
  have hits: "results (unpatchedSince s) (environmentHits P namespace iv)
     (\<lambda>n t. \<exists>u. unpatchedSince s u \<and> environmentHits P namespace iv u = (Ok n, t))" for iv
    by (auto intro: resultsI)
  have cond: "(if \<not> svc_SkipHitCheck (service (Selectors h)) \<and> \<not> False \<and> \<not> False then m else n) = m"
    for m n :: "('a st, 64 word option) go"
    using assms by simp
  show ?thesis
    unfolding serviceDecision_def cond
    by (intro results_emits_seq results_if results_sum emits_rules emits_serviceRunningBuild
          emits_checkDeployment results_ret results_andThen [OF hits] results_option) auto
qed

text \<open>
  C10. An environment that is not forced is patched only after both Prometheus queries, one
  after the other, were answered and the hits they report sum to zero.
\<close>

theorem patches_need_zero_hits:
  assumes "\<not> svc_SkipHitCheck (service (Selectors h))"
    and "calls (snd (KubernetesServiceIdler P h namespace False False s)) = calls s @ new"
    and "list_ex isPatch new"
  shows "\<exists>w v1 warn1 w1 v2 warn2 w2 pre post.
     (let i = intervalOverride (PrometheusCheckInterval h) ''idling.amazee.io/prometheus-interval'' namespace;
          q1 = nginxQuery (ns_name namespace) i; q2 = traefikQuery (ns_name namespace) i
      in promQuery P q1 w = (Inr (v1, warn1), w1) \<and> promQuery P q2 w1 = (Inr (v2, warn2), w2)
         \<and> vectorHits (vectorHits 0 v1) v2 = 0
         \<and> new = pre @ [CProm q1, CProm q2] @ post \<and> \<not> list_ex isPatch pre)"
proof -
  let ?D = "serviceDecision P h namespace False False"
  obtain d t where D: "?D s = (d, t)" by fastforce
  have dec: "emits (\<lambda>c. \<not> isPatch c) ?D" by (rule emits_serviceDecision) simp_all
  have "\<exists>ds. d = Ok (Some ds)"
  proof (rule ccontr)
    assume "\<nexists>ds. d = Ok (Some ds)"
    then have "snd (KubernetesServiceIdler P h namespace False False s) = t"
      using D by (cases d) (auto simp: KubernetesServiceIdler_split andThen_def serviceAction_def ret_def
        split: option.splits)
    with emitsD [OF dec, of s] D assms(2,3) show False by (auto simp: list_ex_iff)
  qed
  then obtain ds where d: "d = Ok (Some ds)" by blast
  have "unpatchedSince s s" by (simp add: unpatchedSince_def)
  with D d obtain u where u: "unpatchedSince s u"
    and hits: "environmentHits P namespace (intervalOverride (PrometheusCheckInterval h)
          ''idling.amazee.io/prometheus-interval'' namespace) u = (Ok (Some 0), t)"
    using resultsD [OF serviceDecision_Some [OF assms(1)]] by blast
  have "emits (\<lambda>c. True) (serviceAction P h namespace False False (Some ds))"
    by (rule emits_serviceAction) simp_all
  then obtain post where "calls (snd (serviceAction P h namespace False False (Some ds) t)) = calls t @ post"
    by (rule emitsD)
  then have "calls (snd (KubernetesServiceIdler P h namespace False False s)) = calls t @ post"
    using D d by (simp add: KubernetesServiceIdler_split andThen_Ok)
  then show ?thesis
    using environmentHits_Some [OF hits] u assms(2)
    by (fastforce simp: Let_def unpatchedSince_def)
qed

section \<open>The exact patches\<close>

text \<open>
  Outside a dry run, scaling a list of deployments (none with a nil replica count)
  returns normally and sends exactly one patch per deployment, in order, whether or not
  earlier ones failed; each patch sets the replicas to 0, the watch and idled labels (and
  the force label of a forced run) and records the current positive replica count, or 1.
\<close>

theorem idleDeployments_patches:
  assumes "\<not> DryRun h" and "\<forall>d \<in> set ds. dep_replicas d \<noteq> None"
  shows "fst (idleDeployments P h ds forceIdle forceScale s) = Ok ()
     \<and> (\<exists>new. calls (snd (idleDeployments P h ds forceIdle forceScale s)) = calls s @ new
          \<and> list_all2 (\<lambda>d c. \<exists>now. c = CPatch (refOfDeployment d)
                 (idlePatch forceIdle forceScale now (the (dep_replicas d)))) ds new)"
  using assms(2)
proof (induction ds arbitrary: s)
  case Nil
  then show ?case by (simp add: idleDeployments_def ret_def)
next
  case (Cons d ds)
  then obtain r where r: "dep_replicas d = Some r" by auto
  define p where "p = idlePatch forceIdle forceScale (clockRFC3339 P (world s)) r"
  define s1 where "s1 = s\<lparr>world := snd (sendPatch P (refOfDeployment d) p (world s)),
                          calls := calls s @ [CPatch (refOfDeployment d) p]\<rparr>"
  have "idleOneDeployment P h forceIdle forceScale d () s = (Ok (Continue ()), s1)"
    using assms(1)
    by (simp add: idleOneDeployment_def r andThen_def Patch_def request_eval ret_def p_def s1_def)
  then have step: "idleDeployments P h (d # ds) forceIdle forceScale s
                     = idleDeployments P h ds forceIdle forceScale s1"
    by (simp add: idleDeployments_def andThen_Ok)
  from Cons.prems have "\<forall>d \<in> set ds. dep_replicas d \<noteq> None" by simp
  from Cons.IH [OF this, of s1] obtain new where
    ok: "fst (idleDeployments P h ds forceIdle forceScale s1) = Ok ()"
    and new: "calls (snd (idleDeployments P h ds forceIdle forceScale s1)) = calls s1 @ new"
    and all: "list_all2 (\<lambda>d c. \<exists>now. c = CPatch (refOfDeployment d)
                 (idlePatch forceIdle forceScale now (the (dep_replicas d)))) ds new"
    by blast
  have "calls s1 @ new = calls s @ (CPatch (refOfDeployment d) p # new)" by (simp add: s1_def)
  then show ?case
    using ok new all r by (auto simp: step p_def list_all2_Cons1)
qed

lemma patchOneIngress_eval:
  "\<not> DryRun h \<Longrightarrow> patchOneIngress P h i acc s =
     (Ok (case fst (sendPatch P (refOfIngress i) (ingressPatch i) (world s)) of
            Some err \<Rightarrow> Break (fst acc, Some (GoError (''error patching ingress '' @ ing_name i)))
          | None \<Rightarrow> Continue (True, snd acc)),
      s\<lparr>world := snd (sendPatch P (refOfIngress i) (ingressPatch i) (world s)),
        calls := calls s @ [CPatch (refOfIngress i) (ingressPatch i)]\<rparr>)"
  by (simp add: patchOneIngress_def andThen_def Patch_def request_eval ret_def split: option.split)

lemma patchOneIngress_loop:
  assumes "\<not> DryRun h"
    and "forRange (patchOneIngress P h) is (b, None) s = (Ok (p, None), t)"
  shows "calls t = calls s @ map (\<lambda>i. CPatch (refOfIngress i) (ingressPatch i)) is
         \<and> (p \<longleftrightarrow> b \<or> is \<noteq> [])"
  using assms(2)
proof (induction "is" arbitrary: b s)
  case Nil
  then show ?case by (auto simp: ret_def)
next
  case (Cons i "is")
  let ?ref = "refOfIngress i" and ?p = "ingressPatch i"
  define s1 where "s1 = s\<lparr>world := snd (sendPatch P ?ref ?p (world s)), calls := calls s @ [CPatch ?ref ?p]\<rparr>"
  from Cons.prems patchOneIngress_eval [OF assms(1), of P i "(b, None)" s]
  have "forRange (patchOneIngress P h) is (True, None) s1 = (Ok (p, None), t)"
    by (auto simp: andThen_Ok ret_def s1_def split: option.splits)
  from Cons.IH [OF this] show ?case by (simp add: s1_def)
qed

definition ingressEpilogue :: "'w platform \<Rightarrow> namespace \<Rightarrow> bool \<Rightarrow> ('w st, gerror option) go" where
  "ingressEpilogue P namespace patched =
     (if patched then
        andThen (countMetric (\<lambda>m. m\<lparr>serviceIdleEvents := serviceIdleEvents m + 1\<rparr>)) (\<lambda>_.
        andThen (Patch P (NamespaceRef (ns_name namespace)) (idledLabelPatch ''true'')) (\<lambda>e.
          case e of
            Some err \<Rightarrow> ret (Some (GoError (''error patching namespace '' @ ns_name namespace)))
          | None \<Rightarrow> ret None))
      else ret None)"

lemma patchIngress_eq:
  "patchIngress P h namespace =
     (if \<not> svc_SkipIngressPatch (service (Selectors h)) then
        andThen (liftO (generateLabelRequirements P (svc_Ingress (service (Selectors h))))) (\<lambda>reqs.
        andThen (ListIngresses P (inNamespace (ns_name namespace) (Requirements reqs))) (\<lambda>r.
          case r of
            Inl err \<Rightarrow> ret (Some (GoError ''error getting ingress''))
          | Inr ingressList \<Rightarrow>
            andThen (forRange (patchOneIngress P h) ingressList (False, None)) (\<lambda>acc.
              case snd acc of
                Some err \<Rightarrow> ret (Some err)
              | None \<Rightarrow> ingressEpilogue P namespace (fst acc))))
      else ret None)"
  unfolding patchIngress_def ingressEpilogue_def ..

text \<open>A successful \<open>patchIngress\<close> in its three parts: the list, the loop, the namespace.\<close>

lemma patchIngress_parts:
  assumes "\<not> svc_SkipIngressPatch (service (Selectors h))" and "patchIngress P h namespace s = (Ok None, t)"
  obtains reqs ings u p v where
    "generateLabelRequirements P (svc_Ingress (service (Selectors h))) = Ok reqs"
    and "ListIngresses P (inNamespace (ns_name namespace) (Requirements reqs)) s = (Ok (Inr ings), u)"
    and "forRange (patchOneIngress P h) ings (False, None) u = (Ok (p, None), v)"
    and "ingressEpilogue P namespace p v = (Ok None, t)"
proof -
  let ?cont = "\<lambda>r. case r of
            Inl err \<Rightarrow> ret (Some (GoError ''error getting ingress''))
          | Inr ingressList \<Rightarrow>
            andThen (forRange (patchOneIngress P h) ingressList (False, None)) (\<lambda>acc.
              case snd acc of
                Some err \<Rightarrow> ret (Some err)
              | None \<Rightarrow> ingressEpilogue P namespace (fst acc))"
  have "andThen (liftO (generateLabelRequirements P (svc_Ingress (service (Selectors h))))) (\<lambda>reqs.
      andThen (ListIngresses P (inNamespace (ns_name namespace) (Requirements reqs))) ?cont) s = (Ok None, t)"
    using assms by (simp only: patchIngress_eq if_True not_False_eq_True)
  then obtain reqs s0 where g0: "liftO (generateLabelRequirements P (svc_Ingress (service (Selectors h)))) s
      = (Ok reqs, s0)"
    and "andThen (ListIngresses P (inNamespace (ns_name namespace) (Requirements reqs))) ?cont s0 = (Ok None, t)"
    by (rule andThen_OkE)
  from this(2) obtain r u where l0: "ListIngresses P (inNamespace (ns_name namespace) (Requirements reqs)) s0 = (Ok r, u)"
    and k: "?cont r u = (Ok None, t)"
    by (rule andThen_OkE)
  from liftO_OkD [OF g0] have g: "generateLabelRequirements P (svc_Ingress (service (Selectors h))) = Ok reqs"
    and l: "ListIngresses P (inNamespace (ns_name namespace) (Requirements reqs)) s = (Ok r, u)"
    using l0 by auto
  from k obtain ings where r: "r = Inr ings" by (cases r) (auto simp: ret_def)
  with k obtain p e v where loop: "forRange (patchOneIngress P h) ings (False, None) u = (Ok (p, e), v)"
    by (auto elim!: andThen_OkE)
  from k r loop have "e = None" by (auto simp: andThen_Ok ret_def split: option.splits)
  with k r loop have "ingressEpilogue P namespace p v = (Ok None, t)" by (simp add: andThen_Ok)
  with g l r loop \<open>e = None\<close> show thesis by (intro that) simp_all
qed

text \<open>
  When \<open>patchIngress\<close> reports success it has listed the ingresses and patched every
  one of them, in order, with the label and both annotations, and then, if there was any,
  the namespace.
\<close>

theorem patchIngress_success:
  assumes "\<not> DryRun h" and "\<not> svc_SkipIngressPatch (service (Selectors h))"
    and "patchIngress P h namespace s = (Ok None, t)"
  shows "\<exists>opts ings w. listIngresses P opts (world s) = (Inr ings, w)
     \<and> lo_namespace opts = Some (ns_name namespace)
     \<and> calls t = calls s @ [CList KIngress opts]
          @ map (\<lambda>i. CPatch (refOfIngress i) (ingressPatch i)) ings
          @ (if ings = [] then []
             else [CPatch (NamespaceRef (ns_name namespace)) (idledLabelPatch ''true'')])"
proof -
  obtain reqs ings u p v where "generateLabelRequirements P (svc_Ingress (service (Selectors h))) = Ok reqs"
    and l: "ListIngresses P (inNamespace (ns_name namespace) (Requirements reqs)) s
        = (Ok (Inr ings), u)"
    and loop: "forRange (patchOneIngress P h) ings (False, None) u = (Ok (p, None), v)"
    and e: "ingressEpilogue P namespace p v = (Ok None, t)"
    by (rule patchIngress_parts [OF assms(2,3)])
  have v: "calls v = calls u @ map (\<lambda>i. CPatch (refOfIngress i) (ingressPatch i)) ings \<and> (p \<longleftrightarrow> ings \<noteq> [])"
    using patchOneIngress_loop [OF assms(1) loop] by simp
  from e v have "calls t = calls v @ (if ings = [] then []
             else [CPatch (NamespaceRef (ns_name namespace)) (idledLabelPatch ''true'')])"
    by (auto simp: ingressEpilogue_def andThen_def countMetric_def Patch_def request_eval ret_def
        split: option.splits if_splits)
  with l v show ?thesis
    by (intro exI [of _ "inNamespace (ns_name namespace) (Requirements reqs)"] exI [of _ ings])
      (auto simp: ListIngresses_def request_def split: prod.splits)
qed

section \<open>The age of the pods\<close>

lemma anyPodOlder_iff:
  "anyPodOlder now iv idle pods \<longleftrightarrow>
     idle \<or> (\<exists>p \<in> set pods. \<exists>t. pod_startTime p = Some t \<and> timeSince now t > iv)"
  by (induction pods arbitrary: idle) (auto simp: Let_def split: option.split)

text \<open>
  C36. A deployment counts towards idling as soon as one of its pods started longer ago than
  the interval, and the check runs for every deployment with a replica count: a
  deployment that is already at zero replicas is not recognised as idled (the code
  compares the pointer, not the number) and its pods are listed all the same.
\<close>

theorem checkDeployment_ignores_replicas:
  assumes "dep_replicas d = Some r"
    and "opts = inNamespace (ns_name namespace) (LabelSet [serviceName (Selectors h) \<mapsto> dep_name d])"
    and "listPods P opts (world s) = (Inr pods, w)"
  shows "checkDeployment P h namespace iv d idle s =
     (Ok (Continue (idle \<or> (\<exists>p \<in> set pods. \<exists>t. pod_startTime p = Some t \<and> timeSince (clock P w) t > iv))),
      s\<lparr>world := w, calls := calls s @ [CList KPod opts]\<rparr>)"
  using assms(1,3)
  by (simp add: checkDeployment_def differsFromFresh_def assms(2) [symmetric] andThen_def ListPods_def
      request_eval ret_def anyPodOlder_iff)

end
