(* ===== verification/CliIdler.thy ===== *)
theory CliIdler
  imports IdlerConfig GoStrings
begin

text \<open>
  The CLI idler: \<open>kubernetesCLI\<close> of idler/cli-kubernetes.go and the cron entry point
  \<open>CLIIdler\<close> of idler/cli.go.  A CLI deployment without cron jobs is scaled to zero when a
  pod of the environment shows no user process.
\<close>

section \<open>Builds and cron jobs\<close>

fun runningBuildCLI :: "pod list \<Rightarrow> bool" where
  "runningBuildCLI [] = False"
| "runningBuildCLI (build # builds) =
     (if pod_phase build = ''Running'' then True else runningBuildCLI builds)"

definition cliRunningBuild ::
  "'w platform \<Rightarrow> idler \<Rightarrow> list_options \<Rightarrow> ('w st, bool) go" where
  "cliRunningBuild P h listOption =
     (if \<not> cli_SkipBuildCheck (cli (Selectors h)) then
        andThen (ListPods P listOption) (\<lambda>r.
          case r of Inl err \<Rightarrow> ret False | Inr builds \<Rightarrow> ret (runningBuildCLI builds))
      else ret False)"

text \<open>The inner loop stops at the first \<open>CRONJOBS\<close> variable that is not empty.\<close>

fun envHasCrons :: "bool \<Rightarrow> envVar list \<Rightarrow> bool" where
  "envHasCrons hasCrons [] = hasCrons"
| "envHasCrons hasCrons (e # envs) =
     (if env_name e = ''CRONJOBS'' then
        (if length (env_value e) > 0 then True else envHasCrons hasCrons envs)
      else envHasCrons hasCrons envs)"

fun containersHaveCrons :: "bool \<Rightarrow> container list \<Rightarrow> bool" where
  "containersHaveCrons hasCrons [] = hasCrons"
| "containersHaveCrons hasCrons (c # cs) = containersHaveCrons (envHasCrons hasCrons (con_env c)) cs"

section \<open>Counting processes\<close>

definition processCommand :: "string list" where
  "processCommand = [''/bin/sh'', ''-c'', ''pgrep -P 0|tail -n +3|wc -l|tr -d '' @ [CHR 0x27, CHR 0x20, CHR 0x27]]"

text \<open>
  \<open>trimmed[len(trimmed)-1:]\<close> panics on an empty string and is the last byte otherwise; the
  count is 0 unless that byte is a positive digit.
\<close>

definition countProcesses :: "string \<Rightarrow> int outcome" where
  "countProcesses stdout =
     (let trimmed = trimSpace stdout
      in if trimmed = [] then Panic ''slice bounds out of range''
         else case atoi [last trimmed] of
                (pcInt, ok) \<Rightarrow> Ok (if ok \<and> pcInt > 0 then pcInt else 0))"

section \<open>One pod, one deployment\<close>

definition cliScalePatch :: json where
  "cliScalePatch = JObj [(''spec'', JObj [(''replicas'', JNum 0)])]"

definition cliScale :: "'w platform \<Rightarrow> idler \<Rightarrow> deployment \<Rightarrow> ('w st, unit) go" where
  "cliScale P h deployment =
     (if \<not> DryRun h then
        andThen (Patch P (refOfDeployment deployment) cliScalePatch) (\<lambda>e.
          countMetric (\<lambda>m. m\<lparr>cliIdleEvents := cliIdleEvents m + 1\<rparr>))
      else ret ())"

definition cliPod ::
  "'w platform \<Rightarrow> idler \<Rightarrow> namespace \<Rightarrow> deployment \<Rightarrow> pod \<Rightarrow> unit \<Rightarrow> ('w st, unit loop) go" where
  "cliPod P h namespace deployment pod acc =
     (if \<not> cli_SkipProcessCheck (cli (Selectors h)) then
        andThen (execPod P (pod_name pod) (ns_name namespace) processCommand False False) (\<lambda>r.
          case r of
            Inl err \<Rightarrow> ret (Break ())
          | Inr out \<Rightarrow>
            andThen (liftO (countProcesses (fst out))) (\<lambda>processCount.
              if processCount = 0 then andThen (cliScale P h deployment) (\<lambda>_. ret (Continue ()))
              else ret (Continue ())))
      else andThen (cliScale P h deployment) (\<lambda>_. ret (Continue ())))"

text \<open>
  The pointer comparison with a fresh \<open>new(int32)\<close> is always unequal, so the branch that
  leaves the loop at an idled deployment is never taken.
\<close>

definition cliDiffersFromFresh :: "int32 option \<Rightarrow> bool" where
  "cliDiffersFromFresh replicas = True"

definition cliDeployment ::
  "'w platform \<Rightarrow> idler \<Rightarrow> namespace \<Rightarrow> deployment \<Rightarrow> unit \<Rightarrow> ('w st, unit loop) go" where
  "cliDeployment P h namespace deployment acc =
     (if cliDiffersFromFresh (dep_replicas deployment) then
        (case dep_replicas deployment of
           None \<Rightarrow> panic ''nil pointer dereference''
         | Some _ \<Rightarrow>
           let hasCrons = (if \<not> cli_SkipCronCheck (cli (Selectors h))
                           then containersHaveCrons False (dep_containers deployment) else False)
           in if \<not> hasCrons then
                andThen (liftO (generateLabelRequirements P (cli_Pods (cli (Selectors h))))) (\<lambda>reqs.
                andThen (ListPods P (inNamespace (ns_name namespace) (Requirements reqs))) (\<lambda>r.
                  case r of
                    Inl err \<Rightarrow> ret (Continue ())
                  | Inr pods \<Rightarrow>
                    andThen (forRange (cliPod P h namespace deployment) pods ()) (\<lambda>_.
                      ret (Continue ()))))
              else ret (Continue ()))
      else ret (Break ()))"

section \<open>One environment, and the cron job\<close>

definition kubernetesCLI :: "'w platform \<Rightarrow> idler \<Rightarrow> namespace \<Rightarrow> ('w st, unit) go" where
  "kubernetesCLI P h namespace =
     andThen (liftO (generateLabelRequirements P (cli_Builds (cli (Selectors h))))) (\<lambda>buildReqs.
     andThen (cliRunningBuild P h (inNamespace (ns_name namespace) (Requirements buildReqs)))
       (\<lambda>runningBuild.
     if \<not> runningBuild then
       andThen (liftO (generateLabelRequirements P (cli_Deployments (cli (Selectors h))))) (\<lambda>depReqs.
       andThen (ListDeployments P (inNamespace (ns_name namespace) (Requirements depReqs))) (\<lambda>r.
         case r of
           Inl err \<Rightarrow> ret ()
         | Inr deployments \<Rightarrow> forRange (cliDeployment P h namespace) deployments ()))
     else ret ()))"

definition cliNamespace ::
  "'w platform \<Rightarrow> idler \<Rightarrow> namespace \<Rightarrow> unit \<Rightarrow> ('w st, unit loop) go" where
  "cliNamespace P h namespace acc =
     (case (ns_labels namespace (ProjectIdling (nsLabels (Selectors h))),
            ns_labels namespace (EnvironmentIdling (nsLabels (Selectors h)))) of
        (Some projectAutoIdle, Some environmentAutoIdle) \<Rightarrow>
          if environmentAutoIdle = ''1'' \<and> projectAutoIdle = ''1'' then
            andThen (kubernetesCLI P h namespace) (\<lambda>_. ret (Continue ()))
          else ret (Continue ())
      | _ \<Rightarrow> ret (Continue ()))"

definition CLIIdler :: "'w platform \<Rightarrow> idler \<Rightarrow> ('w st, unit) go" where
  "CLIIdler P h =
     andThen (liftO (generateLabelRequirements P (cli_Namespace (cli (Selectors h))))) (\<lambda>reqs.
     andThen (ListNamespaces P \<lparr>lo_namespace = None, lo_selector = Some (Requirements reqs)\<rparr>) (\<lambda>r.
       case r of
         Inl err \<Rightarrow> ret ()
       | Inr namespaces \<Rightarrow> forRange (cliNamespace P h) namespaces ()))"

section \<open>Properties\<close>

lemma runningBuildCLI_iff: "runningBuildCLI bs \<longleftrightarrow> (\<exists>b \<in> set bs. pod_phase b = ''Running'')"
  by (induction bs) auto

lemma envHasCrons_iff:
  "envHasCrons b es \<longleftrightarrow> b \<or> (\<exists>e \<in> set es. env_name e = ''CRONJOBS'' \<and> env_value e \<noteq> '''')"
  by (induction es arbitrary: b) auto

lemma containersHaveCrons_iff:
  "containersHaveCrons b cs \<longleftrightarrow>
     b \<or> (\<exists>c \<in> set cs. \<exists>e \<in> set (con_env c). env_name e = ''CRONJOBS'' \<and> env_value e \<noteq> '''')"
  by (induction cs arbitrary: b) (auto simp: envHasCrons_iff)


text \<open>What \<open>wc -l\<close> prints: a decimal number and a newline.\<close>

lemma stripOne_digit:
  assumes "isDigit c" and "\<And>e. e \<in> set encs \<Longrightarrow> e \<noteq> [] \<and> \<not> isDigit (hd e)"
  shows "stripOne encs (c # s) = None"
proof -
  have "take (length e) (c # s) \<noteq> e" if "e \<in> set encs" for e
    using assms(1) assms(2) [OF that] by (cases e) auto
  then have "filter (\<lambda>e. take (length e) (c # s) = e) encs = []"
    by (auto simp: filter_empty_conv)
  then show ?thesis by (simp add: stripOne_def)
qed

lemma stripAll_None: "stripOne encs s = None \<Longrightarrow> stripAll n encs s = s"
  by (cases n) auto

lemma spaceEncodings_no_digit: "e \<in> set spaceEncodings \<Longrightarrow> \<not> isDigit (hd e) \<and> \<not> isDigit (hd (rev e))"
  by (auto simp: spaceEncodings_def isDigit_def)

lemma stripOne_newline: "stripOne (map rev spaceEncodings) (CHR 0x0A # s) = Some s"
  by (simp add: stripOne_def spaceEncodings_def)

lemma trimSpace_line:
  assumes "ds \<noteq> []" and "\<forall>c \<in> set ds. isDigit c"
  shows "trimSpace (ds @ [CHR 0x0A]) = ds"
proof -
  obtain c cs where ds: "ds = c # cs" using assms(1) by (cases ds) auto
  obtain b bs where rds: "rev ds = b # bs" using assms(1) by (cases "rev ds") auto
  have "isDigit c" using assms(2) ds by simp
  then have "stripOne spaceEncodings (ds @ [CHR 0x0A]) = None"
    unfolding ds append_Cons
    by (rule stripOne_digit) (auto dest: spaceEncodings_nonempty spaceEncodings_no_digit)
  then have l: "stripAll (length (ds @ [CHR 0x0A])) spaceEncodings (ds @ [CHR 0x0A]) = ds @ [CHR 0x0A]"
    by (rule stripAll_None)
  have "isDigit b" using assms(2) rds by (metis list.set_intros(1) set_rev)
  then have "stripOne (map rev spaceEncodings) (rev ds) = None"
    unfolding rds
    by (rule stripOne_digit) (auto dest: spaceEncodings_nonempty spaceEncodings_no_digit)
  then have "stripAll (length (ds @ [CHR 0x0A])) (map rev spaceEncodings) (CHR 0x0A # rev ds) = rev ds"
    by (simp add: stripOne_newline stripAll_None)
  with l show ?thesis by (simp add: trimSpace_def Let_def)
qed

lemma last_showNat: "last (showNat n) = digitChar (n mod 10)"
  by (subst showNat.simps) simp

lemma atoi_digit: "d < 10 \<Longrightarrow> atoi [digitChar d] = (int d, True)"
  using atoi_showNat [of d] by (simp add: showNat.simps)

lemma countProcesses_line:
  "countProcesses (showNat n @ [CHR 0x0A]) = Ok (int (n mod 10))"
proof -
  have "trimSpace (showNat n @ [CHR 0x0A]) = showNat n"
    by (rule trimSpace_line) (simp_all add: showNat_digits)
  then show ?thesis
    by (simp add: countProcesses_def Let_def last_showNat atoi_digit)
qed

text \<open>
  C34. Of the process count a pod reports, only the last digit is looked at: a pod with
  10, 20, 30 ... running processes counts as having none.
\<close>

theorem countProcesses_last_digit:
  "countProcesses (showNat n @ [CHR 0x0A]) = Ok (int (n mod 10))"
  by (rule countProcesses_line)

text \<open>
  A CLI deployment with cron jobs is left alone: nothing is even asked of the cluster.
\<close>

theorem cron_jobs_protect:
  assumes "\<not> cli_SkipCronCheck (cli (Selectors h))" and "dep_replicas d = Some r"
    and "c \<in> set (dep_containers d)" and "e \<in> set (con_env c)"
    and "env_name e = ''CRONJOBS''" and "env_value e \<noteq> ''''"
  shows "cliDeployment P h namespace d () s = (Ok (Continue ()), s)"
proof -
  have "containersHaveCrons False (dep_containers d)"
    using assms(3-6) by (auto simp: containersHaveCrons_iff)
  then show ?thesis
    using assms(1,2) by (simp add: cliDeployment_def cliDiffersFromFresh_def ret_def)
qed

text \<open>Requests of the CLI idler.\<close>

lemma emits_cliScale:
  "(\<And>r p. \<not> DryRun h \<Longrightarrow> Q (CPatch r p)) \<Longrightarrow> emits Q (cliScale P h d)"
  unfolding cliScale_def by (intro emits_rules)

lemma emits_cliPod:
  assumes "\<And>pod cmd. \<not> cli_SkipProcessCheck (cli (Selectors h)) \<Longrightarrow> Q (CExec pod (ns_name namespace) cmd)"
    and "\<And>r p. \<not> DryRun h \<Longrightarrow> Q (CPatch r p)"
  shows "emits Q (cliPod P h namespace d pod acc)"
  unfolding cliPod_def by (intro emits_rules emits_execPod emits_cliScale assms)

lemma emits_cliDeployment:
  assumes "\<And>k sel. Q (CList k (inNamespace (ns_name namespace) sel))"
    and "\<And>pod cmd. \<not> cli_SkipProcessCheck (cli (Selectors h)) \<Longrightarrow> Q (CExec pod (ns_name namespace) cmd)"
    and "\<And>r p. \<not> DryRun h \<Longrightarrow> Q (CPatch r p)"
  shows "emits Q (cliDeployment P h namespace d acc)"
  unfolding cliDeployment_def by (intro emits_rules emits_cliPod assms)

lemma emits_kubernetesCLI:
  assumes "\<And>k sel. Q (CList k (inNamespace (ns_name namespace) sel))"
    and "\<And>pod cmd. \<not> cli_SkipProcessCheck (cli (Selectors h)) \<Longrightarrow> Q (CExec pod (ns_name namespace) cmd)"
    and "\<And>r p. \<not> DryRun h \<Longrightarrow> Q (CPatch r p)"
  shows "emits Q (kubernetesCLI P h namespace)"
  unfolding kubernetesCLI_def cliRunningBuild_def
  by (intro emits_rules emits_cliDeployment assms)

lemma emits_CLIIdler:
  assumes "\<And>k opts. Q (CList k opts)"
    and "\<And>pod ns cmd. \<not> cli_SkipProcessCheck (cli (Selectors h)) \<Longrightarrow> Q (CExec pod ns cmd)"
    and "\<And>r p. \<not> DryRun h \<Longrightarrow> Q (CPatch r p)"
  shows "emits Q (CLIIdler P h)"
proof -
  have "emits Q (cliNamespace P h n acc)" for n acc
    unfolding cliNamespace_def
    by (intro emits_rules emits_kubernetesCLI assms)
  then show ?thesis unfolding CLIIdler_def by (intro emits_rules assms)
qed

text \<open>
  The CLI cron job in a dry run may run the process check in pods but never patches.
\<close>

theorem cli_dry_run_never_patches:
  assumes "DryRun h"
  shows "\<exists>new. calls (snd (CLIIdler P h s)) = calls s @ new \<and> \<not> list_ex isPatch new"
proof -
  have "emits (\<lambda>c. \<not> isPatch c) (CLIIdler P h)"
    by (rule emits_CLIIdler) (simp_all add: assms)
  from stepsD [OF this, of s] show ?thesis by (auto simp: emitsRel_def list_ex_iff)
qed

text \<open>
  C35. For a pod that answers the process check with a count \<open>n\<close>, the deployment is scaled
  to zero and the event counted exactly when the last digit of \<open>n\<close> is 0.
\<close>

theorem cliPod_scales_iff:
  assumes "\<not> DryRun h" and "\<not> cli_SkipProcessCheck (cli (Selectors h))"
    and "execPod P (pod_name pod) (ns_name namespace) processCommand False False s
           = (Ok (Inr (showNat n @ [CHR 0x0A], stderr)), t)"
  shows "cliPod P h namespace d pod () s =
     (Ok (Continue ()),
      if n mod 10 = 0
      then t\<lparr>world := snd (sendPatch P (refOfDeployment d) cliScalePatch (world t)),
              calls := calls t @ [CPatch (refOfDeployment d) cliScalePatch],
              metrics := (metrics t)\<lparr>cliIdleEvents := cliIdleEvents (metrics t) + 1\<rparr>\<rparr>
      else t)"
proof -
  have "int (n mod 10) = 0 \<longleftrightarrow> n mod 10 = 0" by (rule of_nat_eq_0_iff)
  then show ?thesis
    using assms(1,2)
    by (auto simp: cliPod_def assms(3) liftO_def countProcesses_line cliScale_def
        Patch_def andThen_def request_eval countMetric_def ret_def)
qed

end
