(* ===== verification/Unidle.thy ===== *)
theory Unidle
  imports Restrictions StatusCodes
begin

text \<open>
  Waking an environment: \<open>Unidle\<close> of unidler/unidler.go and the cluster checks it and the
  HTTP handler use, unidler/checks.go.  The deployments an idler marked are scaled back
  up, their pods are waited for, the error codes are taken off the ingresses, and the
  namespace is labelled as no longer idled.
\<close>

section \<open>checks.go\<close>

text \<open>\<open>labels.NewRequirement(key, selection.Equals, \"true\")\<close>, dereferenced without a look at the error.\<close>

definition equalsTrue :: "'w platform \<Rightarrow> string \<Rightarrow> requirement list outcome" where
  "equalsTrue P key =
     (if newRequirementOk P key ''='' [''true'']
      then Ok [\<lparr>req_key = key, req_op = ''='', req_values = [''true'']\<rparr>]
      else Panic ''nil pointer dereference'')"

definition checkForceScaled :: "'w platform \<Rightarrow> string \<Rightarrow> ('w st, bool) go" where
  "checkForceScaled P ns =
     andThen (liftO (equalsTrue P ''idling.amazee.io/force-scaled'')) (\<lambda>reqs.
     andThen (ListDeployments P (inNamespace ns (Requirements reqs))) (\<lambda>r.
       case r of
         Inl err \<Rightarrow> ret False
       | Inr deployments \<Rightarrow> if length deployments > 0 then ret True else ret False))"

text \<open>The condition polled for each deployment; its pod list is not limited to the namespace.\<close>

definition hasRunningPod ::
  "'w platform \<Rightarrow> string \<Rightarrow> string \<Rightarrow> ('w st, gerror + bool) go" where
  "hasRunningPod P namespace deployment =
     andThen (GetDeployment P namespace deployment) (\<lambda>r.
       case r of
         Inl err \<Rightarrow> ret (Inl err)
       | Inr d \<Rightarrow>
         (case dep_selector d of
            None \<Rightarrow> panic ''nil pointer dereference''
          | Some matchLabels \<Rightarrow>
            andThen (ListPods P \<lparr>lo_namespace = None, lo_selector = Some (LabelSet matchLabels)\<rparr>) (\<lambda>r.
              case r of
                Inl err \<Rightarrow> ret (Inl err)
              | Inr pods \<Rightarrow>
                (case pods of
                   [] \<Rightarrow> ret (Inr False)
                 | pod # _ \<Rightarrow> ret (Inr (pod_phase pod = ''Running''))))))"

text \<open>The annotations \<open>removeCodeFromIngress\<close> patches; a nil pointer marshals to null.\<close>

definition restorePatch :: "ingress \<Rightarrow> json option" where
  "restorePatch ingress =
     (let nginx = ''nginx.ingress.kubernetes.io/custom-http-errors'';
          traefik = ''traefik.ingress.kubernetes.io/router.middlewares'';
          ingressValue = (case ing_annotations ingress nginx of Some v \<Rightarrow> v | None \<Rightarrow> '''');
          ok1 = (ing_annotations ingress nginx \<noteq> None);
          ingressCodes = (if ok1 then removeStatusCode ingressValue ''503'' else None);
          traefikValue = (case ing_annotations ingress traefik of Some v \<Rightarrow> v | None \<Rightarrow> '''');
          ok2 = (ing_annotations ingress traefik \<noteq> None);
          traefikMiddlewares =
            (if ok2 then removeStatusCode traefikValue (traefikMiddleware (ing_namespace ingress)) else None)
      in if ok1 \<or> ok2 then
           Some (JObj [(''metadata'', JObj
             [(''labels'', JObj [(''idling.amazee.io/idled'', JStr ''false'')]),
              (''annotations'', JObj
                 ([(''idling.amazee.io/idled-at'', JNull)]
                  @ (if ingressCodes = None \<or> ingressCodes \<noteq> Some ingressValue
                     then [(nginx, jsonOfOption ingressCodes)] else [])
                  @ (if traefikMiddlewares = None \<or> traefikMiddlewares \<noteq> Some traefikValue
                     then [(traefik, jsonOfOption traefikMiddlewares)] else [])))])])
         else None)"

definition restoreIngress ::
  "'w platform \<Rightarrow> ingress \<Rightarrow> unit \<Rightarrow> ('w st, unit loop) go" where
  "restoreIngress P ingress acc =
     (case restorePatch ingress of
        Some p \<Rightarrow> andThen (Patch P (refOfIngress ingress) p) (\<lambda>e. ret (Continue ()))
      | None \<Rightarrow> ret (Continue ()))"

definition removeCodeFromIngress :: "'w platform \<Rightarrow> string \<Rightarrow> ('w st, unit) go" where
  "removeCodeFromIngress P ns =
     andThen (ListIngresses P \<lparr>lo_namespace = Some ns, lo_selector = None\<rparr>) (\<lambda>r.
       case r of
         Inl err \<Rightarrow> ret ()
       | Inr ingresses \<Rightarrow> forRange (restoreIngress P) ingresses ())"

section \<open>Unidle\<close>

text \<open>The replica count to come back to: a positive number in the annotation, else 1.\<close>

definition unidleReplicas :: "deployment \<Rightarrow> int" where
  "unidleReplicas deploy =
     (case dep_annotations deploy ''idling.amazee.io/unidle-replicas'' of
        Some value \<Rightarrow> (case atoi value of (n, ok) \<Rightarrow> if ok \<and> n > 0 then n else 1)
      | None \<Rightarrow> 1)"

definition unidlePatch :: "int \<Rightarrow> json" where
  "unidlePatch newReplicas =
     JObj
       [(''spec'', JObj [(''replicas'', JNum newReplicas)]),
        (''metadata'', JObj
          [(''labels'', JObj
             [(''idling.amazee.io/idled'', JStr ''false''),
              (''idling.amazee.io/force-idled'', JNull),
              (''idling.amazee.io/force-scaled'', JNull)]),
           (''annotations'', JObj [(''idling.amazee.io/idled-at'', JNull)])])]"

definition unidleDeployment ::
  "'w platform \<Rightarrow> deployment \<Rightarrow> unit \<Rightarrow> ('w st, unit loop) go" where
  "unidleDeployment P deploy acc =
     (if dep_labels deploy ''idling.amazee.io/idled'' = Some ''true'' then
        (case dep_replicas deploy of
           None \<Rightarrow> panic ''nil pointer dereference''
         | Some replicas \<Rightarrow>
           if replicas = 0 then
             andThen (Patch P (refOfDeployment deploy) (unidlePatch (unidleReplicas deploy)))
               (\<lambda>e. ret (Continue ()))
           else ret (Continue ()))
      else ret (Continue ()))"

definition defaultPollDuration :: duration where "defaultPollDuration = 1 * second"

definition defaultPollTimeout :: duration where "defaultPollTimeout = 90 * second"

definition waitPoll :: "'w platform \<Rightarrow> ('w st, gerror + bool) go \<Rightarrow> ('w st, gerror option) go" where
  "waitPoll P condition = pollUntil P defaultPollDuration defaultPollTimeout True condition"

definition waitForPods ::
  "'w platform \<Rightarrow> namespace \<Rightarrow> deployment \<Rightarrow> unit \<Rightarrow> ('w st, unit loop) go" where
  "waitForPods P namespace deploy acc =
     andThen (waitPoll P (hasRunningPod P (ns_name namespace) (dep_name deploy)))
       (\<lambda>e. ret (Continue ()))"

definition unidledLabelPatch :: json where
  "unidledLabelPatch =
     JObj [(''metadata'', JObj [(''labels'', JObj [(''idling.amazee.io/idled'', JStr ''false'')])])]"

definition Unidle :: "'w platform \<Rightarrow> namespace \<Rightarrow> ('w st, unit) go" where
  "Unidle P namespace =
     deferred (\<lambda>s. s\<lparr>locks := (locks s)(ns_name namespace := None)\<rparr>)
       (andThen (liftO (equalsTrue P ''idling.amazee.io/watch'')) (\<lambda>reqs.
        andThen (ListDeployments P (inNamespace (ns_name namespace) (Requirements reqs))) (\<lambda>r.
          case r of
            Inl err \<Rightarrow> ret ()
          | Inr deployments \<Rightarrow>
            andThen (forRange (unidleDeployment P) deployments ()) (\<lambda>_.
            andThen (forRange (waitForPods P namespace) deployments ()) (\<lambda>_.
            andThen (removeCodeFromIngress P (ns_name namespace)) (\<lambda>_.
            andThen (countMetric (\<lambda>m. m\<lparr>unidleEvents := unidleEvents m + 1\<rparr>)) (\<lambda>_.
            andThen (Patch P (NamespaceRef (ns_name namespace)) unidledLabelPatch) (\<lambda>e.
              ret ()))))))))"

section \<open>What the polling library is relied on for\<close>

text \<open>
  \<open>wait.PollUntilContextTimeout\<close> only runs the condition: what every run of the condition
  keeps, polling keeps.
\<close>

definition pollRunsCondition :: "'w platform \<Rightarrow> bool" where
  "pollRunsCondition P \<longleftrightarrow> (\<forall>I cond. keeps I cond \<longrightarrow> keeps I (waitPoll P cond))"

lemma poll_steps:
  assumes "pollRunsCondition P" and "effect R" and "steps R cond"
  shows "steps R (waitPoll P cond)"
proof (rule stepsI)
  fix s
  have "keeps (R s) cond"
    using effect.eff_trans [OF assms(2)] stepsD [OF assms(3)] by (intro keepsI) blast
  then have "keeps (R s) (waitPoll P cond)"
    using assms(1) by (simp add: pollRunsCondition_def)
  then show "R s (snd (waitPoll P cond s))"
    using effect.eff_refl [OF assms(2)] by (rule keepsD)
qed

lemma poll_emits: "pollRunsCondition P \<Longrightarrow> emits Q cond \<Longrightarrow> emits Q (waitPoll P cond)"
  by (rule poll_steps [OF _ em.effect_axioms])

lemma poll_preserves: "pollRunsCondition P \<Longrightarrow> preserves f cond \<Longrightarrow> preserves f (waitPoll P cond)"
  by (rule poll_steps [OF _ pres.effect_axioms])

section \<open>Properties\<close>

lemma unidleReplicas_written:
  assumes "dep_annotations d ''idling.amazee.io/unidle-replicas'' = Some (formatInt (if sint r > 0 then sint r else 1))"
  shows "unidleReplicas d = (if sint (r :: int32) > 0 then sint r else 1)"
proof -
  have "sint r < 2 ^ 31" using sint_less [of r] by simp
  then show ?thesis
    using assms by (simp add: unidleReplicas_def atoi_formatInt)
qed

end
