(* ===== verification/Cluster.thy ===== *)
theory Cluster
  imports Kube GoStrings
begin

text \<open>
  A small executable cluster: one concrete \<open>platform\<close>.  It stands behind the witnesses, and
  its merge patch is what the end-to-end properties say of the objects.  It follows the
  documented behaviour of the Kubernetes API as far as the controller uses it: label
  selection (equality, set-based and existence operators), JSON merge patches (RFC 7386: a
  null deletes, any other value replaces), and a poll that runs its condition at once and
  then every second for ninety seconds.  Nothing of it is assumed by a property that does
  not name it.
\<close>

section \<open>Merge patches\<close>

fun field :: "string \<Rightarrow> json \<Rightarrow> json option" where
  "field k (JObj kvs) = map_of kvs k"
| "field k _ = None"

fun mergeStrings :: "labels \<Rightarrow> (string \<times> json) list \<Rightarrow> labels" where
  "mergeStrings m [] = m"
| "mergeStrings m ((k, JNull) # kvs) = mergeStrings (m(k := None)) kvs"
| "mergeStrings m ((k, JStr v) # kvs) = mergeStrings (m(k \<mapsto> v)) kvs"
| "mergeStrings m (_ # kvs) = mergeStrings m kvs"

definition mergeMeta :: "string \<Rightarrow> json \<Rightarrow> labels \<Rightarrow> labels" where
  "mergeMeta part patch m =
     (case Option.bind (field ''metadata'' patch) (field part) of
        Some (JObj kvs) \<Rightarrow> mergeStrings m kvs
      | _ \<Rightarrow> m)"

definition mergeReplicas :: "json \<Rightarrow> int32 option \<Rightarrow> int32 option" where
  "mergeReplicas patch r =
     (case Option.bind (field ''spec'' patch) (field ''replicas'') of
        Some (JNum n) \<Rightarrow> Some (word_of_int n)
      | _ \<Rightarrow> r)"

definition mergeDeployment :: "json \<Rightarrow> deployment \<Rightarrow> deployment" where
  "mergeDeployment p d =
     d\<lparr>dep_labels := mergeMeta ''labels'' p (dep_labels d),
       dep_annotations := mergeMeta ''annotations'' p (dep_annotations d),
       dep_replicas := mergeReplicas p (dep_replicas d)\<rparr>"

definition mergeIngress :: "json \<Rightarrow> ingress \<Rightarrow> ingress" where
  "mergeIngress p i =
     i\<lparr>ing_labels := mergeMeta ''labels'' p (ing_labels i),
       ing_annotations := mergeMeta ''annotations'' p (ing_annotations i)\<rparr>"

definition mergeNamespace :: "json \<Rightarrow> namespace \<Rightarrow> namespace" where
  "mergeNamespace p n =
     n\<lparr>ns_labels := mergeMeta ''labels'' p (ns_labels n),
       ns_annotations := mergeMeta ''annotations'' p (ns_annotations n)\<rparr>"

lemma merge_keeps_names [simp]:
  "dep_name (mergeDeployment p d) = dep_name d" "dep_namespace (mergeDeployment p d) = dep_namespace d"
  "ing_name (mergeIngress p i) = ing_name i" "ing_namespace (mergeIngress p i) = ing_namespace i"
  "ns_name (mergeNamespace p n) = ns_name n"
  by (simp_all add: mergeDeployment_def mergeIngress_def mergeNamespace_def)

section \<open>Label selection\<close>

definition meets :: "labels \<Rightarrow> requirement \<Rightarrow> bool" where
  "meets l r =
     (if req_op r = ''exists'' then l (req_key r) \<noteq> None
      else if req_op r = ''!'' then l (req_key r) = None
      else if req_op r = ''!='' \<or> req_op r = ''notin''
      then (case l (req_key r) of None \<Rightarrow> True | Some v \<Rightarrow> \<not> List.member (req_values r) v)
      else (case l (req_key r) of None \<Rightarrow> False | Some v \<Rightarrow> List.member (req_values r) v))"

text \<open>A label set is a map with finitely many keys; the keys of interest are passed along.\<close>

fun matchesSelector :: "string list \<Rightarrow> labels \<Rightarrow> label_selector option \<Rightarrow> bool" where
  "matchesSelector ks l None = True"
| "matchesSelector ks l (Some (Requirements rs)) = list_all (meets l) rs"
| "matchesSelector ks l (Some (LabelSet m)) = list_all (\<lambda>k. m k = None \<or> m k = l k) ks"

definition selected :: "string list \<Rightarrow> list_options \<Rightarrow> string \<Rightarrow> labels \<Rightarrow> bool" where
  "selected ks opts ns l =
     ((case lo_namespace opts of None \<Rightarrow> True | Some n \<Rightarrow> ns = n) \<and> matchesSelector ks l (lo_selector opts))"

section \<open>The objects, and patching one of them\<close>

record objects =
  cl_namespaces :: "namespace list"
  cl_deployments :: "deployment list"
  cl_ingresses :: "ingress list"

fun patchObject :: "objref \<Rightarrow> json \<Rightarrow> 'a objects_scheme \<Rightarrow> 'a objects_scheme" where
  "patchObject (NamespaceRef n) p c =
     c\<lparr>cl_namespaces := map (\<lambda>x. if ns_name x = n then mergeNamespace p x else x) (cl_namespaces c)\<rparr>"
| "patchObject (DeploymentRef ns n) p c =
     c\<lparr>cl_deployments := map (\<lambda>x. if dep_namespace x = ns \<and> dep_name x = n then mergeDeployment p x else x)
         (cl_deployments c)\<rparr>"
| "patchObject (IngressRef ns n) p c =
     c\<lparr>cl_ingresses := map (\<lambda>x. if ing_namespace x = ns \<and> ing_name x = n then mergeIngress p x else x)
         (cl_ingresses c)\<rparr>"

fun refExists :: "objref \<Rightarrow> 'a objects_scheme \<Rightarrow> bool" where
  "refExists (NamespaceRef n) c = list_ex (\<lambda>x. ns_name x = n) (cl_namespaces c)"
| "refExists (DeploymentRef ns n) c = list_ex (\<lambda>x. dep_namespace x = ns \<and> dep_name x = n) (cl_deployments c)"
| "refExists (IngressRef ns n) c = list_ex (\<lambda>x. ing_namespace x = ns \<and> ing_name x = n) (cl_ingresses c)"

section \<open>The cluster\<close>

record cluster = objects +
  cl_keys :: "string list"
  cl_pods :: "pod list"
  cl_hits :: "string list"
  cl_stdout :: string
  cl_now :: int
  cl_time :: string

definition found :: "'x option \<Rightarrow> gerror + 'x" where
  "found r = (case r of None \<Rightarrow> Inl (NotFound ''not found'') | Some x \<Rightarrow> Inr x)"

text \<open>The poll: \<open>n\<close> more attempts; an error of the condition ends it, as does success.\<close>

primrec pollTimes :: "nat \<Rightarrow> ('s, gerror + bool) go \<Rightarrow> ('s, gerror option) go" where
  "pollTimes 0 cond = ret (Some (GoError ''context deadline exceeded''))"
| "pollTimes (Suc n) cond =
     andThen cond (\<lambda>r. case r of
         Inl err \<Rightarrow> ret (Some err)
       | Inr done \<Rightarrow> if done then ret None else pollTimes n cond)"

definition clusterPlatform :: "cluster platform" where
  "clusterPlatform =
     \<lparr>newRequirementOk = (\<lambda>k op vs. k \<noteq> ''''),
      listNamespaces = (\<lambda>opts c. (Inr (filter (\<lambda>n. selected (cl_keys c) opts (ns_name n) (ns_labels n)) (cl_namespaces c)), c)),
      listDeployments = (\<lambda>opts c. (Inr (filter (\<lambda>d. selected (cl_keys c) opts (dep_namespace d) (dep_labels d)) (cl_deployments c)), c)),
      listPods = (\<lambda>opts c. (Inr (filter (\<lambda>p. selected (cl_keys c) opts (pod_namespace p) (pod_labels p)) (cl_pods c)), c)),
      listIngresses = (\<lambda>opts c. (Inr (filter (\<lambda>i. selected (cl_keys c) opts (ing_namespace i) (ing_labels i)) (cl_ingresses c)), c)),
      getNamespace = (\<lambda>n c. (found (find (\<lambda>x. ns_name x = n) (cl_namespaces c)), c)),
      getDeployment = (\<lambda>ns n c. (found (find (\<lambda>x. dep_namespace x = ns \<and> dep_name x = n) (cl_deployments c)), c)),
      getIngress = (\<lambda>ns n c. (found (find (\<lambda>x. ing_namespace x = ns \<and> ing_name x = n) (cl_ingresses c)), c)),
      sendPatch = (\<lambda>ref p c. if refExists ref c then (None, patchObject ref p c)
                             else (Some (NotFound ''not found''), c)),
      promQuery = (\<lambda>q c. (Inr (Vector (cl_hits c), []), c)),
      restConfig = (\<lambda>c. None), newClientset = (\<lambda>c. None), addToScheme = (\<lambda>c. None),
      newExecutor = (\<lambda>req c. None), execStream = (\<lambda>req c. (Inr (cl_stdout c, ''''), c)),
      clock = cl_now, clockRFC3339 = cl_time,
      getenv = (\<lambda>v. ''''), matchString = (\<lambda>re s. re = s),
      urlHostname = (\<lambda>u. if u = '''' then None else Some u),
      templateParses = (\<lambda>f. True),
      pollUntil = (\<lambda>interval timeout immediate.
          pollTimes (nat (timeout div interval) + (if immediate then 1 else 0)))\<rparr>"

section \<open>Facts about merge patches\<close>

lemma keeps_pollTimes: "keeps I cond \<Longrightarrow> keeps I (pollTimes n cond)"
  unfolding keeps_def
  by (induction n) (auto intro!: kept.steps_rules)

text \<open>A pointer to a string, as the code marshals it: nil deletes the key.\<close>

lemma mergeStrings_option [simp]:
  "mergeStrings m ((k, jsonOfOption v) # kvs) = mergeStrings (m(k := v)) kvs"
  by (cases v) simp_all

end
