(* ===== verification/UnidleProps.thy ===== *)
theory UnidleProps
  imports Unidle ServiceIdlerProps Cluster
begin

text \<open>
  What \<open>Unidle\<close> sends, and what it gives back: the patches of its scale-up loop, the polled
  condition, and the round trips of a deployment and of an ingress through idling and
  unidling, with the API's merge patch applied to them.
\<close>

section \<open>The scale-up loop\<close>

definition needsScaling :: "deployment \<Rightarrow> bool" where
  "needsScaling d \<longleftrightarrow> dep_labels d ''idling.amazee.io/idled'' = Some ''true'' \<and> dep_replicas d = Some 0"

lemma unidleDeployment_run:
  assumes "dep_replicas d \<noteq> None"
  shows "\<exists>s'. unidleDeployment P d () s = (Ok (Continue ()), s')
     \<and> calls s' = calls s @ (if needsScaling d
          then [CPatch (refOfDeployment d) (unidlePatch (unidleReplicas d))] else [])"
  using assms
  by (auto simp: unidleDeployment_def needsScaling_def andThen_def Patch_def request_eval ret_def)

lemma unidleLoop_run:
  assumes "\<forall>d \<in> set ds. dep_replicas d \<noteq> None"
  shows "\<exists>s'. forRange (unidleDeployment P) ds () s = (Ok (), s')
     \<and> calls s' = calls s
         @ map (\<lambda>d. CPatch (refOfDeployment d) (unidlePatch (unidleReplicas d))) (filter needsScaling ds)"
  using assms
proof (induction ds arbitrary: s)
  case Nil
  then show ?case by (simp add: ret_def)
next
  case (Cons d ds)
  then obtain s1 where s1: "unidleDeployment P d () s = (Ok (Continue ()), s1)"
    "calls s1 = calls s @ (if needsScaling d
          then [CPatch (refOfDeployment d) (unidlePatch (unidleReplicas d))] else [])"
    using unidleDeployment_run [of d P s] by auto
  obtain s2 where "forRange (unidleDeployment P) ds () s1 = (Ok (), s2)"
    "calls s2 = calls s1
         @ map (\<lambda>d. CPatch (refOfDeployment d) (unidlePatch (unidleReplicas d))) (filter needsScaling ds)"
    using Cons.IH [of s1] Cons.prems by auto
  with s1 show ?case by (simp add: andThen_Ok)
qed

lemma emits_hasRunningPod:
  assumes "\<And>o'. Q (CList KPod o')" and "Q (CGet (DeploymentRef ns n))"
  shows "emits Q (hasRunningPod P ns n)"
  unfolding hasRunningPod_def
  by (intro emits_rules steps_list assms)

lemma emits_waitForPods:
  assumes "pollRunsCondition P" and "\<And>o'. Q (CList KPod o')" and "\<And>n. Q (CGet (DeploymentRef (ns_name namespace) n))"
  shows "emits Q (waitForPods P namespace d acc)"
  unfolding waitForPods_def
  by (intro emits_rules poll_emits [OF assms(1)] emits_hasRunningPod assms(2,3))

lemma emits_removeCodeFromIngress:
  assumes "\<And>o'. Q (CList KIngress o')" and "\<And>i p. Q (CPatch (refOfIngress i) p)"
  shows "emits Q (removeCodeFromIngress P ns)"
  unfolding removeCodeFromIngress_def restoreIngress_def by (intro emits_rules assms)

text \<open>
  C23. \<open>Unidle\<close> scales exactly the watched deployments that carry the idled label and have no
  replicas, each once, in the order of the list, to the count it had; whatever happens
  while it waits for the pods, it patches no other deployment.
\<close>

theorem unidle_scales_idled:
  assumes "pollRunsCondition P" and "newRequirementOk P ''idling.amazee.io/watch'' ''='' [''true'']"
    and "listDeployments P (inNamespace (ns_name namespace) (Requirements
            [\<lparr>req_key = ''idling.amazee.io/watch'', req_op = ''='', req_values = [''true'']\<rparr>])) (world s)
          = (Inr ds, w)"
    and "\<forall>d \<in> set ds. dep_replicas d \<noteq> None"
  shows "\<exists>new. calls (snd (Unidle P namespace s)) = calls s @ new
     \<and> filter isDeploymentPatch new
         = map (\<lambda>d. CPatch (refOfDeployment d) (unidlePatch (unidleReplicas d))) (filter needsScaling ds)"
proof -
  let ?opts = "inNamespace (ns_name namespace) (Requirements
            [\<lparr>req_key = ''idling.amazee.io/watch'', req_op = ''='', req_values = [''true'']\<rparr>])"
  let ?s1 = "s\<lparr>world := w, calls := calls s @ [CList KDeployment ?opts]\<rparr>"
  let ?patches = "map (\<lambda>d. CPatch (refOfDeployment d) (unidlePatch (unidleReplicas d))) (filter needsScaling ds)"
  obtain s2 where s2: "forRange (unidleDeployment P) ds () ?s1 = (Ok (), s2)"
    "calls s2 = calls s @ [CList KDeployment ?opts] @ ?patches"
    using unidleLoop_run [OF assms(4), of P ?s1] by auto
  let ?rest = "andThen (forRange (waitForPods P namespace) ds ()) (\<lambda>_.
            andThen (removeCodeFromIngress P (ns_name namespace)) (\<lambda>_.
            andThen (countMetric (\<lambda>m. m\<lparr>unidleEvents := unidleEvents m + 1\<rparr>)) (\<lambda>_.
            andThen (Patch P (NamespaceRef (ns_name namespace)) unidledLabelPatch) (\<lambda>e.
              ret ()))))"
  have "emits (\<lambda>c. \<not> isDeploymentPatch c) ?rest"
    by (intro emits_rules emits_waitForPods [OF assms(1)] emits_removeCodeFromIngress) simp_all
  then obtain post where post: "calls (snd (?rest s2)) = calls s2 @ post" "\<forall>c \<in> set post. \<not> isDeploymentPatch c"
    by (rule emitsD)
  have "calls (snd (Unidle P namespace s)) = calls (snd (?rest s2))"
    using assms(2,3) s2(1)
    by (simp add: Unidle_def deferred_apply equalsTrue_def andThen_Ok ListDeployments_def request_eval)
  with s2 post have "calls (snd (Unidle P namespace s))
      = calls s @ ([CList KDeployment ?opts] @ ?patches @ post)" by simp
  moreover have "filter isDeploymentPatch ([CList KDeployment ?opts] @ ?patches @ post) = ?patches"
    using post(2) by (auto simp: filter_empty_conv filter_id_conv)
  ultimately show ?thesis by blast
qed

section \<open>The lock\<close>

lemma preserves_hasRunningPod: "preserves locks (hasRunningPod P ns n)"
  unfolding hasRunningPod_def GetDeployment_def ListPods_def
  by (intro preserves_rules preserves_request steps_list) simp_all

lemma preserves_waitForPods:
  "pollRunsCondition P \<Longrightarrow> preserves locks (waitForPods P namespace d acc)"
  unfolding waitForPods_def
  by (intro preserves_rules poll_preserves preserves_hasRunningPod)

lemma deferred_unlock:
  "preserves locks m \<Longrightarrow>
     locks (snd (deferred (\<lambda>s. s\<lparr>locks := (locks s)(k := None)\<rparr>) m s)) = (locks s)(k := None)"
  using stepsD [of "\<lambda>s t. locks t = locks s" m s] by (simp add: deferred_apply)

text \<open>
  C30. However \<open>Unidle\<close> ends, by returning early, by finishing or by a panic, the lock of its
  namespace is free afterwards, and the locks of the other namespaces are as they were.
\<close>

theorem Unidle_releases_own_lock:
  assumes "pollRunsCondition P"
  shows "locks (snd (Unidle P namespace s)) = (locks s)(ns_name namespace := None)"
  unfolding Unidle_def
  by (rule deferred_unlock)
    (unfold unidleDeployment_def removeCodeFromIngress_def restoreIngress_def ListDeployments_def
      ListIngresses_def Patch_def,
     intro preserves_rules preserves_request preserves_waitForPods assms, simp_all)

section \<open>The polled condition\<close>

text \<open>
  The condition \<open>Unidle\<close> waits for looks at the first pod, in any namespace, whose labels
  match the deployment's selector: the pod list is not limited to the namespace, and a
  running pod of another environment with the same labels ends the wait.
\<close>

theorem hasRunningPod_any_namespace:
  assumes "getDeployment P ns n (world s) = (Inr d, w1)" and "dep_selector d = Some m"
    and "opts = \<lparr>lo_namespace = None, lo_selector = Some (LabelSet m)\<rparr>"
    and "listPods P opts w1 = (Inr pods, w2)"
  shows "hasRunningPod P ns n s =
     (Ok (Inr (pods \<noteq> [] \<and> pod_phase (hd pods) = ''Running'')),
      s\<lparr>world := w2, calls := calls s @ [CGet (DeploymentRef ns n), CList KPod opts]\<rparr>)"
  using assms
  by (auto simp: hasRunningPod_def andThen_def GetDeployment_def ListPods_def request_eval ret_def
      split: list.split)

section \<open>Round trips\<close>

lemma unidleReplicas_idle:
  "dep_annotations d ''idling.amazee.io/unidle-replicas'' = Some (formatInt (idleReplicas r))
     \<Longrightarrow> unidleReplicas d = idleReplicas r"
  using unidleReplicas_written [of d r] by (simp add: idleReplicas_def)

definition afterIdle :: "bool \<Rightarrow> bool \<Rightarrow> string \<Rightarrow> deployment \<Rightarrow> deployment" where
  "afterIdle forceIdle forceScale now d =
     (case dep_replicas d of
        Some r \<Rightarrow> mergeDeployment (idlePatch forceIdle forceScale now r) d
      | None \<Rightarrow> d)"

definition afterUnidle :: "deployment \<Rightarrow> deployment" where
  "afterUnidle d = (if needsScaling d then mergeDeployment (unidlePatch (unidleReplicas d)) d else d)"

lemma afterIdle_facts:
  assumes "dep_replicas d = Some r"
  shows "dep_replicas (afterIdle fi fs now d) = Some 0"
    and "dep_labels (afterIdle fi fs now d) ''idling.amazee.io/idled'' = Some ''true''"
    and "dep_labels (afterIdle fi fs now d) ''idling.amazee.io/watch'' = Some ''true''"
    and "unidleReplicas (afterIdle fi fs now d) = idleReplicas r"
  using assms unidleReplicas_idle [of "afterIdle fi fs now d" r]
  by (simp_all add: afterIdle_def mergeDeployment_def mergeMeta_def mergeReplicas_def idlePatch_def)

lemma afterUnidle_facts:
  assumes "needsScaling d"
  shows "dep_replicas (afterUnidle d) = Some (word_of_int (unidleReplicas d))"
    and "dep_labels (afterUnidle d) = (dep_labels d)(''idling.amazee.io/idled'' \<mapsto> ''false'',
           ''idling.amazee.io/force-idled'' := None, ''idling.amazee.io/force-scaled'' := None)"
    and "dep_annotations (afterUnidle d) = (dep_annotations d)(''idling.amazee.io/idled-at'' := None)"
  using assms
  by (simp_all add: afterUnidle_def mergeDeployment_def mergeMeta_def mergeReplicas_def unidlePatch_def)


text \<open>
  C32. Idling a deployment that is already idled (which the idler does not notice) overwrites the
  count to come back to: after a second idling, unidling gives one replica, whatever the
  deployment had.
\<close>

theorem idling_twice_loses_replicas:
  assumes "dep_replicas d = Some r"
  shows "dep_replicas (afterUnidle (afterIdle fi' fs' now' (afterIdle fi fs now d))) = Some 1"
proof -
  have zero: "dep_replicas (afterIdle fi fs now d) = Some 0"
    using afterIdle_facts [OF assms] by blast
  have "needsScaling (afterIdle fi' fs' now' (afterIdle fi fs now d))"
    using afterIdle_facts [OF zero] by (simp add: needsScaling_def)
  then show ?thesis
    using afterIdle_facts(4) [OF zero] by (simp add: afterUnidle_facts idleReplicas_def)
qed

text \<open>The ingress annotations through both patches.\<close>

definition ingressAfterIdle :: "ingress \<Rightarrow> ingress" where
  "ingressAfterIdle i = mergeIngress (ingressPatch i) i"

definition ingressAfterUnidle :: "ingress \<Rightarrow> ingress" where
  "ingressAfterUnidle i = (case restorePatch i of Some p \<Rightarrow> mergeIngress p i | None \<Rightarrow> i)"

definition annotationValue :: "labels \<Rightarrow> string \<Rightarrow> string" where
  "annotationValue m k = (case m k of Some v \<Rightarrow> v | None \<Rightarrow> '''')"

definition codesAfterCycle :: "string \<Rightarrow> string \<Rightarrow> string option" where
  "codesAfterCycle v code =
     (if v = '''' then None
      else if code \<in> set (codesOf v) then removeStatusCode v code
      else Some v)"

lemma add_remove_cycle:
  assumes "CHR '','' \<notin> set code"
  shows "removeStatusCode (addStatusCode v code) code = codesAfterCycle v code"
proof (cases "v = '''' \<or> code \<in> set (codesOf v)")
  case True
  then show ?thesis
    using codes.remove_add_empty [OF assms]
    by (auto simp: codesAfterCycle_def addStatusCode_def)
next
  case False
  then have "codesOf v \<noteq> []" by simp
  with False codes.remove_add [OF assms] show ?thesis
    by (simp add: codesAfterCycle_def)
qed

lemma ingressAfterUnidle_annotations:
  assumes "ing_annotations i ''nginx.ingress.kubernetes.io/custom-http-errors'' = Some c"
    and "ing_annotations i ''traefik.ingress.kubernetes.io/router.middlewares'' = Some m"
  shows "ing_annotations (ingressAfterUnidle i) ''nginx.ingress.kubernetes.io/custom-http-errors''
           = removeStatusCode c ''503''"
    and "ing_annotations (ingressAfterUnidle i) ''traefik.ingress.kubernetes.io/router.middlewares''
           = removeStatusCode m (traefikMiddleware (ing_namespace i))"
    and "ing_labels (ingressAfterUnidle i) = (ing_labels i)(''idling.amazee.io/idled'' \<mapsto> ''false'')"
  using assms
  by (auto simp: ingressAfterUnidle_def restorePatch_def Let_def mergeIngress_def mergeMeta_def
      split: option.splits)

text \<open>
  C22. Idling and unidling an ingress gives both annotations back: an annotation that was missing
  or empty is missing again, one without the code is as it was; but a 503 or a middleware
  the user had listed before is taken out with ours.
\<close>

theorem ingress_roundtrip:
  assumes "CHR '','' \<notin> set (ing_namespace i)"
  shows "ing_annotations (ingressAfterUnidle (ingressAfterIdle i))
           ''nginx.ingress.kubernetes.io/custom-http-errors''
         = codesAfterCycle (annotationValue (ing_annotations i)
             ''nginx.ingress.kubernetes.io/custom-http-errors'') ''503''
     \<and> ing_annotations (ingressAfterUnidle (ingressAfterIdle i))
           ''traefik.ingress.kubernetes.io/router.middlewares''
         = codesAfterCycle (annotationValue (ing_annotations i)
             ''traefik.ingress.kubernetes.io/router.middlewares'') (traefikMiddleware (ing_namespace i))
     \<and> ing_labels (ingressAfterUnidle (ingressAfterIdle i)) ''idling.amazee.io/idled'' = Some ''false''"
proof -
  have c: "ing_annotations (ingressAfterIdle i) ''nginx.ingress.kubernetes.io/custom-http-errors''
      = Some (addStatusCode (annotationValue (ing_annotations i)
          ''nginx.ingress.kubernetes.io/custom-http-errors'') ''503'')"
    and m: "ing_annotations (ingressAfterIdle i) ''traefik.ingress.kubernetes.io/router.middlewares''
      = Some (addStatusCode (annotationValue (ing_annotations i)
          ''traefik.ingress.kubernetes.io/router.middlewares'') (traefikMiddleware (ing_namespace i)))"
    and n: "ing_namespace (ingressAfterIdle i) = ing_namespace i"
    by (simp_all add: ingressAfterIdle_def mergeIngress_def mergeMeta_def ingressPatch_def Let_def
        annotationValue_def)
  show ?thesis
    using ingressAfterUnidle_annotations [OF c m] add_remove_cycle [OF no_comma_traefik [OF assms]]
      add_remove_cycle [of "''503''"]
    by (simp add: n)
qed

end
