(* ===== verification/IngressHandler.thy ===== *)
theory IngressHandler
  imports Http Unidle
begin

text \<open>
  The custom error backend: \<open>ingressHandler\<close>, \<open>genericError\<close>, \<open>verifyRequest\<close> and
  \<open>setMetrics\<close> of unidler/handler.go, the constants, the favicon and the routes of
  unidler/unidler.go.  The ingress controller sends a request for an idled environment here;
  the handler serves a page and, when the request may and is verified, starts \<open>Unidle\<close> in a
  goroutine, at most one per namespace as long as the lock is seen.
\<close>

section \<open>Constants\<close>

definition FormatHeader :: string where "FormatHeader = ''X-Format''"
definition CodeHeader :: string where "CodeHeader = ''X-Code''"
definition ContentType :: string where "ContentType = ''Content-Type''"
definition OriginalURI :: string where "OriginalURI = ''X-Original-URI''"
definition NamespaceHeader :: string where "NamespaceHeader = ''X-Namespace''"
definition IngressName :: string where "IngressName = ''X-Ingress-Name''"
definition ServiceName :: string where "ServiceName = ''X-Service-Name''"
definition ServicePort :: string where "ServicePort = ''X-Service-Port''"
definition RequestID :: string where "RequestID = ''X-Request-ID''"
definition AergiaHeader :: string where "AergiaHeader = ''X-Aergia''"
definition AergiaVerifier :: string where "AergiaVerifier = ''X-Aergia-Verifier''"
definition CacheControl :: string where "CacheControl = ''Cache-Control''"

section \<open>What the handler reads from the request\<close>

definition requestFormat :: "http_request \<Rightarrow> string" where
  "requestFormat r =
     (let format = headerGet r FormatHeader;
          format = (if format = '''' then ''text/html'' else format)
      in if List.member format (CHR '','') then hd (splitOn (CHR '','') format) else format)"

definition responseCode :: "unidler \<Rightarrow> http_request \<Rightarrow> int" where
  "responseCode h r =
     (case atoi (headerGet r CodeHeader) of
        (code, ok) \<Rightarrow> if ok then code else DefaultHTTPResponseCode h)"

definition requestNamespace :: "http_request \<Rightarrow> string" where
  "requestNamespace r =
     (let nsParam = queryGet r ''namespace''
      in if nsParam \<noteq> '''' then nsParam else headerGet r NamespaceHeader)"

text \<open>
  The error of \<open>url.Parse\<close> is logged and its nil result dereferenced by \<open>Hostname\<close>.
\<close>

definition requestHostname :: "'w platform \<Rightarrow> http_request \<Rightarrow> string outcome" where
  "requestHostname P r =
     (let urlParam = queryGet r ''url''
      in if urlParam \<noteq> '''' then
           (case urlHostname P urlParam of
              None \<Rightarrow> Panic ''nil pointer dereference''
            | Some hostname \<Rightarrow> Ok hostname)
         else Ok '''')"

definition debugHeaders :: "'w platform \<Rightarrow> http_request \<Rightarrow> ('w st, unit) go" where
  "debugHeaders P r =
     (if getenv P ''DEBUG'' = ''true'' then
        forRange (\<lambda>k acc. andThen (setHeader k (headerGet r k)) (\<lambda>_. ret (Continue acc)))
          [FormatHeader, CodeHeader, ContentType, OriginalURI, NamespaceHeader, IngressName,
           ServiceName, ServicePort, RequestID] ()
      else ret ())"

section \<open>Finding the ingress of a host\<close>

text \<open>
  The innermost loop ranges over the runes of one rule's host, each compared with the whole
  hostname; the last match wins.
\<close>

fun matchRunes :: "string \<Rightarrow> ingress \<Rightarrow> string list \<Rightarrow> ingress \<Rightarrow> ingress" where
  "matchRunes hostname ingressss [] ingress = ingress"
| "matchRunes hostname ingressss (host # hosts) ingress =
     matchRunes hostname ingressss hosts (if host = hostname then ingressss else ingress)"

fun matchRules :: "string \<Rightarrow> ingress \<Rightarrow> string list \<Rightarrow> ingress \<Rightarrow> ingress" where
  "matchRules hostname ingressss [] ingress = ingress"
| "matchRules hostname ingressss (rule # rules) ingress =
     matchRules hostname ingressss rules (matchRunes hostname ingressss (runeStrings rule) ingress)"

fun matchIngresses :: "string \<Rightarrow> ingress list \<Rightarrow> ingress \<Rightarrow> ingress" where
  "matchIngresses hostname [] ingress = ingress"
| "matchIngresses hostname (ingressss # is) ingress =
     matchIngresses hostname is (matchRules hostname ingressss (ing_hosts ingressss) ingress)"

datatype ingress_lookup = FoundIngress ingress | IngressNotReadable | IngressesNotListed

definition lookupIngress ::
  "'w platform \<Rightarrow> http_request \<Rightarrow> string \<Rightarrow> string \<Rightarrow> ('w st, ingress_lookup) go" where
  "lookupIngress P r ns hostname =
     (let ingressName = headerGet r IngressName
      in if ingressName \<noteq> '''' then
           andThen (GetIngress P ns ingressName) (\<lambda>x.
             case x of Inl err \<Rightarrow> ret IngressNotReadable | Inr ingress \<Rightarrow> ret (FoundIngress ingress))
         else
           andThen (ListIngresses P \<lparr>lo_namespace = Some ns, lo_selector = None\<rparr>) (\<lambda>x.
             case x of
               Inl err \<Rightarrow> ret IngressesNotListed
             | Inr ingresses \<Rightarrow> ret (FoundIngress (matchIngresses hostname ingresses emptyIngress))))"

section \<open>Request verification\<close>

definition verificationDisabled :: "labels \<Rightarrow> bool" where
  "verificationDisabled annotations =
     (case annotations ''idling.amazee.io/disable-request-verification'' of
        Some val \<Rightarrow> fst (parseBool val)
      | None \<Rightarrow> False)"

definition verifyRequest ::
  "unidler \<Rightarrow> http_request \<Rightarrow> namespace \<Rightarrow> ingress \<Rightarrow> ('w st, string \<times> bool) go" where
  "verifyRequest h r ns ingress =
     (if VerifiedUnidling h then
        if verificationDisabled (ing_annotations ingress) then ret ('''', True)
        else if verificationDisabled (ns_annotations ns) then ret ('''', True)
        else
          (let signedNamespace = hmacSigner (ns_name ns) (bytesOf (VerifiedSecret h));
               verifier = headerGet r AergiaVerifier
           in andThen (countMetric (\<lambda>m. m\<lparr>verificationRequests := verificationRequests m + 1\<rparr>)) (\<lambda>_.
                ret (signedNamespace,
                     hmacVerifier (ns_name ns) verifier (bytesOf (VerifiedSecret h)))))
      else ret ('''', True))"

section \<open>Pages and metrics\<close>

definition statusTexts :: "(int \<times> string) list" where
  "statusTexts =
     [(100, ''Continue''), (101, ''Switching Protocols''), (102, ''Processing''), (103, ''Early Hints''),
      (200, ''OK''), (201, ''Created''), (202, ''Accepted''), (203, ''Non-Authoritative Information''),
      (204, ''No Content''), (205, ''Reset Content''), (206, ''Partial Content''), (207, ''Multi-Status''),
      (208, ''Already Reported''), (226, ''IM Used''),
      (300, ''Multiple Choices''), (301, ''Moved Permanently''), (302, ''Found''), (303, ''See Other''),
      (304, ''Not Modified''), (305, ''Use Proxy''), (307, ''Temporary Redirect''),
      (308, ''Permanent Redirect''),
      (400, ''Bad Request''), (401, ''Unauthorized''), (402, ''Payment Required''), (403, ''Forbidden''),
      (404, ''Not Found''), (405, ''Method Not Allowed''), (406, ''Not Acceptable''),
      (407, ''Proxy Authentication Required''), (408, ''Request Timeout''), (409, ''Conflict''),
      (410, ''Gone''), (411, ''Length Required''), (412, ''Precondition Failed''),
      (413, ''Request Entity Too Large''), (414, ''Request URI Too Long''),
      (415, ''Unsupported Media Type''), (416, ''Requested Range Not Satisfiable''),
      (417, ''Expectation Failed''), (418, ''I'' @ [CHR 0x27] @ ''m a teapot''), (421, ''Misdirected Request''),
      (422, ''Unprocessable Entity''), (423, ''Locked''), (424, ''Failed Dependency''),
      (425, ''Too Early''), (426, ''Upgrade Required''), (428, ''Precondition Required''),
      (429, ''Too Many Requests''), (431, ''Request Header Fields Too Large''),
      (451, ''Unavailable For Legal Reasons''),
      (500, ''Internal Server Error''), (501, ''Not Implemented''), (502, ''Bad Gateway''),
      (503, ''Service Unavailable''), (504, ''Gateway Timeout''), (505, ''HTTP Version Not Supported''),
      (506, ''Variant Also Negotiates''), (507, ''Insufficient Storage''), (508, ''Loop Detected''),
      (510, ''Not Extended''), (511, ''Network Authentication Required'')]"

definition statusText :: "int \<Rightarrow> string" where
  "statusText code = (case map_of statusTexts code of Some t \<Rightarrow> t | None \<Rightarrow> '''')"

text \<open>\<open>template.Must\<close> panics on a file that does not parse; a failed execution is ignored.\<close>

definition servePage :: "'w platform \<Rightarrow> string \<Rightarrow> pageData \<Rightarrow> ('w st, unit) go" where
  "servePage P file d =
     (if templateParses P file then Write (Page file d) else panic ''template.Must'')"

definition genericError ::
  "'w platform \<Rightarrow> unidler \<Rightarrow> http_request \<Rightarrow> string \<Rightarrow> string \<Rightarrow> int \<Rightarrow> ('w st, unit) go" where
  "genericError P h r format path code =
     servePage P (path @ ''/error.html'')
       \<lparr>pd_RefreshInterval = RefreshInterval h, pd_FormatHeader = headerGet r FormatHeader,
        pd_CodeHeader = headerGet r CodeHeader, pd_ContentType = headerGet r ContentType,
        pd_OriginalURI = headerGet r OriginalURI, pd_Namespace = headerGet r NamespaceHeader,
        pd_IngressName = headerGet r IngressName, pd_ServiceName = headerGet r ServiceName,
        pd_ServicePort = headerGet r ServicePort, pd_RequestID = headerGet r RequestID,
        pd_ErrorCode = formatInt code, pd_ErrorMessage = statusText code, pd_Verifier = ''''\<rparr>"

definition setMetrics :: "'w platform \<Rightarrow> http_request \<Rightarrow> int \<Rightarrow> ('w st, unit) go" where
  "setMetrics P r start =
     andThen (gets (\<lambda>s. timeSince (clock P (world s)) start)) (\<lambda>duration.
     let proto = formatInt (rq_protoMajor r) @ ''.'' @ formatInt (rq_protoMinor r) in
     andThen (countMetric (\<lambda>m. m\<lparr>requestCount := (requestCount m)(proto := requestCount m proto + 1)\<rparr>)) (\<lambda>_.
     countMetric (\<lambda>m. m\<lparr>requestDuration :=
        (requestDuration m)(proto := requestDuration m proto @ [duration])\<rparr>)))"

section \<open>Starting Unidle\<close>

text \<open>\<open>Load\<close>, then \<open>LoadOrStore\<close>, whose answer is thrown away, then \<open>go h.Unidle\<close>.\<close>

definition startUnidle :: "string \<Rightarrow> namespace \<Rightarrow> ('w st, unit) go" where
  "startUnidle ns namespace =
     andThen (gets (\<lambda>s. locks s ns)) (\<lambda>loaded.
       if loaded = None then
         andThen (modify (\<lambda>s. s\<lparr>locks := (locks s)(ns \<mapsto>
             (case locks s ns of Some v \<Rightarrow> v | None \<Rightarrow> ns))\<rparr>)) (\<lambda>_.
         modify (\<lambda>s. s\<lparr>spawned := spawned s @ [namespace]\<rparr>))
       else ret ())"

section \<open>The handler\<close>

definition unidlePage ::
  "unidler \<Rightarrow> http_request \<Rightarrow> string \<Rightarrow> ingress \<Rightarrow> int \<Rightarrow> string \<Rightarrow> pageData" where
  "unidlePage h r ns ingress code signedNamespace =
     \<lparr>pd_RefreshInterval = RefreshInterval h, pd_FormatHeader = headerGet r FormatHeader,
      pd_CodeHeader = headerGet r CodeHeader, pd_ContentType = headerGet r ContentType,
      pd_OriginalURI = headerGet r OriginalURI, pd_Namespace = ns, pd_IngressName = ing_name ingress,
      pd_ServiceName = headerGet r ServiceName, pd_ServicePort = headerGet r ServicePort,
      pd_RequestID = headerGet r RequestID, pd_ErrorCode = formatInt code, pd_ErrorMessage = '''',
      pd_Verifier = signedNamespace\<rparr>"

text \<open>The part for a request that may wake the environment.\<close>

definition serveAllowed ::
  "'w platform \<Rightarrow> unidler \<Rightarrow> string \<Rightarrow> http_request \<Rightarrow> string \<Rightarrow> namespace \<Rightarrow> ingress \<Rightarrow> int
     \<Rightarrow> string \<Rightarrow> bool \<Rightarrow> ('w st, unit) go" where
  "serveAllowed P h path r ns namespace ingress code signedNamespace verified =
     andThen (checkForceScaled P ns) (\<lambda>forceScaled.
     andThen
       (if forceScaled then ret (path @ ''/forced.html'')
        else
          andThen
            (if verified then
               andThen (countMetric (\<lambda>m. m\<lparr>allowedRequests := allowedRequests m + 1\<rparr>)) (\<lambda>_.
               andThen (setHeader ''X-Aergia-Allowed'' ''true'') (\<lambda>_.
               startUnidle ns namespace))
             else
               andThen (countMetric (\<lambda>m. m\<lparr>verificationRequired := verificationRequired m + 1\<rparr>)) (\<lambda>_.
               setHeader ''X-Aergia-Verification-Required'' ''true'')) (\<lambda>_.
          ret (path @ ''/unidle.html''))) (\<lambda>file.
     servePage P file (unidlePage h r ns ingress code signedNamespace)))"

text \<open>The part after the namespace and the ingress were read.\<close>

definition serveIngress ::
  "'w platform \<Rightarrow> unidler \<Rightarrow> string \<Rightarrow> http_request \<Rightarrow> string \<Rightarrow> string \<Rightarrow> namespace \<Rightarrow> ingress \<Rightarrow> int
     \<Rightarrow> ('w st, unit) go" where
  "serveIngress P h path r format ns namespace ingress code =
     andThen (verifyRequest h r namespace ingress) (\<lambda>(signedNamespace, verified).
     let xForwardedFor = splitOn (CHR '','') (headerGet r ''X-Forwarded-For'');
         trueClientIP = headerGet r ''True-Client-IP'';
         requestUserAgent = headerGet r ''User-Agent'';
         allowUnidle = checkAccess (matchString P) h (ns_annotations namespace) (ing_annotations ingress)
                         requestUserAgent trueClientIP xForwardedFor
     in if allowUnidle then
          serveAllowed P h path r ns namespace ingress code signedNamespace verified
        else
          andThen (setHeader ''X-Aergia-Denied'' ''true'') (\<lambda>_.
          andThen (countMetric (\<lambda>m. m\<lparr>blockedRequests := blockedRequests m + 1\<rparr>)) (\<lambda>_.
          genericError P h r format path 403)))"

text \<open>The answer to a request that names no namespace.\<close>

definition serveUnnamed ::
  "'w platform \<Rightarrow> unidler \<Rightarrow> string \<Rightarrow> http_request \<Rightarrow> string \<Rightarrow> int \<Rightarrow> ('w st, unit) go" where
  "serveUnnamed P h path r format code =
     andThen (setHeader ''X-Aergia-Denied'' ''true'') (\<lambda>_.
     andThen (setHeader ''X-Aergia-No-Namespace'' ''true'') (\<lambda>_.
     andThen (countMetric (\<lambda>m. m\<lparr>noNamespaceRequests := noNamespaceRequests m + 1\<rparr>)) (\<lambda>_.
     genericError P h r format path code)))"

definition ingressHandler ::
  "'w platform \<Rightarrow> unidler \<Rightarrow> string \<Rightarrow> http_request \<Rightarrow> ('w st, unit) go" where
  "ingressHandler P h path r =
     andThen (gets (\<lambda>s. clock P (world s))) (\<lambda>start.
     andThen (debugHeaders P r) (\<lambda>_.
     let format = requestFormat r in
     andThen (setHeader ContentType format) (\<lambda>_.
     andThen (setHeader AergiaHeader ''true'') (\<lambda>_.
     andThen (setHeader CacheControl ''private,no-store'') (\<lambda>_.
     let code = responseCode h r in
     andThen (WriteHeader code) (\<lambda>_.
     let ns = requestNamespace r in
     andThen (liftO (requestHostname P r)) (\<lambda>hostname.
     if ns \<noteq> '''' then
       andThen (GetNamespace P ns) (\<lambda>g.
         case g of
           Inl err \<Rightarrow> ret ()
         | Inr namespace \<Rightarrow>
           andThen (lookupIngress P r ns hostname) (\<lambda>l.
             case l of
               IngressNotReadable \<Rightarrow>
                 andThen (genericError P h r format path 400) (\<lambda>_. setMetrics P r start)
             | IngressesNotListed \<Rightarrow> ret ()
             | FoundIngress ingress \<Rightarrow>
                 andThen (serveIngress P h path r format ns namespace ingress code) (\<lambda>_.
                 setMetrics P r start)))
     else
       andThen (serveUnnamed P h path r format code) (\<lambda>_. setMetrics P r start))))))))"

section \<open>Routes\<close>

definition favicon :: string where
  "favicon = ''data:image/x-icon;base64,iVBORw0KGgoAAAANSUhEUgAAAAEAAAABCAYAAAAfFcSJAAAADUlEQVR42mNk+M9QDwADhgGAWjR9awAAAABJRU5ErkJggg==''"

definition faviconHandler :: "http_request \<Rightarrow> ('w st, unit) go" where
  "faviconHandler r =
     andThen (setHeader AergiaHeader ''true'') (\<lambda>_.
     andThen (setHeader ''Content-Type'' ''image/x-icon'') (\<lambda>_.
     andThen (setHeader ''Cache-Control'' ''public, max-age=7776000'') (\<lambda>_.
     Write (Text (favicon @ [CHR 0x0A])))))"

definition ErrFilesPathVar :: string where "ErrFilesPathVar = ''ERROR_FILES_PATH''"

definition errFilesPath :: "'w platform \<Rightarrow> string" where
  "errFilesPath P =
     (if getenv P ErrFilesPathVar \<noteq> '''' then getenv P ErrFilesPathVar else ''/www'')"

text \<open>The two patterns of the mux, for a path the mux does not redirect first.\<close>

definition route :: "'w platform \<Rightarrow> unidler \<Rightarrow> http_request \<Rightarrow> ('w st, unit) go" where
  "route P h r =
     (if rq_path r = ''/favicon.ico'' then faviconHandler r
      else ingressHandler P h (errFilesPath P) r)"

section \<open>The server\<close>

text \<open>
  \<open>Run\<close>: the address and the handler of the server; \<open>ListenAndServe\<close>, a parameter, returns when it
  cannot go on, and an error of it ends the process with a message.
\<close>

record 'w server =
  srv_addr :: string
  srv_handler :: "http_request \<Rightarrow> ('w st, unit) go"

definition Run :: "('w server \<Rightarrow> gerror option) \<Rightarrow> 'w platform \<Rightarrow> unidler \<Rightarrow> string option" where
  "Run listenAndServe P h =
     (case listenAndServe \<lparr>srv_addr = '':'' @ formatInt (UnidlerHTTPPort h), srv_handler = route P h\<rparr> of
        Some err \<Rightarrow> Some ''unable to start http server''
      | None \<Rightarrow> None)"

end
