(* ===== verification/HandlerProps.thy ===== *)
theory HandlerProps
  imports IngressHandler
begin

text \<open>
  What the custom error backend guarantees: when exactly \<open>Unidle\<close> is started, which status
  and headers the client sees, and which requests make the handler panic.
\<close>

section \<open>What the pieces leave alone\<close>

lemma preserves_setHeader:
  "(\<And>s rp. f (s\<lparr>resp := rp\<rparr>) = f s) \<Longrightarrow> preserves f (setHeader k v)"
  by (rule stepsI) (simp add: setHeader_def)

lemma preserves_WriteHeader:
  "(\<And>s rp. f (s\<lparr>resp := rp\<rparr>) = f s) \<Longrightarrow> preserves f (WriteHeader code)"
  by (rule stepsI) (simp add: WriteHeader_def)

lemma preserves_Write:
  assumes "\<And>s rp. f (s\<lparr>resp := rp\<rparr>) = f s"
  shows "preserves f (Write b)"
  unfolding Write_def
  by (intro preserves_rules pres.steps_modify preserves_WriteHeader assms)
    (simp add: assms split: option.split)

lemma preserves_servePage:
  assumes "\<And>s rp. f (s\<lparr>resp := rp\<rparr>) = f s"
  shows "preserves f (servePage P file d)"
  unfolding servePage_def by (intro preserves_rules preserves_Write assms)

lemma preserves_genericError:
  assumes "\<And>s rp. f (s\<lparr>resp := rp\<rparr>) = f s"
  shows "preserves f (genericError P h r format path code)"
  unfolding genericError_def by (rule preserves_servePage) (rule assms)

lemma preserves_debugHeaders:
  assumes "\<And>s rp. f (s\<lparr>resp := rp\<rparr>) = f s"
  shows "preserves f (debugHeaders P r)"
  unfolding debugHeaders_def by (intro preserves_rules preserves_setHeader assms)

lemma preserves_setMetrics:
  assumes "\<And>s m. f (s\<lparr>metrics := m\<rparr>) = f s"
  shows "preserves f (setMetrics P r start)"
  unfolding setMetrics_def by (intro preserves_rules assms)

lemma preserves_verifyRequest:
  assumes "\<And>s m. f (s\<lparr>metrics := m\<rparr>) = f s"
  shows "preserves f (verifyRequest h r ns ingress)"
  unfolding verifyRequest_def by (intro preserves_rules assms)

lemma preserves_checkForceScaled:
  assumes "\<And>s w cs. f (s\<lparr>world := w, calls := cs\<rparr>) = f s"
  shows "preserves f (checkForceScaled P ns)"
  unfolding checkForceScaled_def ListDeployments_def
  by (intro preserves_rules preserves_request assms)

lemma preserves_GetNamespace:
  assumes "\<And>s w cs. f (s\<lparr>world := w, calls := cs\<rparr>) = f s"
  shows "preserves f (GetNamespace P ns)"
  unfolding GetNamespace_def by (intro preserves_request assms)

lemma preserves_lookupIngress:
  assumes "\<And>s w cs. f (s\<lparr>world := w, calls := cs\<rparr>) = f s"
  shows "preserves f (lookupIngress P r ns hostname)"
  unfolding lookupIngress_def GetIngress_def ListIngresses_def
  by (intro preserves_rules preserves_request assms)

lemmas handler_preserves =
  preserves_rules pres.steps_modify preserves_setHeader preserves_WriteHeader preserves_Write
  preserves_servePage preserves_genericError preserves_debugHeaders preserves_setMetrics
  preserves_verifyRequest preserves_checkForceScaled preserves_GetNamespace preserves_lookupIngress

section \<open>Starting Unidle\<close>

text \<open>The answer of \<open>verifyRequest\<close>, which depends on the request and the annotations only.\<close>

definition requestVerified :: "unidler \<Rightarrow> http_request \<Rightarrow> namespace \<Rightarrow> ingress \<Rightarrow> bool" where
  "requestVerified h r ns ingress \<longleftrightarrow>
     VerifiedUnidling h \<longrightarrow>
       verificationDisabled (ing_annotations ingress) \<or> verificationDisabled (ns_annotations ns)
       \<or> map toLower (headerGet r AergiaVerifier) = hmacSigner (ns_name ns) (bytesOf (VerifiedSecret h))"

definition requestAllowed :: "'w platform \<Rightarrow> unidler \<Rightarrow> http_request \<Rightarrow> namespace \<Rightarrow> ingress \<Rightarrow> bool" where
  "requestAllowed P h r ns ingress \<longleftrightarrow>
     checkAccess (matchString P) h (ns_annotations ns) (ing_annotations ingress)
       (headerGet r ''User-Agent'') (headerGet r ''True-Client-IP'')
       (splitOn (CHR '','') (headerGet r ''X-Forwarded-For''))"

lemma hmacVerifier_lower:
  "hmacVerifier ns token secret \<longleftrightarrow> map toLower token = hmacSigner ns secret"
  by (simp add: tok.verifier_iff hexDecode_iff hmacSigner_def)

lemma verifyRequest_eval:
  "\<exists>sig m. verifyRequest h r ns ingress s = (Ok (sig, requestVerified h r ns ingress), s\<lparr>metrics := m\<rparr>)"
proof -
  have "\<exists>m. s = s\<lparr>metrics := m\<rparr>" by (rule exI [of _ "metrics s"]) simp
  then show ?thesis
    by (auto simp: verifyRequest_def requestVerified_def hmacVerifier_lower Let_def go_eval countMetric_def
        andThen_def)
qed

lemma checkForceScaled_metrics:
  "fst (checkForceScaled P ns (s\<lparr>metrics := m\<rparr>)) = fst (checkForceScaled P ns s)"
  by (simp add: checkForceScaled_def andThen_def liftO_def ret_def panic_def ListDeployments_def request_eval
      split: outcome.split sum.split)

lemma startUnidle_eval:
  "startUnidle ns namespace s =
     (Ok (), if locks s ns = None then s\<lparr>locks := (locks s)(ns \<mapsto> ns), spawned := spawned s @ [namespace]\<rparr> else s)"
  by (simp add: startUnidle_def andThen_def go_eval)

lemma serveAllowed_spawns:
  fixes s :: "'w st"
  shows "let t = snd (serveAllowed P h path r ns namespace ingress code sig verified s);
      go = (verified \<and> locks s ns = None \<and> fst (checkForceScaled P ns s) = Ok False)
    in spawned t = spawned s @ (if go then [namespace] else [])
       \<and> locks t = (if go then (locks s)(ns \<mapsto> ns) else locks s)"
proof -
  obtain f u where c: "checkForceScaled P ns s = (f, u)" by fastforce
  have u: "locks u = locks s" "spawned u = spawned s"
    using stepsD [OF preserves_checkForceScaled [of locks P ns], of s]
      stepsD [OF preserves_checkForceScaled [of spawned P ns], of s] c by simp_all
  have page: "spawned (snd (servePage P fl d v)) = spawned v" "locks (snd (servePage P fl d v)) = locks v"
    for fl d v
    by (rule stepsD [OF preserves_servePage], simp)+
  show ?thesis
    unfolding Let_def serveAllowed_def
    using u page
    by (cases f) (auto simp: c andThen_def go_eval countMetric_def setHeader_def startUnidle_eval)
qed

lemma spawned_serveIngress:
  "let t = snd (serveIngress P h path r format ns namespace ingress code s);
       go = (requestAllowed P h r namespace ingress \<and> requestVerified h r namespace ingress
                 \<and> locks s ns = None \<and> fst (checkForceScaled P ns s) = Ok False)
   in spawned t = spawned s @ (if go then [namespace] else [])
       \<and> locks t = (if go then (locks s)(ns \<mapsto> ns) else locks s)"
proof -
  obtain sig m where v: "verifyRequest h r namespace ingress s
      = (Ok (sig, requestVerified h r namespace ingress), s\<lparr>metrics := m\<rparr>)"
    using verifyRequest_eval by blast
  have err: "spawned (snd (genericError P h r format path c w)) = spawned w"
    "locks (snd (genericError P h r format path c w)) = locks w" for c w
    by (rule stepsD [OF preserves_genericError], simp)+
  show ?thesis
    unfolding serveIngress_def Let_def requestAllowed_def [symmetric]
    using err serveAllowed_spawns [unfolded Let_def, of P h path r ns namespace ingress code sig _ "s\<lparr>metrics := m\<rparr>"]
    by (auto simp: v andThen_def countMetric_def setHeader_def checkForceScaled_metrics)
qed

text \<open>
  C3. Once namespace and ingress are read, \<open>Unidle\<close> is started, for that namespace, and its
  lock taken, exactly when the request passes the access rules, is verified, the
  environment is not force-scaled and the lock is free; otherwise neither happens.
\<close>

theorem serveIngress_starts_unidle:
  "let t = snd (serveIngress P h path r format ns namespace ingress code s);
       go = (requestAllowed P h r namespace ingress \<and> requestVerified h r namespace ingress
                 \<and> locks s ns = None \<and> fst (checkForceScaled P ns s) = Ok False)
   in spawned t = spawned s @ (if go then [namespace] else [])
       \<and> locks t = (if go then (locks s)(ns \<mapsto> ns) else locks s)"
  by (rule spawned_serveIngress)

text \<open>
  A whole request as a relation on states: either it starts nothing, or it starts one
  \<open>Unidle\<close> under the conditions below.  A second start would find the lock taken, so the
  relation is transitive.
\<close>

definition mayStart :: "'w platform \<Rightarrow> unidler \<Rightarrow> http_request \<Rightarrow> namespace \<Rightarrow> bool" where
  "mayStart P h r namespace \<longleftrightarrow>
     requestNamespace r \<noteq> ''''
     \<and> (\<exists>w. fst (getNamespace P (requestNamespace r) w) = Inr namespace)
     \<and> (\<exists>ingress. requestAllowed P h r namespace ingress \<and> requestVerified h r namespace ingress)
     \<and> (\<exists>u. fst (checkForceScaled P (requestNamespace r) u) = Ok False)"

definition startsAtMostOne ::
  "'w platform \<Rightarrow> unidler \<Rightarrow> http_request \<Rightarrow> 'w st \<Rightarrow> 'w st \<Rightarrow> bool" where
  "startsAtMostOne P h r s t \<longleftrightarrow>
     spawned t = spawned s \<and> locks t = locks s
     \<or> (\<exists>namespace. mayStart P h r namespace \<and> locks s (requestNamespace r) = None
          \<and> spawned t = spawned s @ [namespace]
          \<and> locks t = (locks s)(requestNamespace r \<mapsto> requestNamespace r))"

interpretation one: effect "startsAtMostOne P h r :: 'w st \<Rightarrow> 'w st \<Rightarrow> bool" for P h r
  by unfold_locales (auto simp: startsAtMostOne_def)

lemma starts_none:
  assumes "preserves spawned m" and "preserves locks m"
  shows "steps (startsAtMostOne P h r) m"
  using stepsD [OF assms(1)] stepsD [OF assms(2)]
  by (intro stepsI) (simp add: startsAtMostOne_def)

lemma starts_serveIngress:
  assumes "requestNamespace r \<noteq> ''''"
    and "\<exists>w. fst (getNamespace P (requestNamespace r) w) = Inr namespace"
  shows "steps (startsAtMostOne P h r)
           (serveIngress P h path r format (requestNamespace r) namespace ingress code)"
proof (rule stepsI)
  fix s
  show "startsAtMostOne P h r s
          (snd (serveIngress P h path r format (requestNamespace r) namespace ingress code s))"
    using assms spawned_serveIngress [of P h path r format "requestNamespace r" namespace ingress code s]
    by (auto simp: startsAtMostOne_def mayStart_def Let_def split: if_splits)
qed

lemma steps_lookup:
  "(\<And>i. l = FoundIngress i \<Longrightarrow> steps R (f i)) \<Longrightarrow> (l = IngressNotReadable \<Longrightarrow> steps R m)
    \<Longrightarrow> (l = IngressesNotListed \<Longrightarrow> steps R n)
    \<Longrightarrow> steps R (case l of FoundIngress i \<Rightarrow> f i | IngressNotReadable \<Rightarrow> m | IngressesNotListed \<Rightarrow> n)"
  by (simp split: ingress_lookup.split)

lemma GetNamespace_result:
  "fst (GetNamespace P ns s) = Ok (Inr namespace) \<Longrightarrow> \<exists>w. fst (getNamespace P ns w) = Inr namespace"
  by (auto simp: GetNamespace_def request_eval)


section \<open>What the client sees\<close>

lemma keys:
  "canonicalKey FormatHeader = ''X-Format''" "canonicalKey CodeHeader = ''X-Code''"
  "canonicalKey ContentType = ''Content-Type''" "canonicalKey OriginalURI = ''X-Original-Uri''"
  "canonicalKey NamespaceHeader = ''X-Namespace''" "canonicalKey IngressName = ''X-Ingress-Name''"
  "canonicalKey ServiceName = ''X-Service-Name''" "canonicalKey ServicePort = ''X-Service-Port''"
  "canonicalKey RequestID = ''X-Request-Id''" "canonicalKey AergiaHeader = ''X-Aergia''"
  "canonicalKey CacheControl = ''Cache-Control''" "canonicalKey AergiaVerifier = ''X-Aergia-Verifier''"
  "canonicalKey ''X-Forwarded-For'' = ''X-Forwarded-For''"
  "canonicalKey ''True-Client-IP'' = ''True-Client-Ip''" "canonicalKey ''User-Agent'' = ''User-Agent''"
  by (simp_all add: canonicalKey_def FormatHeader_def CodeHeader_def ContentType_def OriginalURI_def
      NamespaceHeader_def IngressName_def ServiceName_def ServicePort_def RequestID_def AergiaHeader_def
      CacheControl_def AergiaVerifier_def toUpper_def toLower_def isLower_def Let_def char_of_def bit_iff_odd)

text \<open>The status line is written once: nothing after it changes it.\<close>

abbreviation statusIs :: "int \<times> labels \<Rightarrow> 'w st \<Rightarrow> bool" where
  "statusIs x s \<equiv> r_status (resp s) = Some x"

abbreviation keepsStatus :: "int \<times> labels \<Rightarrow> ('w st, 'a) go \<Rightarrow> bool" where
  "keepsStatus x m \<equiv> steps (\<lambda>s t. statusIs x s \<longrightarrow> statusIs x t) m"

lemma keepsStatus_resp: "preserves resp m \<Longrightarrow> keepsStatus x m"
  by (erule steps_mono) simp

lemma keepsStatus_request: "keepsStatus x (request c f)"
  by (rule keepsStatus_resp) (simp add: preserves_request)

lemma keepsStatus_countMetric: "keepsStatus x (countMetric f)"
  by (rule keepsStatus_resp) (simp add: preserves_countMetric)

lemma keepsStatus_setHeader: "keepsStatus x (setHeader k v)"
  by (rule stepsI) (simp add: setHeader_def)

lemma keepsStatus_WriteHeader: "keepsStatus x (WriteHeader c)"
  by (rule stepsI) (simp add: WriteHeader_def)

lemma keepsStatus_Write: "keepsStatus x (Write b)"
  unfolding Write_def
  by (intro kept.steps_andThen keepsStatus_WriteHeader kept.steps_modify)
    (auto split: option.split prod.split)

lemma keepsStatus_startUnidle: "keepsStatus x (startUnidle ns namespace)"
  by (rule stepsI) (simp add: startUnidle_eval)

lemmas keepsStatus_rules =
  kept.steps_rules keepsStatus_request keepsStatus_countMetric keepsStatus_setHeader
  keepsStatus_WriteHeader keepsStatus_Write keepsStatus_startUnidle steps_lookup

lemma keepsStatus_serveIngress:
  "keepsStatus x (serveIngress P h path r format ns namespace ingress code)"
  unfolding serveIngress_def serveAllowed_def verifyRequest_def genericError_def servePage_def
    checkForceScaled_def ListDeployments_def
  by (intro keepsStatus_rules)

lemma debugHeaders_eval:
  "\<exists>hdr. debugHeaders P r s = (Ok (), s\<lparr>resp := (resp s)\<lparr>r_header := hdr\<rparr>\<rparr>)
     \<and> (\<forall>k \<in> {''X-Aergia-Denied'', ''X-Aergia-Allowed'', ''X-Aergia-Verification-Required'',
               ''X-Aergia-No-Namespace''}. hdr k = r_header (resp s) k)"
proof (cases "getenv P ''DEBUG'' = ''true''")
  case True
  then show ?thesis
    by (auto simp: debugHeaders_def ret_def andThen_def setHeader_def keys)
next
  case False
  then show ?thesis
    by (intro exI [of _ "r_header (resp s)"]) (simp add: debugHeaders_def ret_def)
qed

text \<open>
  C27. Whatever the handler decides, the client gets the status of the \<open>X-Code\<close> header, or the
  default one, never the 400 or 403 of the error pages, and none of the four markers
  (denied, allowed, verification required, no namespace): they are set on the header map
  after the status line has gone out.
\<close>

theorem client_sees_error_code:
  assumes "resp s = newResponse" and "200 \<le> responseCode h r" and "responseCode h r \<le> 999"
  shows "\<exists>hdr. r_status (resp (snd (ingressHandler P h path r s))) = Some (responseCode h r, hdr)
     \<and> hdr ''Content-Type'' = Some (requestFormat r) \<and> hdr ''X-Aergia'' = Some ''true''
     \<and> (\<forall>k \<in> {''X-Aergia-Denied'', ''X-Aergia-Allowed'', ''X-Aergia-Verification-Required'',
               ''X-Aergia-No-Namespace''}. hdr k = None)"
proof -
  obtain hdr0 where d: "debugHeaders P r s = (Ok (), s\<lparr>resp := (resp s)\<lparr>r_header := hdr0\<rparr>\<rparr>)"
    and none: "\<forall>k \<in> {''X-Aergia-Denied'', ''X-Aergia-Allowed'', ''X-Aergia-Verification-Required'',
               ''X-Aergia-No-Namespace''}. hdr0 k = None"
    using debugHeaders_eval [of P r s] assms(1) by (auto simp: newResponse_def)
  let ?hdr = "hdr0(''Content-Type'' \<mapsto> requestFormat r, ''X-Aergia'' \<mapsto> ''true'',
                   ''Cache-Control'' \<mapsto> ''private,no-store'')"
  let ?rest = "\<lambda>start. andThen (liftO (requestHostname P r)) (\<lambda>hostname.
     if requestNamespace r \<noteq> '''' then
       andThen (GetNamespace P (requestNamespace r)) (\<lambda>g.
         case g of
           Inl err \<Rightarrow> ret ()
         | Inr namespace \<Rightarrow>
           andThen (lookupIngress P r (requestNamespace r) hostname) (\<lambda>l.
             case l of
               IngressNotReadable \<Rightarrow>
                 andThen (genericError P h r (requestFormat r) path 400) (\<lambda>_. setMetrics P r start)
             | IngressesNotListed \<Rightarrow> ret ()
             | FoundIngress ingress \<Rightarrow>
                 andThen (serveIngress P h path r (requestFormat r) (requestNamespace r) namespace ingress
                   (responseCode h r)) (\<lambda>_. setMetrics P r start)))
     else
       andThen (serveUnnamed P h path r (requestFormat r) (responseCode h r)) (\<lambda>_. setMetrics P r start))"
  have rest: "keepsStatus (responseCode h r, ?hdr) (?rest start)" for start
    unfolding lookupIngress_def GetNamespace_def GetIngress_def ListIngresses_def serveUnnamed_def genericError_def
      servePage_def setMetrics_def
    by (intro keepsStatus_rules keepsStatus_serveIngress)
  let ?s1 = "s\<lparr>resp := writeStatus (responseCode h r) ((resp s)\<lparr>r_header := ?hdr\<rparr>)\<rparr>"
  have "ingressHandler P h path r s = ?rest (clock P (world s)) ?s1"
    using assms by (simp add: ingressHandler_def andThen_Ok d Let_def setHeader_def keys WriteHeader_def
        newResponse_def)
  moreover have "statusIs (responseCode h r, ?hdr) ?s1"
    using assms by (simp add: writeStatus_def)
  ultimately have "statusIs (responseCode h r, ?hdr) (snd (ingressHandler P h path r s))"
    using stepsD [OF rest, of ?s1] by simp
  with none show ?thesis by (intro exI [of _ ?hdr]) simp
qed

section \<open>Requests that panic\<close>

lemma requests_before_status:
  "preserves (\<lambda>s. (world s, calls s, spawned s, locks s, metrics s)) (debugHeaders P r)"
  by (rule preserves_debugHeaders) simp

text \<open>
  C39. A number in \<open>X-Code\<close> that is no HTTP status makes the handler panic in
  \<open>WriteHeader\<close>, before anything is asked of the cluster or counted: the request is
  aborted, and \<open>Unidle\<close> is not started for it.
\<close>

theorem invalid_code_panics:
  assumes "resp s = newResponse" and "responseCode h r < 100 \<or> responseCode h r > 999"
  shows "\<exists>rp. ingressHandler P h path r s = (Panic ''invalid WriteHeader code'', s\<lparr>resp := rp\<rparr>)"
proof -
  obtain hdr where "debugHeaders P r s = (Ok (), s\<lparr>resp := (resp s)\<lparr>r_header := hdr\<rparr>\<rparr>)"
    using debugHeaders_eval [of P r s] by blast
  with assms show ?thesis
    by (auto simp: ingressHandler_def serveUnnamed_def andThen_def Let_def setHeader_def WriteHeader_def newResponse_def)
qed

text \<open>
  C40. A \<open>url\<close> parameter that \<open>url.Parse\<close> rejects makes the handler dereference a nil URL: it
  panics after the status line, whatever the namespace, and nothing is asked, counted or
  started.
\<close>

theorem bad_url_panics:
  assumes "resp s = newResponse" and "100 \<le> responseCode h r" and "responseCode h r \<le> 999"
    and "queryGet r ''url'' \<noteq> ''''" and "urlHostname P (queryGet r ''url'') = None"
  shows "\<exists>rp. ingressHandler P h path r s = (Panic ''nil pointer dereference'', s\<lparr>resp := rp\<rparr>)"
proof -
  obtain hdr where d: "debugHeaders P r s = (Ok (), s\<lparr>resp := (resp s)\<lparr>r_header := hdr\<rparr>\<rparr>)"
    using debugHeaders_eval [of P r s] by blast
  have u: "requestHostname P r = Panic ''nil pointer dereference''"
    using assms(4,5) by (simp add: requestHostname_def)
  show ?thesis
    using assms(1-3)
    by (auto simp: ingressHandler_def serveUnnamed_def andThen_Ok d Let_def setHeader_def WriteHeader_def newResponse_def u
        panic_def)
qed

section \<open>Finding the ingress of a host\<close>

lemma runeLength_le: "runeLength s \<le> length s"
  by (cases s rule: runeLength.cases) (auto simp: Let_def split: list.split)

text \<open>A rune is one byte below 128, or starts with a byte from 128 up.\<close>

lemma runeStrings_shape:
  "t \<in> set (runeStrings s) \<Longrightarrow> length t = 1 \<or> t \<noteq> [] \<and> byte (hd t) \<ge> 128"
proof (induction s rule: runeStrings.induct)
  case 1
  then show ?case by simp
next
  case (2 a s)
  show ?case
  proof (cases "runeLength (a # s) = 0")
    case True
    with 2 show ?thesis by (auto simp: replacement_def byte_def)
  next
    case False
    have "length (take (runeLength (a # s)) (a # s)) = 1 \<or> byte a \<ge> 128"
      by (cases "byte a < 128") (auto simp: Let_def)
    with 2 False show ?thesis by (auto simp: take_Cons')
  qed
qed

lemma matchRunes_none:
  "(\<And>t. t \<in> set ts \<Longrightarrow> t \<noteq> hostname) \<Longrightarrow> matchRunes hostname i ts e = e"
  by (induction ts) auto

lemma matchRules_none:
  assumes "length hostname \<noteq> 1" and "hostname = [] \<or> byte (hd hostname) < 128"
  shows "matchRules hostname i rules e = e"
proof (induction rules)
  case (Cons rule rules)
  have "t \<noteq> hostname" if "t \<in> set (runeStrings rule)" for t
    using runeStrings_shape [OF that] assms by auto
  with Cons show ?case by (simp add: matchRunes_none)
qed simp


section \<open>Requests without a namespace\<close>

text \<open>
  A request that names no namespace, neither in the query nor in a header, is answered with
  the error page for the status sent, with its text; it is counted, and nothing is asked of
  the cluster and nothing started.
\<close>

theorem no_namespace_request:
  assumes "resp s = newResponse" and "200 \<le> responseCode h r" and "responseCode h r \<le> 999"
    and "bodyAllowed (responseCode h r)" and "requestNamespace r = ''''"
    and "requestHostname P r = Ok hostname" and "templateParses P (path @ ''/error.html'')"
  shows "\<exists>t d. ingressHandler P h path r s = (Ok (), t)
     \<and> world t = world s \<and> calls t = calls s \<and> spawned t = spawned s \<and> locks t = locks s
     \<and> r_body (resp t) = [Page (path @ ''/error.html'') d]
     \<and> pd_ErrorCode d = formatInt (responseCode h r)
     \<and> pd_ErrorMessage d = statusText (responseCode h r)
     \<and> noNamespaceRequests (metrics t) = noNamespaceRequests (metrics s) + 1
     \<and> blockedRequests (metrics t) = blockedRequests (metrics s)"
proof -
  obtain hdr where d: "debugHeaders P r s = (Ok (), s\<lparr>resp := (resp s)\<lparr>r_header := hdr\<rparr>\<rparr>)"
    using debugHeaders_eval [of P r s] by blast
  show ?thesis
    using assms
    by (simp add: ingressHandler_def serveUnnamed_def andThen_Ok d Let_def setHeader_def WriteHeader_def newResponse_def
        writeStatus_def countMetric_def genericError_def servePage_def Write_def setMetrics_def liftO_def)
qed

end
