(* ===== verification/Reconciler.thy ===== *)
theory Reconciler
  imports ServiceIdlerProps Unidle
begin

text \<open>
  The namespace controller, controllers/idling_controller.go and predicates.go: a label on a
  namespace asks for force-scaling, force-idling or unidling; the reconciler does it and
  takes the label off.
\<close>

section \<open>predicates.go\<close>

datatype event = CreateEvent | DeleteEvent | UpdateEvent | GenericEvent

fun namespacePredicates :: "event \<Rightarrow> bool" where
  "namespacePredicates CreateEvent = True"
| "namespacePredicates DeleteEvent = True"
| "namespacePredicates UpdateEvent = True"
| "namespacePredicates GenericEvent = True"

section \<open>Reconcile\<close>

fun ignoreNotFound :: "gerror \<Rightarrow> gerror option" where
  "ignoreNotFound (NotFound m) = None"
| "ignoreNotFound (GoError m) = Some (GoError m)"

definition removeLabelPatch :: "string \<Rightarrow> json" where
  "removeLabelPatch label = JObj [(''metadata'', JObj [(''labels'', JObj [(label, JNull)])])]"

definition hasLabel :: "namespace \<Rightarrow> string \<Rightarrow> bool" where
  "hasLabel namespace label =
     (case ns_labels namespace label of Some val \<Rightarrow> val = ''true'' | None \<Rightarrow> False)"

text \<open>The result is the error \<open>Reconcile\<close> returns; the request's name is the namespace's.\<close>

definition Reconcile :: "'w platform \<Rightarrow> idler \<Rightarrow> string \<Rightarrow> ('w st, gerror option) go" where
  "Reconcile P h req =
     andThen (GetNamespace P req) (\<lambda>r.
       case r of
         Inl err \<Rightarrow> ret (ignoreNotFound err)
       | Inr namespace \<Rightarrow>
         if hasLabel namespace ''idling.amazee.io/force-scaled'' then
           andThen (KubernetesServiceIdler P h namespace False True) (\<lambda>_.
           andThen (Patch P (NamespaceRef (ns_name namespace)) (removeLabelPatch ''idling.amazee.io/force-scaled'')) (\<lambda>e.
           ret None))
         else if hasLabel namespace ''idling.amazee.io/force-idled'' then
           andThen (KubernetesServiceIdler P h namespace True False) (\<lambda>_.
           andThen (Patch P (NamespaceRef (ns_name namespace)) (removeLabelPatch ''idling.amazee.io/force-idled'')) (\<lambda>e.
           ret None))
         else if hasLabel namespace ''idling.amazee.io/unidle'' then
           andThen (Unidle P namespace) (\<lambda>_.
           andThen (Patch P (NamespaceRef (ns_name namespace)) (removeLabelPatch ''idling.amazee.io/unidle'')) (\<lambda>e.
           ret None))
         else ret None)"

text \<open>
  What \<open>SetupWithManager\<close> hands to the builder of the library: the kind to watch, the filter of
  the events and the reconciler.  \<open>Complete\<close>, which registers it, is a parameter.
\<close>

record 'w controller =
  c_watches :: kind
  c_eventFilter :: "event \<Rightarrow> bool"
  c_reconciler :: "string \<Rightarrow> ('w st, gerror option) go"

definition SetupWithManager ::
  "('w controller \<Rightarrow> gerror option) \<Rightarrow> 'w platform \<Rightarrow> idler \<Rightarrow> gerror option" where
  "SetupWithManager complete P h =
     complete \<lparr>c_watches = KNamespace, c_eventFilter = namespacePredicates, c_reconciler = Reconcile P h\<rparr>"

section \<open>Properties\<close>

text \<open>The label a reconcile acts on.\<close>

definition activeLabel :: "namespace \<Rightarrow> string option" where
  "activeLabel namespace =
     find (hasLabel namespace)
       [''idling.amazee.io/force-scaled'', ''idling.amazee.io/force-idled'', ''idling.amazee.io/unidle'']"

lemma reconcile_act:
  assumes "andThen m (\<lambda>_. andThen (Patch P ref p) (\<lambda>e. ret None)) s = (Ok e, t)"
  shows "e = None \<and> last (calls t) = CPatch ref p"
  using assms by (elim andThen_OkE) (auto simp: Patch_def request_eval ret_def)

lemmas active_simps = activeLabel_def find.simps


text \<open>
  C37. A request to force-scale, or to force-idle, that arrives while a build is running is lost:
  nothing is scaled, and the label that asked for it is taken off all the same.
\<close>

theorem force_request_lost_during_build:
  assumes "getNamespace P req (world s) = (Inr namespace, w)"
    and "hasLabel namespace ''idling.amazee.io/force-scaled''"
    and "\<forall>sl \<in> set (svc_Builds (service (Selectors h))). selectorOk P sl"
    and "\<not> svc_SkipBuildCheck (service (Selectors h))"
    and "opts = inNamespace (ns_name namespace)
                  (Requirements (map requirementOf (svc_Builds (service (Selectors h)))))"
    and "listPods P opts w = (Inr builds, w')"
    and "b \<in> set builds" and "pod_phase b = ''Running'' \<or> pod_phase b = ''Pending''"
  shows "fst (Reconcile P h req s) = Ok None
     \<and> calls (snd (Reconcile P h req s)) = calls s @
         [CGet (NamespaceRef req), CList KPod opts,
          CPatch (NamespaceRef (ns_name namespace)) (removeLabelPatch ''idling.amazee.io/force-scaled'')]"
proof -
  let ?s1 = "s\<lparr>world := w, calls := calls s @ [CGet (NamespaceRef req)]\<rparr>"
  have g: "GetNamespace P req s = (Ok (Inr namespace), ?s1)"
    using assms(1) by (simp add: GetNamespace_def request_eval)
  have "KubernetesServiceIdler P h namespace False True ?s1
      = (Ok (), ?s1\<lparr>world := w', calls := calls ?s1 @ [CList KPod opts]\<rparr>)"
    using build_blocks [OF assms(3,4,5) _ assms(7,8), of ?s1 w' False True] assms(6) by simp
  with g assms(2) show ?thesis
    by (simp add: Reconcile_def andThen_Ok Patch_def request_eval ret_def)
qed

text \<open>
  C38. Unidling by label releases the namespace's lock though the reconciler never took it: when
  a request handler holds it for an \<open>Unidle\<close> of its own, the lock is gone while that one
  still runs.
\<close>

theorem reconcile_drops_lock:
  assumes "getNamespace P req (world s) = (Inr namespace, w)"
    and "activeLabel namespace = Some ''idling.amazee.io/unidle''"
  shows "locks (snd (Reconcile P h req s)) (ns_name namespace) = None"
proof -
  let ?s1 = "s\<lparr>world := w, calls := calls s @ [CGet (NamespaceRef req)]\<rparr>"
  obtain r u where u: "Unidle P namespace ?s1 = (r, u)" by fastforce
  have "locks (snd (Unidle P namespace ?s1)) (ns_name namespace) = None"
    by (simp add: Unidle_def deferred_apply)
  then have free: "locks u (ns_name namespace) = None" using u by simp
  have labels: "\<not> hasLabel namespace ''idling.amazee.io/force-scaled''"
    "\<not> hasLabel namespace ''idling.amazee.io/force-idled''" "hasLabel namespace ''idling.amazee.io/unidle''"
    using assms(2) by (auto simp: active_simps split: if_splits)
  have g: "GetNamespace P req s = (Ok (Inr namespace), ?s1)"
    using assms(1) by (simp add: GetNamespace_def request_eval)
  show ?thesis
    using free labels
    by (cases r) (simp_all add: Reconcile_def andThen_def g u Patch_def request_eval ret_def)
qed

end
