(* ===== verification/Locks.thy ===== *)
theory Locks
  imports IngressHandler
begin

text \<open>
  How request handlers and the \<open>Unidle\<close> goroutines they start interleave on the lock of one
  namespace.  \<open>sync.Map\<close> makes each operation atomic; between \<open>Load\<close> and \<open>LoadOrStore\<close>
  (unidler/handler.go, 149-155) and between that and the deferred \<open>Delete\<close> of \<open>Unidle\<close>
  (unidler/unidler.go, 132) other goroutines run.
\<close>

section \<open>The step relation\<close>

text \<open>Where a handler is: before \<open>Load\<close>, between the two operations, before \<open>go\<close>, done.\<close>

datatype hpc = AtLoad | AtStore | AtGo | Served

record lock_state =
  held :: bool
  pc :: "nat \<Rightarrow> hpc"
  unidling :: nat

definition lock_init :: lock_state where
  "lock_init = \<lparr>held = False, pc = (\<lambda>t. AtLoad), unidling = 0\<rparr>"

text \<open>
  Handlers are numbered; each serves one request that is allowed to unidle the namespace.
  \<open>finish\<close> is the end of an \<open>Unidle\<close>, whichever it is: they all delete the one lock.
\<close>

inductive lstep :: "lock_state \<Rightarrow> lock_state \<Rightarrow> bool" where
  load_free: "pc s t = AtLoad \<Longrightarrow> \<not> held s \<Longrightarrow> lstep s (s\<lparr>pc := (pc s)(t := AtStore)\<rparr>)"
| load_held: "pc s t = AtLoad \<Longrightarrow> held s \<Longrightarrow> lstep s (s\<lparr>pc := (pc s)(t := Served)\<rparr>)"
| store: "pc s t = AtStore \<Longrightarrow> lstep s (s\<lparr>held := True, pc := (pc s)(t := AtGo)\<rparr>)"
| go: "pc s t = AtGo \<Longrightarrow> lstep s (s\<lparr>pc := (pc s)(t := Served), unidling := unidling s + 1\<rparr>)"
| finish: "unidling s > 0 \<Longrightarrow> lstep s (s\<lparr>held := False, unidling := unidling s - 1\<rparr>)"

inductive_cases lstepE: "lstep s s'"

abbreviation lsteps :: "lock_state \<Rightarrow> lock_state \<Rightarrow> bool" where
  "lsteps \<equiv> lstep\<^sup>*\<^sup>*"

definition reachable :: "lock_state \<Rightarrow> bool" where
  "reachable s \<longleftrightarrow> lsteps lock_init s"

lemma reachable_induct [consumes 1, case_names init step]:
  assumes "reachable s" and "I lock_init"
    and "\<And>s s'. reachable s \<Longrightarrow> I s \<Longrightarrow> lstep s s' \<Longrightarrow> I s'"
  shows "I s"
proof -
  have "lsteps lock_init s" using assms(1) by (simp add: reachable_def)
  then have "reachable s \<and> I s"
  proof (induction rule: rtranclp_induct)
    case base
    then show ?case using assms(2) by (simp add: reachable_def)
  next
    case (step y z)
    then show ?case using assms(3) by (auto simp: reachable_def)
  qed
  then show ?thesis by simp
qed

lemma reachable_step: "reachable s \<Longrightarrow> lstep s s' \<Longrightarrow> reachable s'"
  by (auto simp: reachable_def)

section \<open>The handler's steps are the handler's code\<close>

text \<open>The lock and the started goroutines of one namespace, as the step relation sees them.\<close>

definition lockView :: "string \<Rightarrow> (nat \<Rightarrow> hpc) \<Rightarrow> 'w st \<Rightarrow> lock_state" where
  "lockView ns f s = \<lparr>held = (locks s ns \<noteq> None), pc = f,
     unidling = length (filter (\<lambda>n. ns_name n = ns) (spawned s))\<rparr>"

lemma startUnidle_apply:
  "startUnidle ns namespace s =
     (Ok (), if locks s ns = None then s\<lparr>locks := (locks s)(ns \<mapsto> ns), spawned := spawned s @ [namespace]\<rparr> else s)"
  by (simp add: startUnidle_def andThen_def go_eval)

text \<open>
  The step relation covers the code: what a handler does when nobody interferes, from
  \<open>Load\<close> to \<open>go\<close>, is a sequence of its steps.
\<close>

theorem startUnidle_is_steps:
  assumes "ns_name namespace = ns" and "f t = AtLoad"
  shows "lsteps (lockView ns f s) (lockView ns (f(t := Served)) (snd (startUnidle ns namespace s)))"
proof (cases "locks s ns = None")
  case True
  let ?v = "lockView ns f s"
  have "lstep ?v (?v\<lparr>pc := f(t := AtStore)\<rparr>)"
    using load_free [of ?v t] True assms(2) by (simp add: lockView_def)
  moreover have "lstep (?v\<lparr>pc := f(t := AtStore)\<rparr>) (?v\<lparr>held := True, pc := f(t := AtGo)\<rparr>)"
    using store [of "?v\<lparr>pc := f(t := AtStore)\<rparr>" t] by simp
  moreover have "lstep (?v\<lparr>held := True, pc := f(t := AtGo)\<rparr>)
      (?v\<lparr>held := True, pc := f(t := Served), unidling := unidling ?v + 1\<rparr>)"
    using go [of "?v\<lparr>held := True, pc := f(t := AtGo)\<rparr>" t] by simp
  ultimately have "lsteps ?v (?v\<lparr>held := True, pc := f(t := Served), unidling := unidling ?v + 1\<rparr>)"
    by (meson converse_rtranclp_into_rtranclp rtranclp.rtrancl_refl)
  moreover have "?v\<lparr>held := True, pc := f(t := Served), unidling := unidling ?v + 1\<rparr>
      = lockView ns (f(t := Served)) (snd (startUnidle ns namespace s))"
    using True assms(1) by (simp add: startUnidle_apply lockView_def)
  ultimately show ?thesis by simp
next
  case False
  then show ?thesis
    using load_held [of "lockView ns f s" t] assms(2)
    by (auto simp: startUnidle_apply lockView_def)
qed

section \<open>The lock is never stuck\<close>

definition lock_inv :: "lock_state \<Rightarrow> bool" where
  "lock_inv s \<longleftrightarrow> (held s \<longrightarrow> (\<exists>t. pc s t = AtGo) \<or> unidling s > 0)"

lemma owner_kept: "f u = AtGo \<Longrightarrow> f t \<noteq> AtGo \<Longrightarrow> \<exists>u. (f(t := x)) u = AtGo"
  by (rule exI [of _ u]) auto

lemma lock_inv_step: "lstep s s' \<Longrightarrow> lock_inv s \<Longrightarrow> lock_inv s'"
proof (induction rule: lstep.induct)
  case (load_held s t)
  then show ?case
    using owner_kept [of "pc s" _ t Served] by (auto simp: lock_inv_def simp del: fun_upd_apply)
next
  case (store s t)
  then show ?case by (auto simp: lock_inv_def)
qed (auto simp: lock_inv_def)

lemma lock_inv_reachable: "reachable s \<Longrightarrow> lock_inv s"
  by (induction rule: reachable_induct) (simp add: lock_inv_def lock_init_def, rule lock_inv_step)

text \<open>
  C29. A held lock always has an owner: a handler about to start its goroutine or a running
  \<open>Unidle\<close>.  So it is never stuck: whatever happened before, it can be released again.
\<close>

theorem lock_never_stuck:
  assumes "reachable s"
  shows "\<exists>s'. lsteps s s' \<and> \<not> held s'"
proof (cases "held s")
  case False
  then show ?thesis by blast
next
  case True
  with lock_inv_reachable [OF assms] consider t where "pc s t = AtGo" | "unidling s > 0"
    by (auto simp: lock_inv_def)
  then show ?thesis
  proof cases
    case 1
    let ?s1 = "s\<lparr>pc := (pc s)(t := Served), unidling := unidling s + 1\<rparr>"
    have "lstep s ?s1" using 1 by (rule go)
    moreover have "lstep ?s1 (?s1\<lparr>held := False, unidling := unidling s\<rparr>)"
      using finish [of ?s1] by simp
    ultimately have "lsteps s (?s1\<lparr>held := False, unidling := unidling s\<rparr>)"
      by (meson converse_rtranclp_into_rtranclp rtranclp.rtrancl_refl)
    moreover have "\<not> held (?s1\<lparr>held := False, unidling := unidling s\<rparr>)" by simp
    ultimately show ?thesis by blast
  next
    case 2
    then have "lstep s (s\<lparr>held := False, unidling := unidling s - 1\<rparr>)" by (rule finish)
    moreover have "\<not> held (s\<lparr>held := False, unidling := unidling s - 1\<rparr>)" by simp
    ultimately show ?thesis by blast
  qed
qed

section \<open>The lock does not exclude\<close>

lemma many_at_store:
  "lsteps lock_init \<lparr>held = False, pc = (\<lambda>t. if t < n then AtStore else AtLoad), unidling = 0\<rparr>"
proof (induction n)
  case 0
  then show ?case by (simp add: lock_init_def)
next
  case (Suc n)
  let ?s = "\<lparr>held = False, pc = (\<lambda>t. if t < n then AtStore else AtLoad), unidling = 0\<rparr>"
  have "(\<lambda>t. if t < n then AtStore else AtLoad)(n := AtStore) = (\<lambda>t. if t < Suc n then AtStore else AtLoad)"
    by (auto simp: fun_eq_iff less_Suc_eq)
  then have "lstep ?s \<lparr>held = False, pc = (\<lambda>t. if t < Suc n then AtStore else AtLoad), unidling = 0\<rparr>"
    using load_free [of ?s n] by simp
  with Suc show ?case by simp
qed

lemma all_start:
  "k \<le> n \<Longrightarrow> \<exists>h f. lsteps lock_init \<lparr>held = h, pc = f, unidling = k\<rparr> \<and> (\<forall>t. k \<le> t \<longrightarrow> t < n \<longrightarrow> f t = AtStore)"
proof (induction k)
  case 0
  show ?case
    by (intro exI [of _ False] exI [of _ "\<lambda>t. if t < n then AtStore else AtLoad"] conjI many_at_store) simp
next
  case (Suc k)
  then obtain h f where r: "lsteps lock_init \<lparr>held = h, pc = f, unidling = k\<rparr>"
    and f: "\<forall>t. k \<le> t \<longrightarrow> t < n \<longrightarrow> f t = AtStore" by auto
  have "lstep \<lparr>held = h, pc = f, unidling = k\<rparr> \<lparr>held = True, pc = f(k := AtGo), unidling = k\<rparr>"
    using store [of "\<lparr>held = h, pc = f, unidling = k\<rparr>" k] f Suc.prems by simp
  moreover have "lstep \<lparr>held = True, pc = f(k := AtGo), unidling = k\<rparr>
      \<lparr>held = True, pc = f(k := Served), unidling = Suc k\<rparr>"
    using go [of "\<lparr>held = True, pc = f(k := AtGo), unidling = k\<rparr>" k] by simp
  ultimately have "lsteps lock_init \<lparr>held = True, pc = f(k := Served), unidling = Suc k\<rparr>"
    using r by (meson rtranclp.rtrancl_into_rtrancl)
  moreover have "\<forall>t. Suc k \<le> t \<longrightarrow> t < n \<longrightarrow> (f(k := Served)) t = AtStore" using f by simp
  ultimately show ?case by blast
qed

text \<open>
  C28. The lock does not prevent multiple unidle operations: the answer of \<open>LoadOrStore\<close> is
  ignored, so any number of handlers that all saw the lock free each start an \<open>Unidle\<close> of
  the same namespace, and all of them run at once.
\<close>

theorem concurrent_unidles_reachable: "\<exists>s. reachable s \<and> unidling s = n"
proof -
  obtain h f where "lsteps lock_init \<lparr>held = h, pc = f, unidling = n\<rparr>"
    using all_start [of n n] by auto
  then show ?thesis
    by (intro exI [of _ "\<lparr>held = h, pc = f, unidling = n\<rparr>"]) (simp add: reachable_def)
qed

end
