(* ===== verification/Setup.thy ===== *)
theory Setup
  imports ServiceIdler CliIdler IngressHandler
begin

text \<open>
  How the process is configured: the flags and environment of cmd/main.go, the conversion of
  the two intervals, the selectors file, the manager's options, the four list files (\<open>ReadSliceFromFile\<close> of
  unidler/helpers.go), and which parts are started.  Reading a file, decoding YAML, the
  environment lookups of the machinery library, the manager, the cron parser and the
  Prometheus client are the parameters of the \<open>surroundings\<close>.
\<close>

section \<open>Flags and surroundings\<close>

record flags =
  fl_metricsAddr :: string
  fl_secureMetrics :: bool
  fl_enableHTTP2 :: bool
  fl_enableLeaderElection :: bool
  fl_debug :: bool
  fl_refreshInterval :: int
  fl_dryRun :: bool
  fl_selectorsFile :: string
  fl_cliCron :: string
  fl_serviceCron :: string
  fl_prometheusAddress :: string
  fl_prometheusCheckInterval :: string
  fl_podCheckInterval :: string
  fl_skipHitCheck :: bool
  fl_enableCLIIdler :: bool
  fl_enableServiceIdler :: bool
  fl_verifiedUnidling :: bool
  fl_verifiedSecret :: string
  fl_unidlerHTTPPort :: int
  fl_defaultHTTPResponseCode :: int

definition defaultFlags :: flags where
  "defaultFlags =
     \<lparr>fl_metricsAddr = ''0'', fl_secureMetrics = True, fl_enableHTTP2 = False,
      fl_enableLeaderElection = False, fl_debug = False, fl_refreshInterval = 30, fl_dryRun = False,
      fl_selectorsFile = ''resources/selectors.yaml'', fl_cliCron = ''5,35 * * * *'',
      fl_serviceCron = ''0 */4 * * *'',
      fl_prometheusAddress = ''http://monitoring-kube-prometheus-prometheus.monitoring.svc:9090'',
      fl_prometheusCheckInterval = ''4h'', fl_podCheckInterval = ''4h'', fl_skipHitCheck = False,
      fl_enableCLIIdler = True, fl_enableServiceIdler = True, fl_verifiedUnidling = False,
      fl_verifiedSecret = ''super-secret-string'', fl_unidlerHTTPPort = 5000,
      fl_defaultHTTPResponseCode = 404\<rparr>"

text \<open>What the controller manager is created with.\<close>

record managerOptions =
  mo_bindAddress :: string
  mo_secureServing :: bool
  mo_disableHTTP2 :: bool
  mo_authFilter :: bool
  mo_leaderElection :: bool
  mo_leaderElectionID :: string

record surroundings =
  GetEnv :: "string \<Rightarrow> string \<Rightarrow> string"
  GetEnvBool :: "string \<Rightarrow> bool \<Rightarrow> bool"
  GetEnvInt :: "string \<Rightarrow> int \<Rightarrow> int"
  openFile :: "string \<Rightarrow> string option"
  decodeYaml :: "string \<Rightarrow> selectorData option"
  managerStarts :: "managerOptions \<Rightarrow> bool"
  controllerSetupOk :: bool
  managerRuns :: bool
  prometheusClientOk :: "string \<Rightarrow> bool"
  cronOk :: "string \<Rightarrow> bool"

section \<open>Files\<close>

definition readSelectors :: "surroundings \<Rightarrow> string \<Rightarrow> selectorData option" where
  "readSelectors E selectorsFile =
     (case openFile E selectorsFile of
        None \<Rightarrow> None
      | Some contents \<Rightarrow> decodeYaml E contents)"

text \<open>
  The slice stays nil when the file cannot be opened or has no line; the second component is
  whether the error is nil.
\<close>

definition ReadSliceFromFile :: "surroundings \<Rightarrow> string \<Rightarrow> string list option \<times> bool" where
  "ReadSliceFromFile E path =
     (case openFile E path of
        None \<Rightarrow> (None, False)
      | Some contents \<Rightarrow>
        (case scanLines contents of
           (lines, tooLong) \<Rightarrow> (if lines = [] then None else Some lines, \<not> tooLong)))"

section \<open>Intervals\<close>

definition podInterval :: "string \<Rightarrow> duration option" where
  "podInterval podCheckInterval =
     (case parseDuration podCheckInterval of
        Some t \<Rightarrow> Some t
      | None \<Rightarrow> parseDuration (podCheckInterval @ ''h''))"

section \<open>The manager\<close>

definition managerOptionsOf :: "flags \<Rightarrow> managerOptions" where
  "managerOptionsOf f =
     \<lparr>mo_bindAddress = fl_metricsAddr f, mo_secureServing = fl_secureMetrics f,
      mo_disableHTTP2 = (\<not> fl_enableHTTP2 f), mo_authFilter = fl_secureMetrics f,
      mo_leaderElection = fl_enableLeaderElection f,
      mo_leaderElectionID = ''aergia-unidler-leader-election-helper''\<rparr>"

section \<open>main\<close>

text \<open>What runs: the configurations, and the cron jobs that were accepted.\<close>

datatype job = CLIJob string | ServiceJob string

record process =
  p_unidler :: unidler
  p_idler :: idler
  p_jobs :: "job list"

datatype startup = Exit string | Running process

definition cronJobs :: "surroundings \<Rightarrow> bool \<Rightarrow> string \<Rightarrow> bool \<Rightarrow> string \<Rightarrow> job list" where
  "cronJobs E enableCLIIdler cliCron enableServiceIdler serviceCron =
     (if enableCLIIdler then (if cronOk E cliCron then [CLIJob cliCron] else []) else [])
     @ (if enableServiceIdler then (if cronOk E serviceCron then [ServiceJob serviceCron] else []) else [])"

text \<open>
  The end of \<open>main\<close>: the cron jobs and the unidler's goroutine are started, then the controller is
  set up, and the manager runs until a signal or an error ends it; its result is the exit
  status.
\<close>

definition startProcess :: "surroundings \<Rightarrow> process \<Rightarrow> startup" where
  "startProcess E p =
     (if \<not> controllerSetupOk E then Exit ''unable to create controller'' else Running p)"

definition exitStatus :: "surroundings \<Rightarrow> int" where
  "exitStatus E = (if \<not> managerRuns E then 1 else 0)"

definition main :: "surroundings \<Rightarrow> flags \<Rightarrow> startup" where
  "main E f =
     (let selectorsFile = GetEnv E ''SELECTORS_YAML_FILE'' (fl_selectorsFile f);
          verifiedUnidling = GetEnvBool E ''VERIFIED_UNIDLING'' (fl_verifiedUnidling f);
          verifiedSecret = GetEnv E ''VERIFY_SECRET'' (fl_verifiedSecret f);
          defaultHTTPResponseCode =
            GetEnvInt E ''DEFAULT_HTTP_RESPONSE_CODE'' (fl_defaultHTTPResponseCode f);
          dryRun = GetEnvBool E ''DRY_RUN'' (fl_dryRun f);
          unidlerHTTPPort = GetEnvInt E ''UNIDLER_PORT'' (fl_unidlerHTTPPort f);
          cliCron = GetEnv E ''CLI_CRON'' (fl_cliCron f);
          serviceCron = GetEnv E ''SERVICE_CRON'' (fl_serviceCron f);
          enableServiceIdler = GetEnvBool E ''ENABLE_SERVICE_IDLER'' (fl_enableServiceIdler f);
          enableCLIIdler = GetEnvBool E ''ENABLE_CLI_IDLER'' (fl_enableCLIIdler f);
          podCheckInterval = GetEnv E ''POD_CHECK_INTERVAL'' (fl_podCheckInterval f)
      in case podInterval podCheckInterval of
           None \<Rightarrow> Exit ''unable to decode pod check interval''
         | Some timePodCheckInterval \<Rightarrow>
      let prometheusAddress = GetEnv E ''PROMETHEUS_ADDRESS'' (fl_prometheusAddress f);
          prometheusCheckInterval =
            GetEnv E ''PROMETHEUS_CHECK_INTERVAL'' (fl_prometheusCheckInterval f)
      in case parseDuration prometheusCheckInterval of
           None \<Rightarrow> Exit ''unable to decode prometheus check interval''
         | Some timePrometheusCheckInterval \<Rightarrow>
      (case readSelectors E selectorsFile of
         None \<Rightarrow> Exit ''unable to decode selectors yaml''
       | Some selectors0 \<Rightarrow>
      let selectors = (if fl_skipHitCheck f
            then selectors0\<lparr>service := (service selectors0)\<lparr>svc_SkipHitCheck := True\<rparr>\<rparr>
            else selectors0)
      in if \<not> managerStarts E (managerOptionsOf f) then
           Exit ''unable to start manager''
         else
      let u = \<lparr>RefreshInterval = fl_refreshInterval f, UnidlerHTTPPort = unidlerHTTPPort,
               u_Debug = fl_debug f, VerifiedUnidling = verifiedUnidling,
               VerifiedSecret = verifiedSecret,
               AllowedUserAgents = fst (ReadSliceFromFile E ''/lists/allowedagents''),
               BlockedUserAgents = fst (ReadSliceFromFile E ''/lists/blockedagents''),
               AllowedIPs = fst (ReadSliceFromFile E ''/lists/allowedips''),
               BlockedIPs = fst (ReadSliceFromFile E ''/lists/blockedips''),
               DefaultHTTPResponseCode = defaultHTTPResponseCode\<rparr>
      in if \<not> prometheusClientOk E prometheusAddress then
           Exit ''error creating prometheus client''
         else
           startProcess E \<lparr>p_unidler = u,
             p_idler = \<lparr>PodCheckInterval = timePodCheckInterval, DryRun = dryRun,
               i_Debug = fl_debug f, Selectors = selectors,
               PrometheusCheckInterval = timePrometheusCheckInterval\<rparr>,
             p_jobs = cronJobs E enableCLIIdler cliCron enableServiceIdler serviceCron\<rparr>))"

text \<open>A job runs its idler.\<close>

fun runJob :: "'w platform \<Rightarrow> idler \<Rightarrow> job \<Rightarrow> ('w st, unit) go" where
  "runJob P i (CLIJob c) = CLIIdler P i"
| "runJob P i (ServiceJob c) = ServiceIdler P i"

section \<open>Properties\<close>

text \<open>
  A pod check interval given as a plain number, as in earlier releases, is that many hours;
  one with a unit is what \<open>ParseDuration\<close> reads.
\<close>

theorem podInterval_plain_hours:
  assumes "0 < n" and "n \<le> 2562047"
  shows "podInterval (showNat n) = Some (int n * hour) \<and> podInterval (showNat n @ ''h'') = Some (int n * hour)"
proof -
  have "n < 2 ^ 63" using assms(2) by simp
  with assms show ?thesis
    by (simp add: podInterval_def parseDuration_no_unit parseDuration_hours)
qed

text \<open>
  A list file of lines that end in a newline, contain no carriage return and fit the
  scanner's buffer arrives line by line, empty lines included.
\<close>

theorem ReadSliceFromFile_lines:
  assumes "openFile E path = Some (joinWith (CHR 0x0A) ls @ [CHR 0x0A])" and "ls \<noteq> []"
    and "\<forall>l \<in> set ls. CHR 0x0A \<notin> set l \<and> CHR 0x0D \<notin> set l \<and> length l < 65536"
  shows "ReadSliceFromFile E path = (Some ls, True)"
proof -
  have "splitOn (CHR 0x0A) (joinWith (CHR 0x0A) ls @ [CHR 0x0A]) = ls @ [[]]"
    using splitOn_append_sep [of "CHR 0x0A" "joinWith (CHR 0x0A) ls" "[]"] assms(2,3) split_join [of ls "CHR 0x0A"]
    by simp
  then have "rawLines (joinWith (CHR 0x0A) ls @ [CHR 0x0A]) = ls"
    by (simp add: rawLines_def)
  moreover have "scanRaw ls = (map dropCR ls, False)"
    using assms(3) by (intro scanRaw_all) (simp add: maxScanTokenSize_def)
  moreover have "map dropCR ls = ls"
    using assms(3) by (intro map_idI) (metis dropCR_def last_in_set)
  ultimately show ?thesis
    using assms(1,2) by (simp add: ReadSliceFromFile_def scanLines_def)
qed

lemma main_Running:
  assumes "main E f = Running p"
  shows "DryRun (p_idler p) = GetEnvBool E ''DRY_RUN'' (fl_dryRun f)"
    and "fl_skipHitCheck f \<Longrightarrow> svc_SkipHitCheck (service (Selectors (p_idler p)))"
    and "podInterval (GetEnv E ''POD_CHECK_INTERVAL'' (fl_podCheckInterval f)) = Some (PodCheckInterval (p_idler p))"
  using assms
  by (auto simp: main_def startProcess_def Let_def split: option.splits if_splits)

end
