(* ===== verification/Metrics.thy ===== *)
theory Metrics
  imports Prelude Complex_Main
begin

text \<open>
  The descriptions of the metrics of internal/handlers/metrics/metrics.go and their
  registration when the package is initialised.  What the handlers count is in the record
  \<open>metrics\<close> of Kube; the registry and the default buckets are the Prometheus library's.
\<close>

section \<open>Descriptions\<close>

datatype metricKind =
    Counter
  | CounterVec "string list"
  | HistogramVec "string list" "rat list"

record metricDesc =
  md_namespace :: string
  md_subsystem :: string
  md_name :: string
  md_kind :: metricKind

definition plainCounter :: "string \<Rightarrow> metricDesc" where
  "plainCounter name = \<lparr>md_namespace = '''', md_subsystem = '''', md_name = name, md_kind = Counter\<rparr>"

text \<open>In the order of their registration; \<open>DefBuckets\<close> is the library's list.\<close>

definition allMetrics :: "rat list \<Rightarrow> metricDesc list" where
  "allMetrics DefBuckets =
     [\<lparr>md_namespace = ''default_http_backend'', md_subsystem = ''http'', md_name = ''request_count_total'',
       md_kind = CounterVec [''proto'']\<rparr>,
      \<lparr>md_namespace = ''default_http_backend'', md_subsystem = ''http'',
       md_name = ''request_duration_milliseconds'',
       md_kind = HistogramVec [''proto''] ([1 / 1000, 3 / 1000] @ DefBuckets)\<rparr>,
      plainCounter ''aergia_allowed_requests'',
      plainCounter ''aergia_verification_requests'',
      plainCounter ''aergia_verification_required_requests'',
      plainCounter ''aergia_blocked_by_block_list'',
      plainCounter ''aergia_no_namespace'',
      plainCounter ''aergia_unidling_events'',
      plainCounter ''aergia_idling_events'',
      plainCounter ''aergia_cli_idling_events'']"

section \<open>Registration\<close>

text \<open>\<open>MustRegister\<close> panics at the first metric the registry refuses.\<close>

fun mustRegister :: "('r \<Rightarrow> metricDesc \<Rightarrow> 'r option) \<Rightarrow> metricDesc list \<Rightarrow> ('r, unit) go" where
  "mustRegister register [] = ret ()"
| "mustRegister register (d # ds) =
     andThen (gets (\<lambda>r. register r d)) (\<lambda>r.
       case r of
         None \<Rightarrow> panic ''duplicate metrics collector registration attempted''
       | Some r' \<Rightarrow> andThen (modify (\<lambda>_. r')) (\<lambda>_. mustRegister register ds))"

definition metricsInit :: "('r \<Rightarrow> metricDesc \<Rightarrow> 'r option) \<Rightarrow> rat list \<Rightarrow> ('r, unit) go" where
  "metricsInit register DefBuckets = mustRegister register (allMetrics DefBuckets)"

text \<open>A registry that only refuses a name it has takes all ten: the package initialises.\<close>

lemma mustRegister_distinct:
  assumes "\<And>r d. (md_namespace d, md_subsystem d, md_name d) \<notin> names r \<Longrightarrow>
      \<exists>r'. register r d = Some r' \<and> names r' = insert (md_namespace d, md_subsystem d, md_name d) (names r)"
    and "distinct (map (\<lambda>d. (md_namespace d, md_subsystem d, md_name d)) ds)"
    and "\<forall>d \<in> set ds. (md_namespace d, md_subsystem d, md_name d) \<notin> names r"
  shows "\<exists>r'. mustRegister register ds r = (Ok (), r')
     \<and> names r' = (\<lambda>d. (md_namespace d, md_subsystem d, md_name d)) ` set ds \<union> names r"
  using assms(2,3)
proof (induction ds arbitrary: r)
  case Nil
  then show ?case by (simp add: ret_def)
next
  case (Cons d ds)
  let ?n = "\<lambda>d. (md_namespace d, md_subsystem d, md_name d)"
  obtain r1 where r1: "register r d = Some r1" "names r1 = insert (?n d) (names r)"
    using assms(1) [of d r] Cons.prems(2) by auto
  have "\<forall>e \<in> set ds. ?n e \<notin> names r1"
    using Cons.prems by (auto simp: r1(2) image_iff)
  from Cons.IH [OF _ this] Cons.prems(1) obtain r2 where "mustRegister register ds r1 = (Ok (), r2)"
    "names r2 = ?n ` set ds \<union> names r1" by auto
  with r1 show ?case by (auto simp: andThen_def)
qed

lemma metricsInit_ok:
  assumes "\<And>r d. (md_namespace d, md_subsystem d, md_name d) \<notin> names r \<Longrightarrow>
      \<exists>r'. register r d = Some r' \<and> names r' = insert (md_namespace d, md_subsystem d, md_name d) (names r)"
    and "names r = {}"
  shows "\<exists>r'. metricsInit register DefBuckets r = (Ok (), r') \<and> card (names r') = 10"
proof -
  have "distinct (map (\<lambda>d. (md_namespace d, md_subsystem d, md_name d)) (allMetrics DefBuckets))"
    by (simp add: allMetrics_def plainCounter_def)
  from mustRegister_distinct [of names register, OF assms(1) this, of r] assms(2) obtain r' where
    "mustRegister register (allMetrics DefBuckets) r = (Ok (), r')"
    "names r' = (\<lambda>d. (md_namespace d, md_subsystem d, md_name d)) ` set (allMetrics DefBuckets)" by auto
  then show ?thesis
    by (simp add: metricsInit_def allMetrics_def plainCounter_def)
qed

end
