(* ===== verification/Samples.thy ===== *)
theory Samples
  imports Cluster ServiceIdler CliIdler Unidle IngressHandler Setup
begin

text \<open>
  Sample configurations and clusters on which the properties with hypotheses are applied:
  one namespace with a web deployment, its ingress and its pods.
\<close>

definition zeroMetrics :: metrics where
  "zeroMetrics = \<lparr>requestCount = (\<lambda>p. 0), requestDuration = (\<lambda>p. []), allowedRequests = 0,
     verificationRequests = 0, verificationRequired = 0, blockedRequests = 0,
     noNamespaceRequests = 0, unidleEvents = 0, serviceIdleEvents = 0, cliIdleEvents = 0\<rparr>"

definition start :: "'w \<Rightarrow> 'w st" where
  "start w = \<lparr>world = w, calls = [], metrics = zeroMetrics, locks = Map.empty, spawned = [],
              resp = newResponse\<rparr>"

definition hasBuild :: idlerSelector where
  "hasBuild = \<lparr>sel_Name = ''lagoon.sh/buildName'', sel_Operator = ''exists'', sel_Values = []\<rparr>"

definition isWatched :: idlerSelector where
  "isWatched = \<lparr>sel_Name = ''idling.amazee.io/watch'', sel_Operator = ''='', sel_Values = [''true'']\<rparr>"

definition isCli :: idlerSelector where
  "isCli = \<lparr>sel_Name = ''lagoon.sh/service'', sel_Operator = ''='', sel_Values = [''cli'']\<rparr>"

definition sampleSelectors :: selectorData where
  "sampleSelectors =
     \<lparr>nsLabels = \<lparr>ProjectName = ''project'', EnvironmentName = ''environment'',
                 ProjectIdling = ''projectAutoIdle'', EnvironmentIdling = ''environmentAutoIdle'',
                 EnvironmentType = ''environmentType''\<rparr>,
      serviceName = ''lagoon.sh/service'',
      cli = \<lparr>cli_SkipBuildCheck = False, cli_SkipCronCheck = False, cli_SkipProcessCheck = False,
             cli_Namespace = [], cli_Builds = [hasBuild], cli_Deployments = [isCli], cli_Pods = [isCli]\<rparr>,
      service = \<lparr>svc_SkipBuildCheck = False, svc_SkipHitCheck = False, svc_SkipIngressPatch = False,
             svc_Namespace = [], svc_Builds = [hasBuild], svc_Deployments = [isWatched],
             svc_Pods = [], svc_Ingress = []\<rparr>\<rparr>"

definition hours :: "int \<Rightarrow> duration" where
  "hours n = n * 3600000000000"

definition sampleIdler :: "bool \<Rightarrow> idler" where
  "sampleIdler dry = \<lparr>PodCheckInterval = hours 4, DryRun = dry, i_Debug = False,
     Selectors = sampleSelectors, PrometheusCheckInterval = hours 4\<rparr>"

definition sampleNamespace :: namespace where
  "sampleNamespace = \<lparr>ns_name = ''shop-main'',
     ns_labels = [''projectAutoIdle'' \<mapsto> ''1'', ''environmentAutoIdle'' \<mapsto> ''1'',
                  ''environmentType'' \<mapsto> ''development''],
     ns_annotations = Map.empty\<rparr>"

definition sampleDeployment :: deployment where
  "sampleDeployment = \<lparr>dep_name = ''web'', dep_namespace = ''shop-main'',
     dep_labels = [''idling.amazee.io/watch'' \<mapsto> ''true''], dep_annotations = Map.empty,
     dep_replicas = Some 3, dep_selector = Some [''lagoon.sh/service'' \<mapsto> ''web''],
     dep_containers = []\<rparr>"

definition sampleIngress :: ingress where
  "sampleIngress = \<lparr>ing_name = ''web'', ing_namespace = ''shop-main'', ing_labels = Map.empty,
     ing_annotations = [''nginx.ingress.kubernetes.io/custom-http-errors'' \<mapsto> ''404''],
     ing_hosts = [''shop.example.com'']\<rparr>"

definition samplePod :: "string \<Rightarrow> pod" where
  "samplePod phase = \<lparr>pod_name = ''web-1'', pod_namespace = ''shop-main'',
     pod_labels = [''lagoon.sh/service'' \<mapsto> ''web''], pod_phase = phase, pod_startTime = Some 0\<rparr>"

definition buildPod :: pod where
  "buildPod = \<lparr>pod_name = ''build'', pod_namespace = ''shop-main'',
     pod_labels = [''lagoon.sh/buildName'' \<mapsto> ''b1''], pod_phase = ''Running'', pod_startTime = None\<rparr>"

definition cronDeployment :: deployment where
  "cronDeployment = sampleDeployment\<lparr>dep_name := ''cli'',
     dep_containers := [\<lparr>con_env = [\<lparr>env_name = ''CRONJOBS'', env_value = ''* * * * *''\<rparr>]\<rparr>]\<rparr>"

definition sampleCluster :: "pod list \<Rightarrow> cluster" where
  "sampleCluster pods =
     \<lparr>cl_namespaces = [sampleNamespace], cl_deployments = [sampleDeployment],
      cl_ingresses = [sampleIngress], cl_keys = [''lagoon.sh/service''], cl_pods = pods,
      cl_hits = [''0''], cl_stdout = ''20'' @ [CHR 0x0A], cl_now = hours 6,
      cl_time = ''2024-01-01T06:00:00Z''\<rparr>"

lemmas sample_defs =
  zeroMetrics_def start_def hasBuild_def isWatched_def isCli_def sampleSelectors_def hours_def
  sampleIdler_def sampleNamespace_def sampleDeployment_def sampleIngress_def samplePod_def
  buildPod_def cronDeployment_def sampleCluster_def

lemmas cluster_eval =
  clusterPlatform_def meets_def selected_def found_def refExists.simps patchObject.simps
  mergeNamespace_def mergeIngress_def mergeDeployment_def matchesSelector.simps

section \<open>Requests to the unidler\<close>

definition sampleUnidler :: unidler where
  "sampleUnidler = \<lparr>RefreshInterval = 30, UnidlerHTTPPort = 5000, u_Debug = False,
     VerifiedUnidling = False, VerifiedSecret = ''super-secret-string'', AllowedUserAgents = None,
     BlockedUserAgents = None, AllowedIPs = None, BlockedIPs = None, DefaultHTTPResponseCode = 404\<rparr>"

definition sampleRequest :: "string \<Rightarrow> string \<Rightarrow> http_request" where
  "sampleRequest code query = \<lparr>rq_path = ''/'', rq_rawQuery = query,
     rq_header = [''X-Code'' \<mapsto> [code], ''X-Namespace'' \<mapsto> [''shop-main'']],
     rq_protoMajor = 1, rq_protoMinor = 1\<rparr>"

definition bareRequest :: http_request where
  "bareRequest = \<lparr>rq_path = ''/'', rq_rawQuery = [], rq_header = Map.empty,
     rq_protoMajor = 1, rq_protoMinor = 1\<rparr>"

lemma canonical_keys:
  "canonicalKey FormatHeader = ''X-Format''" "canonicalKey CodeHeader = ''X-Code''"
  "canonicalKey NamespaceHeader = ''X-Namespace''"
  by (simp_all add: canonicalKey_def FormatHeader_def CodeHeader_def NamespaceHeader_def toUpper_def
      toLower_def isLower_def Let_def char_of_def bit_iff_odd)

text \<open>A platform whose \<open>url.Parse\<close> rejects everything.\<close>

definition badUrlPlatform :: "cluster platform" where
  "badUrlPlatform = clusterPlatform\<lparr>urlHostname := (\<lambda>u. None)\<rparr>"

lemma waitPoll_cluster: "waitPoll clusterPlatform = pollTimes 91"
  by (rule ext) (simp add: waitPoll_def clusterPlatform_def defaultPollDuration_def defaultPollTimeout_def second_def
      del: pollTimes.simps)

lemma pollRunsCondition_cluster: "pollRunsCondition clusterPlatform"
  by (simp add: pollRunsCondition_def waitPoll_cluster keeps_pollTimes)

section \<open>Surroundings of the process\<close>

definition sampleSurroundings :: surroundings where
  "sampleSurroundings = \<lparr>GetEnv = (\<lambda>k v. v), GetEnvBool = (\<lambda>k v. if k = ''DRY_RUN'' then True else v),
     GetEnvInt = (\<lambda>k v. v), openFile = (\<lambda>p. Some (''a'' @ [CHR 0x0A] @ ''b'' @ [CHR 0x0A])),
     decodeYaml = (\<lambda>t. Some sampleSelectors), managerStarts = (\<lambda>o'. True), controllerSetupOk = True, managerRuns = True,
     prometheusClientOk = (\<lambda>a. True), cronOk = (\<lambda>c. True)\<rparr>"

end
