(* ===== verification/ApiServer.thy ===== *)
theory ApiServer
  imports Cluster Unidle ServiceIdlerProps
begin

text \<open>
  The laws of the Kubernetes API the end-to-end properties rely on, stated of a platform and
  a view of its world: the namespaces, deployments and ingresses it stores.  Reads leave the
  objects alone, lists return the matching ones, a patch that succeeds merges into the
  object it names and a patch that fails changes nothing.  The sample cluster obeys them.
\<close>

section \<open>The laws\<close>

definition readsKeep :: "'w platform \<Rightarrow> ('w \<Rightarrow> objects) \<Rightarrow> bool" where
  "readsKeep P view \<longleftrightarrow>
     (\<forall>opts w. view (snd (listNamespaces P opts w)) = view w)
     \<and> (\<forall>opts w. view (snd (listDeployments P opts w)) = view w)
     \<and> (\<forall>opts w. view (snd (listPods P opts w)) = view w)
     \<and> (\<forall>opts w. view (snd (listIngresses P opts w)) = view w)
     \<and> (\<forall>n w. view (snd (getNamespace P n w)) = view w)
     \<and> (\<forall>ns n w. view (snd (getDeployment P ns n w)) = view w)
     \<and> (\<forall>ns n w. view (snd (getIngress P ns n w)) = view w)
     \<and> (\<forall>q w. view (snd (promQuery P q w)) = view w)
     \<and> (\<forall>r w. view (snd (execStream P r w)) = view w)"

definition patchMerges :: "'w platform \<Rightarrow> ('w \<Rightarrow> objects) \<Rightarrow> bool" where
  "patchMerges P view \<longleftrightarrow>
     (\<forall>ref p w. view (snd (sendPatch P ref p w)) =
        (if fst (sendPatch P ref p w) = None then patchObject ref p (view w) else view w))"

definition deploymentsMatching :: "string \<Rightarrow> requirement list \<Rightarrow> objects \<Rightarrow> deployment list" where
  "deploymentsMatching ns rs v =
     filter (\<lambda>d. dep_namespace d = ns \<and> list_all (meets (dep_labels d)) rs) (cl_deployments v)"

definition ingressesMatching :: "string \<Rightarrow> requirement list \<Rightarrow> objects \<Rightarrow> ingress list" where
  "ingressesMatching ns rs v =
     filter (\<lambda>i. ing_namespace i = ns \<and> list_all (meets (ing_labels i)) rs) (cl_ingresses v)"

definition listsMatch :: "'w platform \<Rightarrow> ('w \<Rightarrow> objects) \<Rightarrow> bool" where
  "listsMatch P view \<longleftrightarrow>
     (\<forall>ns rs w ds. fst (listDeployments P (inNamespace ns (Requirements rs)) w) = Inr ds
        \<longrightarrow> ds = deploymentsMatching ns rs (view w))
     \<and> (\<forall>ns rs w is. fst (listIngresses P (inNamespace ns (Requirements rs)) w) = Inr is
        \<longrightarrow> is = ingressesMatching ns rs (view w))
     \<and> (\<forall>ns w is. fst (listIngresses P \<lparr>lo_namespace = Some ns, lo_selector = None\<rparr> w) = Inr is
        \<longrightarrow> is = ingressesMatching ns [] (view w))
     \<and> (\<forall>n w x. fst (getNamespace P n w) = Inr x
        \<longrightarrow> ns_name x = n \<and> x \<in> set (cl_namespaces (view w)))"

definition apiServer :: "'w platform \<Rightarrow> ('w \<Rightarrow> objects) \<Rightarrow> bool" where
  "apiServer P view \<longleftrightarrow> readsKeep P view \<and> patchMerges P view \<and> listsMatch P view"

text \<open>A deployment or an ingress that is read is one of the stored ones.\<close>

definition getsMatch :: "'w platform \<Rightarrow> ('w \<Rightarrow> objects) \<Rightarrow> bool" where
  "getsMatch P view \<longleftrightarrow>
     (\<forall>ns n w d. fst (getDeployment P ns n w) = Inr d \<longrightarrow> d \<in> set (cl_deployments (view w)))
     \<and> (\<forall>ns n w i. fst (getIngress P ns n w) = Inr i
        \<longrightarrow> ing_namespace i = ns \<and> ing_name i = n \<and> i \<in> set (cl_ingresses (view w)))"

text \<open>
  A server that is up: lists are answered, a namespace or an ingress that exists is read,
  and patches of what exists are accepted.
\<close>

definition answers :: "'w platform \<Rightarrow> ('w \<Rightarrow> objects) \<Rightarrow> bool" where
  "answers P view \<longleftrightarrow>
     (\<forall>opts w. \<exists>ds. fst (listDeployments P opts w) = Inr ds)
     \<and> (\<forall>opts w. \<exists>is. fst (listIngresses P opts w) = Inr is)
     \<and> (\<forall>n w. refExists (NamespaceRef n) (view w) \<longrightarrow> (\<exists>x. fst (getNamespace P n w) = Inr x))
     \<and> (\<forall>ns n w. refExists (IngressRef ns n) (view w) \<longrightarrow> (\<exists>x. fst (getIngress P ns n w) = Inr x))
     \<and> (\<forall>ref p w. refExists ref (view w) \<longrightarrow> fst (sendPatch P ref p w) = None)"

section \<open>Reading code\<close>

abbreviation objectsOf :: "('w \<Rightarrow> objects) \<Rightarrow> 'w st \<Rightarrow> objects" where
  "objectsOf view s \<equiv> view (world s)"

lemma keeps_objects_request:
  "(\<And>w. view (snd (g w)) = view w) \<Longrightarrow> preserves (objectsOf view) (request c g)"
  by (rule stepsI) (simp add: request_eval)

lemma keeps_objects_read:
  assumes "readsKeep P view"
  shows "preserves (objectsOf view) (ListNamespaces P opts)"
    and "preserves (objectsOf view) (ListDeployments P opts)"
    and "preserves (objectsOf view) (ListPods P opts)"
    and "preserves (objectsOf view) (ListIngresses P opts)"
    and "preserves (objectsOf view) (GetNamespace P n)"
    and "preserves (objectsOf view) (GetDeployment P ns n)"
    and "preserves (objectsOf view) (GetIngress P ns n)"
    and "preserves (objectsOf view) (PromQuery P q)"
    and "preserves (objectsOf view) (ExecStream P r)"
  using assms
  by (auto simp: request_defs readsKeep_def intro!: keeps_objects_request)

lemma keeps_objects_countMetric: "preserves (objectsOf view) (countMetric f)"
  by (rule preserves_countMetric) simp

lemmas keeps_objects_rules = pres.steps_rules steps_list keeps_objects_countMetric

lemma keeps_objects_serviceDecision:
  assumes "readsKeep P view"
  shows "preserves (objectsOf view) (serviceDecision P h namespace fi fs)"
  unfolding serviceDecision_def serviceRunningBuild_def checkDeployment_def environmentHits_def
  by (intro keeps_objects_rules keeps_objects_read [OF assms])

lemma keeps_objects_hasRunningPod:
  assumes "readsKeep P view"
  shows "preserves (objectsOf view) (hasRunningPod P ns n)"
  unfolding hasRunningPod_def
  by (intro keeps_objects_rules keeps_objects_read [OF assms])

lemma keeps_objects_waitForPods:
  assumes "readsKeep P view" and "pollRunsCondition P"
  shows "preserves (objectsOf view) (waitForPods P namespace d acc)"
  unfolding waitForPods_def
  by (intro keeps_objects_rules poll_preserves [OF assms(2)] keeps_objects_hasRunningPod [OF assms(1)])

section \<open>Patches of other kinds\<close>

lemma keeps_Patch:
  assumes "patchMerges P view" and "\<And>v. f (patchObject ref p v) = f v"
  shows "preserves (\<lambda>s. f (objectsOf view s)) (Patch P ref p)"
  by (rule stepsI)
    (use assms in \<open>simp add: Patch_def request_eval patchMerges_def\<close>)

lemma Patch_accepted:
  assumes "patchMerges P view" and "answers P view" and "refExists ref (objectsOf view s)"
  shows "\<exists>t. Patch P ref p s = (Ok None, t) \<and> objectsOf view t = patchObject ref p (objectsOf view s)
     \<and> locks t = locks s"
  using assms by (simp add: Patch_def request_eval patchMerges_def answers_def)

section \<open>The sample cluster obeys the laws\<close>

lemma truncate_patch: "objects.truncate (patchObject ref p c) = patchObject ref p (objects.truncate c)"
  by (cases ref) (simp_all add: objects.defs)

lemma truncate_refExists [simp]: "refExists ref (objects.truncate c) = refExists ref c"
  by (cases ref) (simp_all add: objects.defs)

lemma apiServer_cluster: "apiServer clusterPlatform objects.truncate"
proof -
  have "patchMerges clusterPlatform objects.truncate"
    by (simp add: patchMerges_def clusterPlatform_def truncate_patch)
  moreover have "readsKeep clusterPlatform objects.truncate"
    by (simp add: readsKeep_def clusterPlatform_def)
  moreover have "listsMatch clusterPlatform objects.truncate"
    by (auto simp: listsMatch_def clusterPlatform_def deploymentsMatching_def ingressesMatching_def
        selected_def objects.defs found_def find_Some_iff split: option.splits)
  ultimately show ?thesis by (simp add: apiServer_def)
qed

lemma answers_cluster: "answers clusterPlatform objects.truncate"
  by (auto simp: answers_def clusterPlatform_def found_def list_ex_iff find_None_iff split: option.split)

lemma getsMatch_cluster: "getsMatch clusterPlatform objects.truncate"
  by (auto simp: getsMatch_def clusterPlatform_def objects.defs found_def find_Some_iff split: option.splits)

end
