(* ===== verification/EndToEnd.thy ===== *)
theory EndToEnd
  imports ApiServer UnidleProps
begin

text \<open>
  The idler and \<open>Unidle\<close> against an API server that obeys the laws of ApiServer: what they
  leave in the cluster, not only what they send.
\<close>

section \<open>Ingresses that lead back to the unidler\<close>

text \<open>What makes a failing request reach the unidler, for nginx and for Traefik.\<close>

definition marked :: "ingress \<Rightarrow> bool" where
  "marked i \<longleftrightarrow>
     ''503'' \<in> set (codesOf (annotationValue (ing_annotations i)
                    ''nginx.ingress.kubernetes.io/custom-http-errors''))
     \<and> traefikMiddleware (ing_namespace i) \<in> set (codesOf (annotationValue (ing_annotations i)
                    ''traefik.ingress.kubernetes.io/router.middlewares''))"

lemma marked_patched:
  assumes "CHR '','' \<notin> set (ing_namespace i)" and "ing_namespace j = ing_namespace i"
  shows "marked (mergeIngress (ingressPatch i) j)"
  using codes.add_present [of "''503''"] codes.add_present [OF no_comma_traefik [OF assms(1)]] assms(2)
  by (simp add: marked_def mergeIngress_def mergeMeta_def ingressPatch_def Let_def annotationValue_def)

definition allMarked :: "objref set \<Rightarrow> objects \<Rightarrow> bool" where
  "allMarked R v \<longleftrightarrow> (\<forall>j \<in> set (cl_ingresses v). refOfIngress j \<in> R \<longrightarrow> marked j)"

lemma allMarked_patch:
  assumes "allMarked R v" and "CHR '','' \<notin> set (ing_namespace i)"
  shows "allMarked (insert (refOfIngress i) R) (patchObject (refOfIngress i) (ingressPatch i) v)"
  using assms
  by (auto simp: allMarked_def intro: marked_patched)

text \<open>Patches keep the names of the ingresses, and of the deployments.\<close>

lemma patch_ingress_refs:
  "map refOfIngress (cl_ingresses (patchObject ref p v)) = map refOfIngress (cl_ingresses v)"
  by (cases ref) auto

lemma patchOneIngress_marks:
  assumes "patchMerges P view" and "\<not> DryRun h"
    and "forRange (patchOneIngress P h) is (b, None) s = (Ok (p, None), t)"
    and "allMarked R (objectsOf view s)" and "\<forall>i \<in> set is. CHR '','' \<notin> set (ing_namespace i)"
  shows "allMarked (R \<union> refOfIngress ` set is) (objectsOf view t)
       \<and> map refOfIngress (cl_ingresses (objectsOf view t)) = map refOfIngress (cl_ingresses (objectsOf view s))"
  using assms(3-5)
proof (induction "is" arbitrary: b s R)
  case Nil
  then show ?case by (auto simp: ret_def)
next
  case (Cons i "is")
  let ?ref = "refOfIngress i" and ?p = "ingressPatch i"
  define s1 where "s1 = s\<lparr>world := snd (sendPatch P ?ref ?p (world s)), calls := calls s @ [CPatch ?ref ?p]\<rparr>"
  from Cons.prems(1) patchOneIngress_eval [OF assms(2), of P i "(b, None)" s]
  have ok: "fst (sendPatch P ?ref ?p (world s)) = None"
    and rest: "forRange (patchOneIngress P h) is (True, None) s1 = (Ok (p, None), t)"
    by (auto simp: andThen_Ok ret_def s1_def split: option.splits)
  have v: "objectsOf view s1 = patchObject ?ref ?p (objectsOf view s)"
    using assms(1) ok by (simp add: s1_def patchMerges_def)
  have "allMarked (insert ?ref R) (objectsOf view s1)"
    unfolding v using Cons.prems by (intro allMarked_patch) auto
  from Cons.IH [OF rest this] Cons.prems(3) show ?case
    by (simp add: v patch_ingress_refs del: patchObject.simps)
qed

lemma patchIngress_marks:
  assumes "apiServer P view" and "\<not> DryRun h" and "\<not> svc_SkipIngressPatch (service (Selectors h))"
    and "CHR '','' \<notin> set (ns_name namespace)"
    and "patchIngress P h namespace s = (Ok None, t)"
  shows "allMarked (refOfIngress ` set (ingressesMatching (ns_name namespace)
           (map requirementOf (svc_Ingress (service (Selectors h)))) (objectsOf view s))) (objectsOf view t)
       \<and> map refOfIngress (cl_ingresses (objectsOf view t)) = map refOfIngress (cl_ingresses (objectsOf view s))"
proof -
  let ?R = "refOfIngress ` set (ingressesMatching (ns_name namespace)
           (map requirementOf (svc_Ingress (service (Selectors h)))) (objectsOf view s))"
  obtain reqs ings u p v where g: "generateLabelRequirements P (svc_Ingress (service (Selectors h))) = Ok reqs"
    and l: "ListIngresses P (inNamespace (ns_name namespace) (Requirements reqs)) s = (Ok (Inr ings), u)"
    and loop: "forRange (patchOneIngress P h) ings (False, None) u = (Ok (p, None), v)"
    and e: "ingressEpilogue P namespace p v = (Ok None, t)"
    by (rule patchIngress_parts [OF assms(3,5)])
  have api: "readsKeep P view" "patchMerges P view" "listsMatch P view"
    using assms(1) by (simp_all add: apiServer_def)
  have reqs: "reqs = map requirementOf (svc_Ingress (service (Selectors h)))"
    using g by (simp add: generateLabelRequirements_def appendRequirements_eq split: if_splits)
  have "fst (listIngresses P (inNamespace (ns_name namespace) (Requirements reqs)) (world s)) = Inr ings"
    using l by (simp add: ListIngresses_def request_eval)
  with api(3) have ings: "ings = ingressesMatching (ns_name namespace) reqs (objectsOf view s)"
    unfolding listsMatch_def by blast
  have u: "objectsOf view u = objectsOf view s"
    using steps_run [OF keeps_objects_read(4) [OF api(1)] l] .
  have "allMarked ({} \<union> refOfIngress ` set ings) (objectsOf view v)
      \<and> map refOfIngress (cl_ingresses (objectsOf view v)) = map refOfIngress (cl_ingresses (objectsOf view u))"
    using assms(2,4) by (intro patchOneIngress_marks [OF api(2) _ loop])
      (auto simp: allMarked_def ings ingressesMatching_def)
  moreover have "cl_ingresses (objectsOf view t) = cl_ingresses (objectsOf view v)"
  proof -
    have "preserves (\<lambda>s. cl_ingresses (objectsOf view s)) (ingressEpilogue P namespace p)"
      unfolding ingressEpilogue_def
      by (intro pres.steps_rules keeps_Patch [OF api(2)] preserves_countMetric) simp_all
    from steps_run [OF this e] show ?thesis .
  qed
  ultimately show ?thesis by (simp add: allMarked_def ings reqs u)
qed

text \<open>What the two halves of the idler leave alone.\<close>

lemma patchIngress_keeps_deployments:
  assumes "apiServer P view"
  shows "preserves (\<lambda>s. cl_deployments (objectsOf view s)) (patchIngress P h namespace)"
proof -
  have api: "readsKeep P view" "patchMerges P view" using assms by (simp_all add: apiServer_def)
  have "preserves (\<lambda>s. cl_deployments (objectsOf view s)) (ListIngresses P opts)" for opts
    using keeps_objects_read(4) [OF api(1)] by (rule steps_mono) simp
  then show ?thesis
    unfolding patchIngress_def patchOneIngress_def
    by (intro pres.steps_rules keeps_Patch [OF api(2)] preserves_countMetric) simp_all
qed

lemma idleDeployments_keeps_ingresses:
  assumes "patchMerges P view"
  shows "preserves (\<lambda>s. cl_ingresses (objectsOf view s)) (idleDeployments P h ds fi fs)"
  unfolding idleDeployments_def idleOneDeployment_def
  by (intro pres.steps_rules keeps_Patch [OF assms]) simp_all

text \<open>
  C9. If a run of the service idler, forced or not and whatever fails in it, changes any
  deployment of the cluster, then afterwards every ingress of the environment that matches
  the selector carries the 503 code and the middleware: an environment that was scaled down
  can be woken again.
\<close>

theorem idled_environment_can_wake:
  assumes "apiServer P view" and "\<not> svc_SkipIngressPatch (service (Selectors h))"
    and "CHR '','' \<notin> set (ns_name namespace)"
    and "t = snd (KubernetesServiceIdler P h namespace forceIdle forceScale s)"
    and "cl_deployments (objectsOf view t) \<noteq> cl_deployments (objectsOf view s)"
    and "i \<in> set (ingressesMatching (ns_name namespace)
           (map requirementOf (svc_Ingress (service (Selectors h)))) (objectsOf view s))"
  shows "\<exists>j \<in> set (cl_ingresses (objectsOf view t)). refOfIngress j = refOfIngress i \<and> marked j"
proof -
  let ?D = "serviceDecision P h namespace forceIdle forceScale"
  have api: "readsKeep P view" "patchMerges P view" using assms(1) by (simp_all add: apiServer_def)
  obtain d s1 where D: "?D s = (d, s1)" by fastforce
  have s1: "objectsOf view s1 = objectsOf view s"
    using steps_run [OF keeps_objects_serviceDecision [OF api(1)] D] .
  obtain ds where d: "d = Ok (Some ds)"
  proof (cases "\<exists>ds. d = Ok (Some ds)")
    case False
    then have "t = s1"
      using D assms(4) by (cases d) (auto simp: KubernetesServiceIdler_split andThen_def serviceAction_def
        ret_def split: option.splits)
    with s1 assms(5) show ?thesis by simp
  qed auto
  obtain r u where I: "patchIngress P h namespace s1 = (r, u)" by fastforce
  have u: "cl_deployments (objectsOf view u) = cl_deployments (objectsOf view s)"
    using steps_run [OF patchIngress_keeps_deployments [OF assms(1)] I] s1 by simp
  have t: "t = (if r = Ok None then snd (idleDeployments P h ds forceIdle forceScale u) else u)"
    using D d I assms(4) by (cases r) (auto simp: KubernetesServiceIdler_split andThen_def serviceAction_def
      ret_def split: option.splits)
  with u assms(5) have r: "r = Ok None" by (auto split: if_splits)
  have "\<not> DryRun h"
  proof
    assume "DryRun h"
    then have "idleDeployments P h ds forceIdle forceScale u = (Ok (), u)"
      by (induction ds) (simp_all add: idleDeployments_def idleOneDeployment_def ret_def andThen_def)
    with t r u assms(5) show False by simp
  qed
  then have m: "allMarked (refOfIngress ` set (ingressesMatching (ns_name namespace)
           (map requirementOf (svc_Ingress (service (Selectors h)))) (objectsOf view s))) (objectsOf view u)"
    and refs: "map refOfIngress (cl_ingresses (objectsOf view u)) = map refOfIngress (cl_ingresses (objectsOf view s))"
    using patchIngress_marks [OF assms(1) _ assms(2,3) I [unfolded r]] s1 by auto
  have ings: "cl_ingresses (objectsOf view t) = cl_ingresses (objectsOf view u)"
    unfolding t using r steps_run [OF idleDeployments_keeps_ingresses [OF api(2)] surjective_pairing] by simp
  have "refOfIngress i \<in> refOfIngress ` set (cl_ingresses (objectsOf view s))"
    using assms(6) by (intro imageI) (simp add: ingressesMatching_def)
  moreover have "refOfIngress ` set (cl_ingresses (objectsOf view t))
      = refOfIngress ` set (cl_ingresses (objectsOf view s))"
    unfolding ings set_map [symmetric] refs ..
  ultimately have "refOfIngress i \<in> refOfIngress ` set (cl_ingresses (objectsOf view t))" by simp
  then obtain j where j: "refOfIngress i = refOfIngress j" "j \<in> set (cl_ingresses (objectsOf view t))"
    by (rule imageE)
  have "refOfIngress j \<in> refOfIngress ` set (ingressesMatching (ns_name namespace)
           (map requirementOf (svc_Ingress (service (Selectors h)))) (objectsOf view s))"
    using assms(6) unfolding j(1) [symmetric] by (rule imageI)
  then have "marked j"
    using m j(2) ings unfolding allMarked_def by simp
  with j show ?thesis by (intro bexI [of _ j] conjI) simp_all
qed

section \<open>Patching a list of deployments\<close>

lemma deployments_patch:
  assumes "cl_deployments v = map F L" and "distinct (map refOfDeployment L)" and "d \<in> set L"
    and "\<And>y. y \<in> set L \<Longrightarrow> refOfDeployment (F y) = refOfDeployment y"
  shows "cl_deployments (patchObject (refOfDeployment d) p v) = map (F(d := mergeDeployment p (F d))) L"
proof -
  have "(dep_namespace (F y) = dep_namespace d \<and> dep_name (F y) = dep_name d) \<longleftrightarrow> y = d" if "y \<in> set L" for y
    using assms(2,3) assms(4) [OF that] that by (auto simp: distinct_map dest: inj_onD)
  then show ?thesis by (simp add: assms(1))
qed

lemma refExists_map:
  assumes "cl_deployments v = map F L" and "d \<in> set L" and "refOfDeployment (F d) = refOfDeployment d"
  shows "refExists (refOfDeployment d) v"
  using assms by (auto simp: list_ex_iff)

lemma refOfDeployment_afterIdle [simp]:
  "dep_name (afterIdle fi fs now d) = dep_name d" "dep_namespace (afterIdle fi fs now d) = dep_namespace d"
  by (simp_all add: afterIdle_def split: option.split)

lemma refOfDeployment_afterUnidle [simp]:
  "dep_name (afterUnidle d) = dep_name d" "dep_namespace (afterUnidle d) = dep_namespace d"
  by (simp_all add: afterUnidle_def)

text \<open>
  A loop that patches each listed deployment once, seen on the stored list \<open>L\<close>: the element
  \<open>F d\<close> of each listed \<open>d\<close> is replaced, the others stay.
\<close>

lemma idle_loop_objects:
  assumes "patchMerges P view" and "answers P view" and "\<not> DryRun h" and "distinct (map refOfDeployment L)"
    and "set ds \<subseteq> set L" and "distinct ds" and "\<forall>d \<in> set ds. F d = d \<and> dep_replicas d \<noteq> None"
    and "cl_deployments (objectsOf view s) = map F L"
    and "\<And>y. y \<in> set L \<Longrightarrow> refOfDeployment (F y) = refOfDeployment y"
  shows "\<exists>F' t. idleDeployments P h ds fi fs s = (Ok (), t)
     \<and> cl_deployments (objectsOf view t) = map F' L
     \<and> (\<forall>d \<in> set L. if d \<in> set ds then \<exists>now. F' d = afterIdle fi fs now d else F' d = F d)"
  using assms(5-9)
proof (induction ds arbitrary: F s)
  case Nil
  then show ?case by (auto simp: idleDeployments_def ret_def)
next
  case (Cons d ds)
  obtain r where r: "dep_replicas d = Some r" and Fd: "F d = d" using Cons.prems(3) by auto
  have d: "d \<in> set L" using Cons.prems(1) by simp
  let ?p = "idlePatch fi fs (clockRFC3339 P (world s)) r"
  have ex: "refExists (refOfDeployment d) (objectsOf view s)"
    using refExists_map [OF Cons.prems(4) d Cons.prems(5) [OF d]] .
  obtain s1 where p: "Patch P (refOfDeployment d) ?p s = (Ok None, s1)"
    and s1: "objectsOf view s1 = patchObject (refOfDeployment d) ?p (objectsOf view s)"
    using Patch_accepted [OF assms(1,2) ex] by blast
  let ?F1 = "F(d := afterIdle fi fs (clockRFC3339 P (world s)) d)"
  have upd: "mergeDeployment ?p (F d) = afterIdle fi fs (clockRFC3339 P (world s)) d"
    by (simp add: Fd afterIdle_def r)
  have "cl_deployments (objectsOf view s1) = map ?F1 L"
    using deployments_patch [where p = ?p, OF Cons.prems(4) assms(4) d Cons.prems(5)] unfolding s1 upd .
  moreover have "refOfDeployment (?F1 y) = refOfDeployment y" if "y \<in> set L" for y
    using Cons.prems(5) [OF that] by simp
  moreover have "\<forall>x \<in> set ds. ?F1 x = x \<and> dep_replicas x \<noteq> None" using Cons.prems(2,3) by auto
  ultimately obtain F' t where run: "idleDeployments P h ds fi fs s1 = (Ok (), t)"
    and L: "cl_deployments (objectsOf view t) = map F' L"
    and F': "\<forall>x \<in> set L. if x \<in> set ds then \<exists>now. F' x = afterIdle fi fs now x else F' x = ?F1 x"
    using Cons.IH [of ?F1 s1] Cons.prems(1,2) by auto
  have "idleDeployments P h (d # ds) fi fs s = (Ok (), t)"
    using run p assms(3) by (simp add: idleDeployments_def idleOneDeployment_def r andThen_Ok ret_def
        andThen_def)
  moreover have "\<forall>x \<in> set L. if x \<in> set (d # ds) then \<exists>now. F' x = afterIdle fi fs now x else F' x = F x"
    using F' d Cons.prems(2) by (auto split: if_splits)
  ultimately show ?case using L by blast
qed

lemma unidle_loop_objects:
  assumes "patchMerges P view" and "answers P view" and "distinct (map refOfDeployment L)"
    and "set ds \<subseteq> set L" and "distinct ds" and "\<forall>d \<in> set ds. F d = d \<and> dep_replicas d \<noteq> None"
    and "cl_deployments (objectsOf view s) = map F L"
    and "\<And>y. y \<in> set L \<Longrightarrow> refOfDeployment (F y) = refOfDeployment y"
  shows "\<exists>F' t. forRange (unidleDeployment P) ds () s = (Ok (), t)
     \<and> cl_deployments (objectsOf view t) = map F' L
     \<and> (\<forall>d \<in> set L. F' d = (if d \<in> set ds then afterUnidle d else F d))"
  using assms(4-8)
proof (induction ds arbitrary: F s)
  case Nil
  then show ?case by (auto simp: ret_def)
next
  case (Cons d ds)
  have Fd: "F d = d" and d: "d \<in> set L" using Cons.prems(1,3) by auto
  let ?F1 = "F(d := afterUnidle d)"
  have "\<exists>s1. unidleDeployment P d () s = (Ok (Continue ()), s1) \<and> cl_deployments (objectsOf view s1) = map ?F1 L"
  proof (cases "needsScaling d")
    case False
    then have "map F L = map ?F1 L" using Fd by (simp add: afterUnidle_def fun_upd_idem)
    with False Cons.prems(3,4) show ?thesis
      by (auto simp: unidleDeployment_def needsScaling_def ret_def)
  next
    case True
    let ?p = "unidlePatch (unidleReplicas d)"
    have ex: "refExists (refOfDeployment d) (objectsOf view s)"
      using refExists_map [OF Cons.prems(4) d Cons.prems(5) [OF d]] .
    obtain s1 where p: "Patch P (refOfDeployment d) ?p s = (Ok None, s1)"
      and s1: "objectsOf view s1 = patchObject (refOfDeployment d) ?p (objectsOf view s)"
      using Patch_accepted [OF assms(1,2) ex] by blast
    have upd: "mergeDeployment ?p (F d) = afterUnidle d"
      using True by (simp add: Fd afterUnidle_def)
    have "cl_deployments (objectsOf view s1) = map ?F1 L"
      using deployments_patch [where p = ?p, OF Cons.prems(4) assms(3) d Cons.prems(5)] unfolding s1 upd .
    moreover have "unidleDeployment P d () s = (Ok (Continue ()), s1)"
      using True p by (simp add: unidleDeployment_def needsScaling_def andThen_def ret_def)
    ultimately show ?thesis by blast
  qed
  then obtain s1 where run1: "unidleDeployment P d () s = (Ok (Continue ()), s1)"
    and L1: "cl_deployments (objectsOf view s1) = map ?F1 L" by blast
  have "refOfDeployment (?F1 y) = refOfDeployment y" if "y \<in> set L" for y
    using Cons.prems(5) [OF that] by simp
  moreover have "\<forall>x \<in> set ds. ?F1 x = x \<and> dep_replicas x \<noteq> None" using Cons.prems(2,3) by auto
  ultimately obtain F' t where run: "forRange (unidleDeployment P) ds () s1 = (Ok (), t)"
    and L: "cl_deployments (objectsOf view t) = map F' L"
    and F': "\<forall>x \<in> set L. F' x = (if x \<in> set ds then afterUnidle x else ?F1 x)"
    using Cons.IH [of ?F1 s1] Cons.prems(1,2) L1 by auto
  have "forRange (unidleDeployment P) (d # ds) () s = (Ok (), t)"
    using run run1 by (simp add: andThen_Ok)
  moreover have "\<forall>x \<in> set L. F' x = (if x \<in> set (d # ds) then afterUnidle x else F x)"
    using F' by auto
  ultimately show ?case using L by blast
qed

end
