(* ===== verification/Cycle.thy ===== *)
theory Cycle
  imports EndToEnd
begin

text \<open>
  A whole cycle in the cluster: a forced run of the service idler followed by \<open>Unidle\<close>, on an
  API server that is up and obeys the laws of ApiServer.
\<close>

section \<open>The forced decision\<close>

definition selectorsOk :: "'w platform \<Rightarrow> idler \<Rightarrow> bool" where
  "selectorsOk P h \<longleftrightarrow>
     (\<forall>sl \<in> set (svc_Builds (service (Selectors h)) @ svc_Deployments (service (Selectors h))
                @ svc_Ingress (service (Selectors h))). selectorOk P sl)"

text \<open>The requirements the three label selectors of the configuration become.\<close>

abbreviation buildReqs :: "idler \<Rightarrow> requirement list" where
  "buildReqs h \<equiv> map requirementOf (svc_Builds (service (Selectors h)))"

abbreviation deploymentReqs :: "idler \<Rightarrow> requirement list" where
  "deploymentReqs h \<equiv> map requirementOf (svc_Deployments (service (Selectors h)))"

abbreviation ingressReqs :: "idler \<Rightarrow> requirement list" where
  "ingressReqs h \<equiv> map requirementOf (svc_Ingress (service (Selectors h)))"

lemma selectorsOk_reqs:
  assumes "selectorsOk P h"
  shows "generateLabelRequirements P (svc_Builds (service (Selectors h))) = Ok (buildReqs h)"
    and "generateLabelRequirements P (svc_Deployments (service (Selectors h))) = Ok (deploymentReqs h)"
    and "generateLabelRequirements P (svc_Ingress (service (Selectors h))) = Ok (ingressReqs h)"
  using assms by (auto simp: selectorsOk_def generateLabelRequirements_def appendRequirements_eq)

lemma checkDeployment_returns:
  assumes "\<forall>d \<in> set ds. dep_replicas d \<noteq> None"
  shows "\<exists>b t. forRange (checkDeployment P h namespace iv) ds idle s = (Ok b, t)"
  using assms
proof (induction ds arbitrary: idle s)
  case Nil
  then show ?case by (simp add: ret_def)
next
  case (Cons d ds)
  then obtain r where "dep_replicas d = Some r" by auto
  then have "\<exists>l t. checkDeployment P h namespace iv d idle s = (Ok l, t)"
    by (simp add: checkDeployment_def differsFromFresh_def andThen_def ListPods_def request_eval ret_def
        split: sum.split)
  then obtain l t where "checkDeployment P h namespace iv d idle s = (Ok l, t)" by blast
  with Cons show ?case by (cases l) (auto simp: andThen_Ok ret_def)
qed

lemma ListDeployments_matching:
  assumes "apiServer P view" and "answers P view"
  shows "\<exists>t. ListDeployments P (inNamespace ns (Requirements rs)) s
           = (Ok (Inr (deploymentsMatching ns rs (objectsOf view s))), t) \<and> objectsOf view t = objectsOf view s"
proof -
  have laws: "readsKeep P view" "listsMatch P view" using assms(1) by (simp_all add: apiServer_def)
  obtain ds where ds: "fst (listDeployments P (inNamespace ns (Requirements rs)) (world s)) = Inr ds"
    using assms(2) unfolding answers_def by blast
  with laws(2) have "ds = deploymentsMatching ns rs (objectsOf view s)"
    unfolding listsMatch_def by blast
  with ds laws(1) show ?thesis
    by (simp add: ListDeployments_def request_eval readsKeep_def)
qed

lemma ListIngresses_matching:
  assumes "apiServer P view" and "answers P view"
  shows "\<exists>t. ListIngresses P (inNamespace ns (Requirements rs)) s
           = (Ok (Inr (ingressesMatching ns rs (objectsOf view s))), t) \<and> objectsOf view t = objectsOf view s"
proof -
  have laws: "readsKeep P view" "listsMatch P view" using assms(1) by (simp_all add: apiServer_def)
  obtain ings where ings: "fst (listIngresses P (inNamespace ns (Requirements rs)) (world s)) = Inr ings"
    using assms(2) unfolding answers_def by blast
  with laws(2) have "ings = ingressesMatching ns rs (objectsOf view s)"
    unfolding listsMatch_def by blast
  with ings laws(1) show ?thesis
    by (simp add: ListIngresses_def request_eval readsKeep_def)
qed

lemma serviceDecision_forced:
  assumes "apiServer P view" and "answers P view" and "selectorsOk P h" and "forceIdle \<or> forceScale"
    and "fst (serviceRunningBuild P h (inNamespace (ns_name namespace) (Requirements (buildReqs h))) s) = Ok False"
    and "\<forall>d \<in> set (cl_deployments (objectsOf view s)). dep_replicas d \<noteq> None"
  shows "\<exists>t. serviceDecision P h namespace forceIdle forceScale s
           = (Ok (Some (deploymentsMatching (ns_name namespace) (deploymentReqs h) (objectsOf view s))), t)
         \<and> objectsOf view t = objectsOf view s"
proof -
  let ?ds = "deploymentsMatching (ns_name namespace) (deploymentReqs h) (objectsOf view s)"
  have reads: "readsKeep P view" using assms(1) by (simp add: apiServer_def)
  obtain s1 where b: "serviceRunningBuild P h (inNamespace (ns_name namespace) (Requirements (buildReqs h))) s
      = (Ok False, s1)"
    using assms(5) by (metis prod.collapse)
  have "preserves (objectsOf view) (serviceRunningBuild P h opts)" for opts
    unfolding serviceRunningBuild_def by (intro keeps_objects_rules keeps_objects_read [OF reads])
  from steps_run [OF this b] have s1: "objectsOf view s1 = objectsOf view s" .
  obtain s2 where l: "ListDeployments P (inNamespace (ns_name namespace) (Requirements (deploymentReqs h))) s1
      = (Ok (Inr ?ds), s2)"
    using ListDeployments_matching [OF assms(1,2), of "ns_name namespace" "deploymentReqs h" s1] s1 by auto
  have "\<forall>d \<in> set ?ds. dep_replicas d \<noteq> None"
    using assms(6) by (simp add: deploymentsMatching_def)
  then obtain idle t where c: "forRange (checkDeployment P h namespace
      (intervalOverride (PodCheckInterval h) ''idling.amazee.io/pod-interval'' namespace)) ?ds False s2 = (Ok idle, t)"
    using checkDeployment_returns by blast
  have D: "serviceDecision P h namespace forceIdle forceScale s = (Ok (Some ?ds), t)"
    using assms(4)
    by (auto simp: serviceDecision_def selectorsOk_reqs [OF assms(3)] andThen_def b l c ret_def)
  from steps_run [OF keeps_objects_serviceDecision [OF reads] D] D show ?thesis by blast
qed

section \<open>The ingresses are patched\<close>

lemma list_ex_map_kept: "(\<And>x. Q (f x) \<longleftrightarrow> Q x) \<Longrightarrow> list_ex Q (map f xs) \<longleftrightarrow> list_ex Q xs"
  by (induction xs) simp_all

lemma refExists_patch [simp]: "refExists r (patchObject ref p v) \<longleftrightarrow> refExists r v"
  by (cases r; cases ref) (simp_all add: list_ex_map_kept)

lemma patchOneIngress_accepted:
  assumes "patchMerges P view" and "answers P view"
    and "\<forall>i \<in> set is. refExists (refOfIngress i) (objectsOf view s)"
  shows "\<exists>p t. forRange (patchOneIngress P h) is (b, None) s = (Ok (p, None), t)
     \<and> (\<forall>r. refExists r (objectsOf view t) \<longleftrightarrow> refExists r (objectsOf view s))"
  using assms(3)
proof (induction "is" arbitrary: b s)
  case Nil
  then show ?case by (simp add: ret_def)
next
  case (Cons i "is")
  show ?case
  proof (cases "DryRun h")
    case True
    with Cons show ?thesis by (simp add: patchOneIngress_def)
  next
    case False
    from Cons.prems obtain s1 where p: "Patch P (refOfIngress i) (ingressPatch i) s = (Ok None, s1)"
      and s1: "objectsOf view s1 = patchObject (refOfIngress i) (ingressPatch i) (objectsOf view s)"
      using Patch_accepted [OF assms(1,2)] by (metis list.set_intros(1))
    have "\<forall>j \<in> set is. refExists (refOfIngress j) (objectsOf view s1)"
      using Cons.prems unfolding s1 refExists_patch by simp
    from Cons.IH [OF this, of True] obtain q t
      where "forRange (patchOneIngress P h) is (True, None) s1 = (Ok (q, None), t)"
      and "\<forall>r. refExists r (objectsOf view t) \<longleftrightarrow> refExists r (objectsOf view s1)" by blast
    moreover have "patchOneIngress P h i (b, None) s = (Ok (Continue (True, None)), s1)"
      using False p by (simp add: patchOneIngress_def andThen_Ok ret_def)
    ultimately show ?thesis
      unfolding s1 refExists_patch by (simp add: andThen_Ok)
  qed
qed

lemma patchIngress_accepted:
  assumes "apiServer P view" and "answers P view" and "selectorsOk P h"
    and "refExists (NamespaceRef (ns_name namespace)) (objectsOf view s)"
  shows "\<exists>t. patchIngress P h namespace s = (Ok None, t)"
proof (cases "svc_SkipIngressPatch (service (Selectors h))")
  case True
  then show ?thesis by (simp add: patchIngress_def ret_def)
next
  case False
  let ?is = "ingressesMatching (ns_name namespace) (ingressReqs h) (objectsOf view s)"
  have merges: "patchMerges P view" using assms(1) by (simp add: apiServer_def)
  obtain u where l: "ListIngresses P (inNamespace (ns_name namespace) (Requirements (ingressReqs h))) s
      = (Ok (Inr ?is), u)" and u: "objectsOf view u = objectsOf view s"
    using ListIngresses_matching [OF assms(1,2)] by blast
  have "\<forall>i \<in> set ?is. refExists (refOfIngress i) (objectsOf view u)"
    by (auto simp: u ingressesMatching_def list_ex_iff)
  from patchOneIngress_accepted [OF merges assms(2) this, of h False] obtain p v
    where loop: "forRange (patchOneIngress P h) ?is (False, None) u = (Ok (p, None), v)"
    and v: "\<forall>r. refExists r (objectsOf view v) \<longleftrightarrow> refExists r (objectsOf view u)" by blast
  let ?v = "v\<lparr>metrics := (metrics v)\<lparr>serviceIdleEvents := serviceIdleEvents (metrics v) + 1\<rparr>\<rparr>"
  have "refExists (NamespaceRef (ns_name namespace)) (objectsOf view ?v)"
    using v u assms(4) by simp
  from Patch_accepted [OF merges assms(2) this, of "idledLabelPatch ''true''"]
  obtain w where "Patch P (NamespaceRef (ns_name namespace)) (idledLabelPatch ''true'') ?v = (Ok None, w)" by blast
  then have "\<exists>t. ingressEpilogue P namespace p v = (Ok None, t)"
    by (simp add: ingressEpilogue_def countMetric_def andThen_Ok andThen_def ret_def)
  with False l loop show ?thesis
    by (simp add: patchIngress_eq selectorsOk_reqs [OF assms(3)] andThen_Ok)
qed

section \<open>The two halves of the cycle on the stored deployments\<close>

lemma forced_idle_objects:
  assumes "apiServer P view" and "answers P view" and "selectorsOk P h" and "forceIdle \<or> forceScale"
    and "\<not> DryRun h" and "refExists (NamespaceRef (ns_name namespace)) (objectsOf view s)"
    and "fst (serviceRunningBuild P h (inNamespace (ns_name namespace) (Requirements (buildReqs h))) s) = Ok False"
    and "\<forall>d \<in> set (cl_deployments (objectsOf view s)). dep_replicas d \<noteq> None"
    and "distinct (map refOfDeployment (cl_deployments (objectsOf view s)))"
    and "ds = deploymentsMatching (ns_name namespace) (deploymentReqs h) (objectsOf view s)"
  shows "\<exists>F t. KubernetesServiceIdler P h namespace forceIdle forceScale s = (Ok (), t)
     \<and> cl_deployments (objectsOf view t) = map F (cl_deployments (objectsOf view s))
     \<and> (\<forall>d \<in> set (cl_deployments (objectsOf view s)).
          if d \<in> set ds then \<exists>now. F d = afterIdle forceIdle forceScale now d else F d = d)"
proof -
  let ?L = "cl_deployments (objectsOf view s)"
  have merges: "patchMerges P view" using assms(1) by (simp add: apiServer_def)
  obtain s1 where D: "serviceDecision P h namespace forceIdle forceScale s = (Ok (Some ds), s1)"
    and s1: "objectsOf view s1 = objectsOf view s"
    using serviceDecision_forced [OF assms(1-4,7,8)] assms(10) by blast
  have "refExists (NamespaceRef (ns_name namespace)) (objectsOf view s1)"
    using assms(6) by (simp only: s1)
  from patchIngress_accepted [OF assms(1-3) this] obtain s2
    where I: "patchIngress P h namespace s1 = (Ok None, s2)" by blast
  have s2: "cl_deployments (objectsOf view s2) = map (\<lambda>d. d) ?L"
    using steps_run [OF patchIngress_keeps_deployments [OF assms(1)] I] s1 by simp
  have "set ds \<subseteq> set ?L" by (auto simp: assms(10) deploymentsMatching_def)
  moreover have "distinct ds"
    using assms(9) by (simp add: assms(10) deploymentsMatching_def distinct_map)
  moreover have "\<forall>d \<in> set ds. d = d \<and> dep_replicas d \<noteq> None" using assms(8) \<open>set ds \<subseteq> set ?L\<close> by auto
  ultimately obtain F t where "idleDeployments P h ds forceIdle forceScale s2 = (Ok (), t)"
    and "cl_deployments (objectsOf view t) = map F ?L"
    and "\<forall>d \<in> set ?L. if d \<in> set ds then \<exists>now. F d = afterIdle forceIdle forceScale now d else F d = d"
    using idle_loop_objects [OF merges assms(2,5,9) _ _ _ s2, of ds forceIdle forceScale] by auto
  moreover from this(1) have "KubernetesServiceIdler P h namespace forceIdle forceScale s = (Ok (), t)"
    by (simp add: KubernetesServiceIdler_split serviceAction_def andThen_def D I)
  ultimately show ?thesis by blast
qed

text \<open>What \<open>Unidle\<close> does after its scale-up loop leaves the deployments as they are.\<close>

lemma unidle_rest_keeps_deployments:
  assumes "apiServer P view" and "pollRunsCondition P"
  shows "preserves (\<lambda>s. cl_deployments (objectsOf view s))
     (andThen (forRange (waitForPods P namespace) ds ()) (\<lambda>_.
      andThen (removeCodeFromIngress P (ns_name namespace)) (\<lambda>_.
      andThen (countMetric (\<lambda>m. m\<lparr>unidleEvents := unidleEvents m + 1\<rparr>)) (\<lambda>_.
      andThen (Patch P (NamespaceRef (ns_name namespace)) unidledLabelPatch) (\<lambda>e. ret ())))))"
proof -
  have api: "readsKeep P view" "patchMerges P view" using assms(1) by (simp_all add: apiServer_def)
  have "preserves (\<lambda>s. cl_deployments (objectsOf view s)) (waitForPods P namespace d acc)" for d acc
    using keeps_objects_waitForPods [OF api(1) assms(2)] by (rule steps_mono) simp
  moreover have "preserves (\<lambda>s. cl_deployments (objectsOf view s)) (ListIngresses P opts)" for opts
    using keeps_objects_read(4) [OF api(1)] by (rule steps_mono) simp
  ultimately show ?thesis
    unfolding removeCodeFromIngress_def restoreIngress_def
    by (intro pres.steps_rules keeps_Patch [OF api(2)] preserves_countMetric) simp_all
qed

abbreviation watched :: requirement where
  "watched \<equiv> \<lparr>req_key = ''idling.amazee.io/watch'', req_op = ''='', req_values = [''true'']\<rparr>"

lemma unidle_objects:
  assumes "apiServer P view" and "answers P view" and "pollRunsCondition P"
    and "newRequirementOk P ''idling.amazee.io/watch'' ''='' [''true'']"
    and "\<forall>d \<in> set (cl_deployments (objectsOf view s)). dep_replicas d \<noteq> None"
    and "distinct (map refOfDeployment (cl_deployments (objectsOf view s)))"
  shows "cl_deployments (objectsOf view (snd (Unidle P namespace s)))
     = map (\<lambda>d. if dep_namespace d = ns_name namespace \<and> dep_labels d ''idling.amazee.io/watch'' = Some ''true''
                then afterUnidle d else d) (cl_deployments (objectsOf view s))"
proof -
  let ?L = "cl_deployments (objectsOf view s)"
  let ?ds = "deploymentsMatching (ns_name namespace) [watched] (objectsOf view s)"
  have merges: "patchMerges P view" using assms(1) by (simp add: apiServer_def)
  obtain s1 where l: "ListDeployments P (inNamespace (ns_name namespace) (Requirements [watched])) s = (Ok (Inr ?ds), s1)"
    and s1: "objectsOf view s1 = objectsOf view s"
    using ListDeployments_matching [OF assms(1,2)] by blast
  have sub: "set ?ds \<subseteq> set ?L" by (auto simp: deploymentsMatching_def)
  moreover have "distinct ?ds" using assms(6) by (simp add: deploymentsMatching_def distinct_map)
  moreover have "\<forall>d \<in> set ?ds. d = d \<and> dep_replicas d \<noteq> None" using assms(5) sub by auto
  moreover have "cl_deployments (objectsOf view s1) = map (\<lambda>d. d) ?L" using s1 by simp
  ultimately obtain F t where loop: "forRange (unidleDeployment P) ?ds () s1 = (Ok (), t)"
    and t: "cl_deployments (objectsOf view t) = map F ?L"
    and F: "\<forall>d \<in> set ?L. F d = (if d \<in> set ?ds then afterUnidle d else d)"
    using unidle_loop_objects [OF merges assms(2,6), of ?ds "\<lambda>d. d" s1] by auto
  let ?rest = "andThen (forRange (waitForPods P namespace) ?ds ()) (\<lambda>_.
      andThen (removeCodeFromIngress P (ns_name namespace)) (\<lambda>_.
      andThen (countMetric (\<lambda>m. m\<lparr>unidleEvents := unidleEvents m + 1\<rparr>)) (\<lambda>_.
      andThen (Patch P (NamespaceRef (ns_name namespace)) unidledLabelPatch) (\<lambda>e. ret ()))))"
  have "world (snd (Unidle P namespace s)) = world (snd (?rest t))"
    using assms(4) by (simp add: Unidle_def deferred_apply equalsTrue_def andThen_Ok l loop)
  then have "cl_deployments (objectsOf view (snd (Unidle P namespace s))) = map F ?L"
    using stepsD [where s = t, OF unidle_rest_keeps_deployments [OF assms(1,3)]] t by simp
  also have "\<dots> = map (\<lambda>d. if dep_namespace d = ns_name namespace \<and> dep_labels d ''idling.amazee.io/watch'' = Some ''true''
                then afterUnidle d else d) ?L"
    using F by (intro map_cong refl)
      (auto simp: deploymentsMatching_def meets_def split: option.splits)
  finally show ?thesis .
qed

section \<open>The whole cycle\<close>


end
