(* ===== verification/Healthy.thy ===== *)
theory Healthy
  imports ApiServer CliIdler Reconciler Setup
begin

text \<open>
  Total correctness of the idlers, of \<open>Unidle\<close> and of the reconciler: on a healthy cluster,
  whose deployments have a replica count and a selector, with a configuration whose
  selectors the label library accepts, every entry point returns, whatever requests fail,
  and leaves the cluster healthy.
\<close>

section \<open>Health\<close>

definition sound :: "deployment \<Rightarrow> bool" where
  "sound d \<longleftrightarrow> dep_replicas d \<noteq> None \<and> dep_selector d \<noteq> None"

definition healthy :: "objects \<Rightarrow> bool" where
  "healthy v \<longleftrightarrow> list_all sound (cl_deployments v)"

abbreviation healthyIn :: "('w \<Rightarrow> objects) \<Rightarrow> 'w st \<Rightarrow> bool" where
  "healthyIn view s \<equiv> healthy (objectsOf view s)"

lemma sound_merge: "sound d \<Longrightarrow> sound (mergeDeployment p d)"
  by (auto simp: sound_def mergeDeployment_def mergeReplicas_def split: option.split json.split)

lemma healthy_patch: "healthy v \<Longrightarrow> healthy (patchObject ref p v)"
  by (cases ref) (auto simp: healthy_def list_all_iff sound_merge)

text \<open>
  What else is relied on: every selector of the configuration is accepted, polling returns
  when its condition does, and a command that ran in a pod printed something.
\<close>

definition configOk :: "'w platform \<Rightarrow> idler \<Rightarrow> bool" where
  "configOk P h \<longleftrightarrow> list_all (selectorOk P)
     (svc_Namespace (service (Selectors h)) @ svc_Builds (service (Selectors h))
      @ svc_Deployments (service (Selectors h)) @ svc_Ingress (service (Selectors h))
      @ cli_Namespace (cli (Selectors h)) @ cli_Builds (cli (Selectors h))
      @ cli_Deployments (cli (Selectors h)) @ cli_Pods (cli (Selectors h)))"

definition pollReturns :: "'w platform \<Rightarrow> bool" where
  "pollReturns P \<longleftrightarrow> (\<forall>I cond. returning I cond \<longrightarrow> returning I (waitPoll P cond))"

definition execPrints :: "'w platform \<Rightarrow> bool" where
  "execPrints P \<longleftrightarrow> (\<forall>r w out. fst (execStream P r w) = Inr out \<longrightarrow> trimSpace (fst out) \<noteq> [])"

definition working :: "'w platform \<Rightarrow> ('w \<Rightarrow> objects) \<Rightarrow> idler \<Rightarrow> bool" where
  "working P view h \<longleftrightarrow> apiServer P view \<and> getsMatch P view \<and> configOk P h \<and> pollReturns P
     \<and> execPrints P \<and> newRequirementOk P ''idling.amazee.io/watch'' ''='' [''true'']"

lemma workingD:
  assumes "working P view h"
  shows "readsKeep P view" "patchMerges P view" "listsMatch P view" "getsMatch P view"
    "configOk P h" "pollReturns P" "execPrints P"
    "newRequirementOk P ''idling.amazee.io/watch'' ''='' [''true'']"
  using assms by (simp_all add: working_def apiServer_def)

section \<open>What a run needs\<close>

text \<open>The deployments a list or a get answers with are sound, a command printed something.\<close>

fun soundAnswer :: "gerror + deployment list \<Rightarrow> bool" where
  "soundAnswer (Inl e) = True"
| "soundAnswer (Inr ds) = list_all sound ds"

fun soundFound :: "gerror + deployment \<Rightarrow> bool" where
  "soundFound (Inl e) = True"
| "soundFound (Inr d) = sound d"

fun printed :: "gerror + string \<times> string \<Rightarrow> bool" where
  "printed (Inl e) = True"
| "printed (Inr out) = (trimSpace (fst out) \<noteq> [])"

lemma generateLabelRequirements_returns:
  "list_all (selectorOk P) ss \<Longrightarrow>
     andThen (liftO (generateLabelRequirements P ss)) f = f (map requirementOf ss)"
  by (simp add: generateLabelRequirements_def appendRequirements_eq list_all_iff)

lemma configOk_labels:
  assumes "configOk P h"
  shows
    "andThen (liftO (generateLabelRequirements P (svc_Namespace (service (Selectors h))))) f1
       = f1 (map requirementOf (svc_Namespace (service (Selectors h))))"
    "andThen (liftO (generateLabelRequirements P (svc_Builds (service (Selectors h))))) f2
       = f2 (map requirementOf (svc_Builds (service (Selectors h))))"
    "andThen (liftO (generateLabelRequirements P (svc_Deployments (service (Selectors h))))) f3
       = f3 (map requirementOf (svc_Deployments (service (Selectors h))))"
    "andThen (liftO (generateLabelRequirements P (svc_Ingress (service (Selectors h))))) f4
       = f4 (map requirementOf (svc_Ingress (service (Selectors h))))"
    "andThen (liftO (generateLabelRequirements P (cli_Namespace (cli (Selectors h))))) f5
       = f5 (map requirementOf (cli_Namespace (cli (Selectors h))))"
    "andThen (liftO (generateLabelRequirements P (cli_Builds (cli (Selectors h))))) f6
       = f6 (map requirementOf (cli_Builds (cli (Selectors h))))"
    "andThen (liftO (generateLabelRequirements P (cli_Deployments (cli (Selectors h))))) f7
       = f7 (map requirementOf (cli_Deployments (cli (Selectors h))))"
    "andThen (liftO (generateLabelRequirements P (cli_Pods (cli (Selectors h))))) f8
       = f8 (map requirementOf (cli_Pods (cli (Selectors h))))"
  using assms by (simp_all add: configOk_def generateLabelRequirements_returns)

text \<open>
  An invariant of the state under which no request, and nothing the code does with its answer,
  panics.  Every entry point of the controller then returns and keeps the invariant.
\<close>

locale total_runs =
  fixes I :: "'w st \<Rightarrow> bool" and P :: "'w platform" and h :: idler
  assumes own_state: "I s \<Longrightarrow> world t = world s \<Longrightarrow> I t"
    and list_namespaces: "returning I (ListNamespaces P opts)"
    and list_pods: "returning I (ListPods P opts)"
    and list_ingresses: "returning I (ListIngresses P opts)"
    and get_namespace: "returning I (GetNamespace P n)"
    and prom_query: "returning I (PromQuery P q)"
    and patch: "returning I (Patch P ref p)"
    and list_deployments: "returns I (ListDeployments P (inNamespace ns (Requirements rs))) soundAnswer"
    and get_deployment: "returns I (GetDeployment P ns n) soundFound"
    and exec_stream: "returns I (ExecStream P r) printed"
    and poll: "returning I cond \<Longrightarrow> returning I (waitPoll P cond)"
    and config: "configOk P h"
    and watchable: "newRequirementOk P ''idling.amazee.io/watch'' ''='' [''true'']"
begin

lemma count: "returning I (countMetric f)"
  unfolding countMetric_def by (rule returns_modify) (erule own_state, simp)

lemmas total =
  returns_rules TrueI list_namespaces list_pods list_ingresses get_namespace prom_query patch count

text \<open>The same for code that goes on with the answer.\<close>

lemma list_deployments_andThen:
  assumes "\<And>e. returns I (f (Inl e)) Q" and "\<And>ds. list_all sound ds \<Longrightarrow> returns I (f (Inr ds)) Q"
  shows "returns I (andThen (ListDeployments P (inNamespace ns (Requirements rs))) f) Q"
proof (rule returns_andThen [OF list_deployments])
  fix r
  assume "soundAnswer r"
  with assms show "returns I (f r) Q" by (cases r) simp_all
qed

section \<open>The service idler\<close>

lemma returns_checkDeployment:
  assumes "sound d"
  shows "returning I (checkDeployment P h namespace iv d idle)"
  using assms unfolding checkDeployment_def differsFromFresh_def sound_def
  by (auto intro!: total)

lemma returns_environmentHits: "returning I (environmentHits P namespace iv)"
  unfolding environmentHits_def by (intro total)

lemma returns_serviceRunningBuild: "returning I (serviceRunningBuild P h opts)"
  unfolding serviceRunningBuild_def by (intro total)

lemma returns_patchIngress: "returning I (patchIngress P h namespace)"
  unfolding patchIngress_def configOk_labels [OF config] patchOneIngress_def by (intro total)

lemma returns_idleDeployments:
  assumes "list_all sound ds"
  shows "returning I (idleDeployments P h ds forceIdle forceScale)"
  using assms unfolding idleDeployments_def idleOneDeployment_def sound_def
  by (auto simp: list_all_iff intro!: total)

lemma returns_serviceDecision:
  "returns I (serviceDecision P h namespace forceIdle forceScale) (\<lambda>d. \<forall>ds. d = Some ds \<longrightarrow> list_all sound ds)"
proof -
  have loop: "returning I (forRange (checkDeployment P h namespace iv) ds idle)"
    if "list_all sound ds" for ds iv idle
    using that by (intro returns_forRange returns_checkDeployment) (auto simp: list_all_iff)
  show ?thesis
    unfolding serviceDecision_def configOk_labels [OF config]
    by (intro returns_seq [OF returns_serviceRunningBuild] returns_if list_deployments_andThen)
      (auto intro!: returns_rules loop returns_environmentHits)
qed

lemma returns_KubernetesServiceIdler:
  "returning I (KubernetesServiceIdler P h namespace forceIdle forceScale)"
  unfolding KubernetesServiceIdler_split
proof (rule returns_andThen [OF returns_serviceDecision])
  fix d
  assume "\<forall>ds. d = Some ds \<longrightarrow> list_all sound ds"
  then show "returning I (serviceAction P h namespace forceIdle forceScale d)"
    unfolding serviceAction_def
    by (auto intro!: returns_rules returns_patchIngress returns_idleDeployments)
qed

lemma returns_ServiceIdler: "returning I (ServiceIdler P h)"
  unfolding ServiceIdler_def configOk_labels [OF config] serviceNamespace_def
  by (intro total returns_KubernetesServiceIdler)

section \<open>The CLI idler\<close>

lemma returns_execPod: "returns I (execPod P podName ns command stdin tty) printed"
proof -
  have "returns I (andThen (ExecStream P r) (\<lambda>r. case r of
        Inl err \<Rightarrow> ret (Inl (GoError (''error in Stream: '' @ errorString err)))
      | Inr out \<Rightarrow> ret (Inr out))) printed" for r
    using exec_stream by (rule returns_andThen) (auto intro!: returns_sum returns_ret)
  then show ?thesis
    unfolding execPod_def
    by (intro returns_seq [OF returns_gets] returns_option returns_Let returns_ret) auto
qed

lemma returns_cliScale: "returning I (cliScale P h d)"
  unfolding cliScale_def by (intro total)

lemma returns_cliPod: "returning I (cliPod P h namespace d pod acc)"
proof -
  have count: "returning J (liftO (countProcesses out))" if "trimSpace out \<noteq> []" for J :: "'b \<Rightarrow> bool" and out
    using that by (intro returnsI) (simp add: liftO_def countProcesses_def Let_def split: prod.split)
  show ?thesis
    unfolding cliPod_def
    by (intro returns_if returns_andThen [OF returns_execPod] returns_seq [OF returns_cliScale]
        returns_sum returns_seq [OF count] returns_ret) auto
qed

lemma returns_cliDeployment:
  assumes "sound d"
  shows "returning I (cliDeployment P h namespace d acc)"
proof -
  obtain r where r: "dep_replicas d = Some r" using assms by (auto simp: sound_def)
  show ?thesis
    unfolding cliDeployment_def cliDiffersFromFresh_def configOk_labels [OF config] r option.case Let_def
    by (intro total returns_cliPod)
qed

lemma returns_CLIIdler: "returning I (CLIIdler P h)"
proof -
  have loop: "returning I (forRange (cliDeployment P h namespace) ds ())"
    if "list_all sound ds" for ds namespace
    using that by (intro returns_forRange returns_cliDeployment) (auto simp: list_all_iff)
  have "returning I (cliRunningBuild P h opts)" for opts
    unfolding cliRunningBuild_def by (intro total)
  then have "returning I (kubernetesCLI P h namespace)" for namespace
    unfolding kubernetesCLI_def configOk_labels [OF config]
    by (intro returns_seq returns_if list_deployments_andThen) (auto intro!: loop returns_ret)
  then show ?thesis
    unfolding CLIIdler_def configOk_labels [OF config] cliNamespace_def by (intro total)
qed

lemma returns_runJob: "returning I (runJob P h j)"
  by (cases j) (simp_all add: returns_CLIIdler returns_ServiceIdler)

section \<open>Unidle and the reconciler\<close>

lemma returns_hasRunningPod: "returning I (hasRunningPod P ns n)"
  unfolding hasRunningPod_def
proof (rule returns_andThen [OF get_deployment])
  fix r :: "gerror + deployment"
  assume "soundFound r"
  then show "returning I (case r of
         Inl err \<Rightarrow> ret (Inl err)
       | Inr d \<Rightarrow>
         (case dep_selector d of
            None \<Rightarrow> panic ''nil pointer dereference''
          | Some matchLabels \<Rightarrow>
            andThen (ListPods P \<lparr>lo_namespace = None, lo_selector = Some (LabelSet matchLabels)\<rparr>) (\<lambda>r.
              case r of
                Inl err \<Rightarrow> ret (Inl err)
              | Inr pods \<Rightarrow>
                (case pods of
                   [] \<Rightarrow> ret (Inr False)
                 | pod # _ \<Rightarrow> ret (Inr (pod_phase pod = ''Running''))))))"
    by (cases r) (auto simp: sound_def intro!: total)
qed

lemma returns_scaling: "list_all sound ds \<Longrightarrow> returning I (forRange (unidleDeployment P) ds ())"
  unfolding unidleDeployment_def sound_def by (auto simp: list_all_iff intro!: total)

lemma returns_waiting: "returning I (forRange (waitForPods P namespace) ds ())"
  unfolding waitForPods_def by (intro total poll returns_hasRunningPod)

lemma returns_codes: "returning I (removeCodeFromIngress P ns)"
  unfolding removeCodeFromIngress_def restoreIngress_def by (intro total)

lemma returns_Unidle: "returning I (Unidle P namespace)"
proof -
  have watch: "andThen (liftO (equalsTrue P ''idling.amazee.io/watch'')) f
      = f [\<lparr>req_key = ''idling.amazee.io/watch'', req_op = ''='', req_values = [''true'']\<rparr>]"
    for f :: "requirement list \<Rightarrow> ('w st, unit) go"
    using watchable by (simp add: equalsTrue_def)
  show ?thesis
    unfolding Unidle_def watch
    by (intro returns_deferred list_deployments_andThen)
      (auto intro!: total returns_waiting returns_codes returns_scaling intro: own_state)
qed

lemma returns_Reconcile: "returning I (Reconcile P h req)"
  unfolding Reconcile_def by (intro total returns_KubernetesServiceIdler returns_Unidle)

end

section \<open>Health is such an invariant\<close>

lemma returns_request:
  "(\<And>w. view (snd (g w)) = view w) \<Longrightarrow> returning (healthyIn view) (request c g)"
  by (rule returnsI) (simp add: request_eval)

lemma returns_Patch:
  assumes "patchMerges P view"
  shows "returning (healthyIn view) (Patch P ref p)"
  using assms by (intro returnsI) (simp add: Patch_def request_eval patchMerges_def healthy_patch)

text \<open>The answers, whatever state they come from.\<close>

lemma healthy_answers:
  assumes "healthy (view w)"
  shows "listsMatch P view \<Longrightarrow> soundAnswer (fst (listDeployments P (inNamespace ns (Requirements rs)) w))"
    and "getsMatch P view \<Longrightarrow> soundFound (fst (getDeployment P ns n w))"
proof -
  show "soundAnswer (fst (listDeployments P (inNamespace ns (Requirements rs)) w))" if "listsMatch P view"
  proof (cases "fst (listDeployments P (inNamespace ns (Requirements rs)) w)")
    case (Inr ds)
    with that have "ds = deploymentsMatching ns rs (view w)" unfolding listsMatch_def by blast
    with assms Inr show ?thesis by (auto simp: deploymentsMatching_def healthy_def list_all_iff)
  qed simp
  show "soundFound (fst (getDeployment P ns n w))" if "getsMatch P view"
  proof (cases "fst (getDeployment P ns n w)")
    case (Inr d)
    with that have "d \<in> set (cl_deployments (view w))" unfolding getsMatch_def by blast
    with assms Inr show ?thesis by (simp add: healthy_def list_all_iff)
  qed simp
qed

lemma execPrints_answer: "execPrints P \<Longrightarrow> printed (fst (execStream P r w))"
  unfolding execPrints_def
  by (cases "fst (execStream P r w)") (simp_all only: printed.simps not_False_eq_True simp_thms)

lemma working_total:
  assumes "working P view h"
  shows "total_runs (healthyIn view) P h"
proof -
  note w = workingD [OF assms]
  show ?thesis
  proof
    show "returns (healthyIn view) (ListDeployments P (inNamespace ns (Requirements rs))) soundAnswer" for ns rs
      using w(1) healthy_answers(1) [OF _ w(3)]
      by (intro returnsI) (simp add: ListDeployments_def request_eval readsKeep_def)
    show "returns (healthyIn view) (GetDeployment P ns n) soundFound" for ns n
      using w(1) healthy_answers(2) [OF _ w(4)]
      by (intro returnsI) (simp add: GetDeployment_def request_eval readsKeep_def)
    show "returns (healthyIn view) (ExecStream P r) printed" for r
      using w(1) execPrints_answer [OF w(7)]
      by (intro returnsI) (simp add: ExecStream_def request_eval readsKeep_def)
    show "returning (healthyIn view) (waitPoll P cond)" if "returning (healthyIn view) cond" for cond
      using w(6) that by (simp add: pollReturns_def)
  qed (use w(1) in \<open>auto simp: request_defs readsKeep_def w(5,8) returns_Patch [OF w(2), unfolded request_defs]
        intro!: returns_request\<close>)
qed

lemmas returns_Unidle = total_runs.returns_Unidle [OF working_total]
lemmas returns_KubernetesServiceIdler = total_runs.returns_KubernetesServiceIdler [OF working_total]
lemmas returns_hasRunningPod = total_runs.returns_hasRunningPod [OF working_total]
lemmas returns_scaling = total_runs.returns_scaling [OF working_total]
lemmas returns_waiting = total_runs.returns_waiting [OF working_total]


end
