(* ===== verification/Sends.thy ===== *)
theory Sends
  imports CliIdler Reconciler Setup HandlerProps
begin

text \<open>
  The controller seen as a sender of requests.  Two interfaces say what an effect has to put
  up with: \<open>asks\<close>, reading the cluster and working on the process's own state, and \<open>sends\<close>,
  which adds the patches, of given kinds, and polling.  Each entry point of the controller is
  shown once to stay within them; a theory that follows some relation through the runs of the
  controller only has to interpret the interface on it.
\<close>

section \<open>Reading\<close>

locale asks = effect R for R :: "'w st \<Rightarrow> 'w st \<Rightarrow> bool" +
  fixes P :: "'w platform"
  assumes own_state: "world t = world s \<Longrightarrow> calls t = calls s \<Longrightarrow> R s t"
    and list_namespaces: "steps R (ListNamespaces P opts)"
    and list_deployments: "steps R (ListDeployments P opts)"
    and list_pods: "steps R (ListPods P opts)"
    and list_ingresses: "steps R (ListIngresses P opts)"
    and get_namespace: "steps R (GetNamespace P n)"
    and get_deployment: "steps R (GetDeployment P ns n)"
    and get_ingress: "steps R (GetIngress P ns n)"
    and prom_query: "steps R (PromQuery P q)"
    and exec_stream: "steps R (ExecStream P r)"
begin

lemmas reads =
  list_namespaces list_deployments list_pods list_ingresses get_namespace get_deployment get_ingress
  prom_query exec_stream

lemma count: "steps R (countMetric f)"
  by (rule stepsI) (simp add: countMetric_def own_state)

lemma header: "steps R (setHeader k v)" "steps R (WriteHeader c)"
  by (auto intro!: stepsI own_state simp: setHeader_def WriteHeader_def)

lemma body: "steps R (Write b)"
  unfolding Write_def
  by (intro steps_andThen header steps_modify) (auto intro!: own_state split: option.split)

lemma spawn: "steps R (startUnidle ns namespace)"
  by (rule stepsI) (simp add: startUnidle_eval own_state)

lemmas asking = steps_rules steps_list count reads

text \<open>The HTTP server only asks.\<close>

lemma ingressHandler_asks: "steps R (ingressHandler P h path r)"
  unfolding ingressHandler_def serveUnnamed_def serveIngress_def serveAllowed_def verifyRequest_def checkForceScaled_def
    lookupIngress_def genericError_def servePage_def setMetrics_def debugHeaders_def
  by (intro asking steps_lookup header body spawn)

lemma route_asks: "steps R (route P h r)"
  unfolding route_def faviconHandler_def
  by (intro asking header body ingressHandler_asks)

end

section \<open>Patching\<close>

text \<open>The patches \<open>Unidle\<close> sends are of a kind.\<close>

locale wake_kinds =
  fixes A :: "objref \<Rightarrow> json \<Rightarrow> bool"
  assumes wake_deployment: "A (refOfDeployment d) (unidlePatch (unidleReplicas d))"
    and wake_ingress: "restorePatch i = Some q \<Longrightarrow> A (refOfIngress i) q"
    and wake_namespace: "A (NamespaceRef n) unidledLabelPatch"

locale wakes = asks R P + wake_kinds A
  for R :: "'w st \<Rightarrow> 'w st \<Rightarrow> bool" and P :: "'w platform" and A :: "objref \<Rightarrow> json \<Rightarrow> bool" +
  assumes patch: "A ref p \<Longrightarrow> steps R (Patch P ref p)"
    and poll: "steps R cond \<Longrightarrow> steps R (waitPoll P cond)"
begin

lemma hasRunningPod_asks: "steps R (hasRunningPod P ns n)"
  unfolding hasRunningPod_def by (intro asking)

lemma unidleDeployment_sends: "steps R (unidleDeployment P d acc)"
  unfolding unidleDeployment_def by (intro asking patch wake_deployment)

lemma waitForPods_sends: "steps R (waitForPods P namespace d acc)"
  unfolding waitForPods_def by (intro asking poll hasRunningPod_asks)

lemma restoreIngress_sends: "steps R (restoreIngress P i acc)"
  unfolding restoreIngress_def by (intro asking patch wake_ingress)

lemma codes_sends: "steps R (removeCodeFromIngress P ns)"
  unfolding removeCodeFromIngress_def by (intro asking restoreIngress_sends)

lemma Unidle_sends: "steps R (Unidle P namespace)"
  unfolding Unidle_def
  by (intro steps_deferred asking unidleDeployment_sends waitForPods_sends codes_sends patch wake_namespace own_state) simp_all

end

text \<open>The idlers send patches of more kinds.\<close>

locale patch_kinds = wake_kinds +
  assumes idle_namespace: "A (NamespaceRef n) (idledLabelPatch ''true'')"
    and idle_ingress: "A (refOfIngress i) (ingressPatch i)"
    and idle_deployment: "A (refOfDeployment d) (idlePatch fi fs now r)"
    and cli_deployment: "A (refOfDeployment d) cliScalePatch"

locale sends = wakes R P A + patch_kinds A
  for R :: "'w st \<Rightarrow> 'w st \<Rightarrow> bool" and P :: "'w platform" and A :: "objref \<Rightarrow> json \<Rightarrow> bool"
begin

lemma KubernetesServiceIdler_sends: "steps R (KubernetesServiceIdler P h namespace fi fs)"
  unfolding KubernetesServiceIdler_def idleEnvironment_def serviceRunningBuild_def checkDeployment_def environmentHits_def
    patchIngress_def patchOneIngress_def idleDeployments_def idleOneDeployment_def
  by (intro asking patch idle_namespace idle_ingress idle_deployment)

lemma ServiceIdler_sends: "steps R (ServiceIdler P h)"
  unfolding ServiceIdler_def serviceNamespace_def
  by (intro asking KubernetesServiceIdler_sends)

lemma CLIIdler_sends: "steps R (CLIIdler P h)"
  unfolding CLIIdler_def cliNamespace_def kubernetesCLI_def cliRunningBuild_def cliDeployment_def cliPod_def
    cliScale_def execPod_def
  by (intro asking patch cli_deployment)

lemma runJob_sends: "steps R (runJob P h j)"
  by (cases j) (simp_all add: CLIIdler_sends ServiceIdler_sends)

lemma Reconcile_sends:
  assumes "\<And>n l. l \<in> {''idling.amazee.io/force-scaled'', ''idling.amazee.io/force-idled'', ''idling.amazee.io/unidle''}
     \<Longrightarrow> A (NamespaceRef n) (removeLabelPatch l)"
  shows "steps R (Reconcile P h req)"
  unfolding Reconcile_def
  by (intro asking KubernetesServiceIdler_sends Unidle_sends patch assms) simp_all

end

end
