(* ===== verification/Alters.thy ===== *)
theory Alters
  imports ApiServer Sends "HOL-Library.Sublist"
begin

text \<open>
  What the controller does to the cluster, as an effect: every run sends only patches of a
  given kind, and the objects afterwards are those before with some of the patches it sent
  applied, in the order it sent them.  One rule per component; the kinds of patches are then
  a type, and what a well-typed patch cannot touch is never touched.
\<close>

section \<open>The effect\<close>

fun patchesOf :: "call list \<Rightarrow> (objref \<times> json) list" where
  "patchesOf [] = []"
| "patchesOf (CPatch ref p # cs) = (ref, p) # patchesOf cs"
| "patchesOf (c # cs) = patchesOf cs"

lemma patchesOf_append [simp]: "patchesOf (cs @ ds) = patchesOf cs @ patchesOf ds"
  by (induction cs rule: patchesOf.induct) simp_all

definition applyPatches :: "(objref \<times> json) list \<Rightarrow> objects \<Rightarrow> objects" where
  "applyPatches ps v = fold (\<lambda>(ref, p). patchObject ref p) ps v"

definition altersRel ::
  "('w \<Rightarrow> objects) \<Rightarrow> (objref \<Rightarrow> json \<Rightarrow> bool) \<Rightarrow> 'w st \<Rightarrow> 'w st \<Rightarrow> bool" where
  "altersRel view A s t \<longleftrightarrow>
     (\<exists>new ps. calls t = calls s @ new \<and> list_all (\<lambda>(ref, p). A ref p) (patchesOf new)
        \<and> subseq ps (patchesOf new) \<and> objectsOf view t = applyPatches ps (objectsOf view s))"

abbreviation alters ::
  "('w \<Rightarrow> objects) \<Rightarrow> (objref \<Rightarrow> json \<Rightarrow> bool) \<Rightarrow> ('w st, 'a) go \<Rightarrow> bool" where
  "alters view A m \<equiv> steps (altersRel view A) m"

lemma altersRel_same:
  "calls t = calls s \<Longrightarrow> objectsOf view t = objectsOf view s \<Longrightarrow> altersRel view A s t"
  unfolding altersRel_def by (intro exI [of _ "[]"]) (simp add: applyPatches_def)

interpretation alt: effect "altersRel view A :: 'w st \<Rightarrow> 'w st \<Rightarrow> bool" for view A
proof
  fix s :: "'w st"
  show "altersRel view A s s" by (simp add: altersRel_same)
next
  fix s t u :: "'w st"
  assume "altersRel view A s t" and "altersRel view A t u"
  then obtain n1 p1 n2 p2 where "calls t = calls s @ n1" "list_all (\<lambda>(ref, p). A ref p) (patchesOf n1)"
    "subseq p1 (patchesOf n1)" "objectsOf view t = applyPatches p1 (objectsOf view s)"
    "calls u = calls t @ n2" "list_all (\<lambda>(ref, p). A ref p) (patchesOf n2)"
    "subseq p2 (patchesOf n2)" "objectsOf view u = applyPatches p2 (objectsOf view t)"
    unfolding altersRel_def by blast
  then show "altersRel view A s u"
    unfolding altersRel_def
    by (intro exI [of _ "n1 @ n2"] exI [of _ "p1 @ p2"])
      (simp add: applyPatches_def list_emb_append_mono)
qed

lemma alters_request:
  "(\<And>w. view (snd (g w)) = view w) \<Longrightarrow> patchesOf [c] = [] \<Longrightarrow> alters view A (request c g)"
  by (rule stepsI) (auto simp: altersRel_def request_eval applyPatches_def)

lemma alters_Patch:
  assumes "patchMerges P view" and "A ref p"
  shows "alters view A (Patch P ref p)"
proof (rule stepsI)
  fix s
  have "objectsOf view (snd (Patch P ref p s)) = applyPatches
      (if fst (sendPatch P ref p (world s)) = None then [(ref, p)] else []) (objectsOf view s)"
    using assms(1) by (simp add: Patch_def request_eval patchMerges_def applyPatches_def)
  moreover have "calls (snd (Patch P ref p s)) = calls s @ [CPatch ref p]"
    by (simp add: Patch_def request_eval)
  ultimately show "altersRel view A s (snd (Patch P ref p s))"
    unfolding altersRel_def using assms(2)
    by (intro exI [of _ "[CPatch ref p]"]
        exI [of _ "if fst (sendPatch P ref p (world s)) = None then [(ref, p)] else []"]) simp
qed

text \<open>Reading is an instance of the interface, of every kind of patches, the empty one too.\<close>

lemma asks_alters:
  assumes "readsKeep P view"
  shows "asks (altersRel view A) P"
proof
  show "altersRel view A s t" if "world t = world s" "calls t = calls s" for s t
    using that by (simp add: altersRel_same)
qed (use assms in \<open>auto simp: request_defs readsKeep_def intro!: alters_request\<close>)

interpretation sampleReads: asks "altersRel objects.truncate A" clusterPlatform for A
  using apiServer_cluster by (intro asks_alters) (simp add: apiServer_def)

lemmas ingressHandler_quiet = asks.ingressHandler_asks [OF asks_alters]

lemma alters_nothing:
  assumes "alters view (\<lambda>ref p. False) m"
  shows "objectsOf view (snd (m s)) = objectsOf view s"
proof -
  obtain new ps where "list_all (\<lambda>(ref, p). False) (patchesOf new)" "subseq ps (patchesOf new)"
    and "objectsOf view (snd (m s)) = applyPatches ps (objectsOf view s)"
    using stepsD [OF assms, of s] by (auto simp: altersRel_def)
  then show ?thesis by (cases "patchesOf new") (auto simp: applyPatches_def dest: list_emb_Nil2)
qed

section \<open>Kinds of patches\<close>

lemma sends_alters:
  assumes "readsKeep P view" and "patchMerges P view" and "pollRunsCondition P" and "patch_kinds A"
  shows "sends (altersRel view A) P A"
proof (intro sends.intro wakes.intro asks_alters wakes_axioms.intro patch_kinds.axioms(1) assms)
  show "alters view A (Patch P ref p)" if "A ref p" for ref p
    using assms(2) that by (rule alters_Patch)
  show "alters view A (waitPoll P cond)" if "alters view A cond" for cond
    using assms(3) alt.effect_axioms that by (rule poll_steps)
qed

end
