(* ===== verification/PatchTypes.thy ===== *)
theory PatchTypes
  imports Alters Samples
begin

text \<open>
  A type for the merge patches: which fields of which object they may set, with values of
  which form.  Everything the controller sends is of that type, and what the type leaves out
  of an object is never touched.
\<close>

section \<open>The type\<close>

text \<open>The keys that belong to the controller, and the two annotations it edits on an ingress.\<close>

definition owned :: "string \<Rightarrow> bool" where
  "owned k \<longleftrightarrow> take 17 k = ''idling.amazee.io/''"

definition ownedOnIngress :: "string \<Rightarrow> bool" where
  "ownedOnIngress k \<longleftrightarrow> owned k \<or> k = ''nginx.ingress.kubernetes.io/custom-http-errors''
     \<or> k = ''traefik.ingress.kubernetes.io/router.middlewares''"

text \<open>A map of labels or annotations to set: allowed keys, each once, to a string or null.\<close>

fun stringOrNull :: "json \<Rightarrow> bool" where
  "stringOrNull JNull = True"
| "stringOrNull (JStr v) = True"
| "stringOrNull _ = False"

fun stringMap :: "(string \<Rightarrow> bool) \<Rightarrow> json \<Rightarrow> bool" where
  "stringMap ok (JObj kvs) =
     (distinct (map fst kvs) \<and> list_all (\<lambda>(k, v). ok k \<and> stringOrNull v) kvs)"
| "stringMap ok _ = False"

fun metaTyped :: "(string \<Rightarrow> bool) \<Rightarrow> json \<Rightarrow> bool" where
  "metaTyped ok (JObj kvs) =
     (distinct (map fst kvs)
      \<and> list_all (\<lambda>(k, v). (k = ''labels'' \<and> stringMap owned v) \<or> (k = ''annotations'' \<and> stringMap ok v)) kvs)"
| "metaTyped ok _ = False"

text \<open>A replica count, not negative, and nothing else of a specification.\<close>

fun specTyped :: "json \<Rightarrow> bool" where
  "specTyped (JObj [(k, JNum n)]) = (k = ''replicas'' \<and> n \<ge> 0)"
| "specTyped _ = False"

fun allowedOn :: "objref \<Rightarrow> string \<Rightarrow> bool" where
  "allowedOn (NamespaceRef n) k = False"
| "allowedOn (DeploymentRef ns n) k = owned k"
| "allowedOn (IngressRef ns n) k = ownedOnIngress k"

fun scalable :: "objref \<Rightarrow> bool" where
  "scalable (DeploymentRef ns n) = True"
| "scalable _ = False"

fun patchTyped :: "objref \<Rightarrow> json \<Rightarrow> bool" where
  "patchTyped ref (JObj kvs) =
     (distinct (map fst kvs)
      \<and> list_all (\<lambda>(k, v). (k = ''metadata'' \<and> metaTyped (allowedOn ref) v)
                        \<or> (k = ''spec'' \<and> scalable ref \<and> specTyped v)) kvs)"
| "patchTyped ref _ = False"

section \<open>Everything sent is well typed\<close>

lemma owned_keys [simp]:
  "owned ''idling.amazee.io/idled''" "owned ''idling.amazee.io/watch''" "owned ''idling.amazee.io/idled-at''"
  "owned ''idling.amazee.io/unidle-replicas''" "owned ''idling.amazee.io/force-idled''"
  "owned ''idling.amazee.io/force-scaled''" "owned ''idling.amazee.io/unidle''"
  by (simp_all add: owned_def)

lemma unidleReplicas_positive: "unidleReplicas d > 0"
  by (simp add: unidleReplicas_def split: option.split prod.split)

lemma stringOrNull_option [simp]: "stringOrNull (jsonOfOption v)"
  by (cases v) simp_all

lemma idlePatch_typed: "patchTyped (refOfDeployment d) (idlePatch fi fs now r)"
  by (cases fi; cases fs) (simp_all add: idlePatch_def)

lemma restorePatch_typed: "restorePatch i = Some q \<Longrightarrow> patchTyped (refOfIngress i) q"
  by (auto simp: restorePatch_def Let_def ownedOnIngress_def split: if_splits)

interpretation typed: patch_kinds patchTyped
proof
  show "patchTyped (refOfDeployment d) (unidlePatch (unidleReplicas d))" for d
    using unidleReplicas_positive [of d] by (simp add: unidlePatch_def)
qed (simp_all add: idlePatch_typed restorePatch_typed idledLabelPatch_def unidledLabelPatch_def cliScalePatch_def
    ingressPatch_def Let_def ownedOnIngress_def)

lemmas sends_typed = sends_alters [OF _ _ _ typed.patch_kinds_axioms]

interpretation sampleRuns: sends "altersRel objects.truncate patchTyped" clusterPlatform patchTyped
  using apiServer_cluster pollRunsCondition_cluster by (intro sends_typed) (simp_all add: apiServer_def)

lemma removeLabelPatch_typed:
  "l \<in> {''idling.amazee.io/force-scaled'', ''idling.amazee.io/force-idled'', ''idling.amazee.io/unidle''}
    \<Longrightarrow> patchTyped (NamespaceRef n) (removeLabelPatch l)"
  by (auto simp: removeLabelPatch_def)

text \<open>Seen without a cluster: a view that shows no objects obeys the laws on any platform.\<close>

definition noObjects :: objects where
  "noObjects = \<lparr>cl_namespaces = [], cl_deployments = [], cl_ingresses = []\<rparr>"

lemma no_view: "readsKeep P (\<lambda>w. noObjects)" "patchMerges P (\<lambda>w. noObjects)"
proof -
  show "readsKeep P (\<lambda>w. noObjects)" by (simp add: readsKeep_def)
  have "patchObject ref p noObjects = noObjects" for ref p
    by (cases ref) (simp_all add: noObjects_def)
  then show "patchMerges P (\<lambda>w. noObjects)" by (simp add: patchMerges_def)
qed

definition wellTypedRun :: "('w st, 'a) go \<Rightarrow> 'w st \<Rightarrow> bool" where
  "wellTypedRun m s \<longleftrightarrow>
     (\<exists>new. calls (snd (m s)) = calls s @ new \<and> list_all (\<lambda>(ref, p). patchTyped ref p) (patchesOf new))"

lemma alters_wellTyped: "alters view patchTyped m \<Longrightarrow> wellTypedRun m s"
  using stepsD [of "altersRel view patchTyped" m s] by (auto simp: altersRel_def wellTypedRun_def)


section \<open>What a well-typed patch cannot touch\<close>

definition hide :: "(string \<Rightarrow> bool) \<Rightarrow> labels \<Rightarrow> labels" where
  "hide ok m = (\<lambda>k. if ok k then None else m k)"

text \<open>The objects without what belongs to the controller: all the rest of each object.\<close>

definition foreign :: "objects \<Rightarrow> objects" where
  "foreign v =
     \<lparr>cl_namespaces = map (\<lambda>n. n\<lparr>ns_labels := hide owned (ns_labels n)\<rparr>) (cl_namespaces v),
      cl_deployments = map (\<lambda>d. d\<lparr>dep_labels := hide owned (dep_labels d),
          dep_annotations := hide owned (dep_annotations d), dep_replicas := None\<rparr>) (cl_deployments v),
      cl_ingresses = map (\<lambda>i. i\<lparr>ing_labels := hide owned (ing_labels i),
          ing_annotations := hide ownedOnIngress (ing_annotations i)\<rparr>) (cl_ingresses v)\<rparr>"

lemma refExists_foreign: "refExists ref (foreign v) = refExists ref v"
  by (cases ref) (simp_all add: foreign_def list_ex_iff)

lemma refs_foreign:
  "map refOfDeployment (cl_deployments (foreign v)) = map refOfDeployment (cl_deployments v)"
  "map refOfIngress (cl_ingresses (foreign v)) = map refOfIngress (cl_ingresses v)"
  by (simp_all add: foreign_def)

lemma mergeStrings_hide:
  "list_all (\<lambda>(k, v). ok k \<and> stringOrNull v) kvs \<Longrightarrow> hide ok (mergeStrings m kvs) = hide ok m"
  by (induction m kvs rule: mergeStrings.induct) (auto simp: hide_def fun_eq_iff)

lemma metadata_typed:
  assumes "patchTyped ref p" and "field ''metadata'' p = Some md"
  shows "metaTyped (allowedOn ref) md"
proof -
  obtain kvs where p: "p = JObj kvs" using assms(1) by (cases p) simp_all
  have mem: "(''metadata'', md) \<in> set kvs" using assms(2) p by (intro map_of_SomeD) simp
  have all: "list_all (\<lambda>(k, v). (k = ''metadata'' \<and> metaTyped (allowedOn ref) v)
                        \<or> (k = ''spec'' \<and> scalable ref \<and> specTyped v)) kvs"
    using assms(1) p by simp
  from bspec [OF all [unfolded list_all_iff] mem] show ?thesis by simp
qed

lemma part_typed:
  assumes "metaTyped ok md" and "field part md = Some j"
  shows "(part = ''labels'' \<and> stringMap owned j) \<or> (part = ''annotations'' \<and> stringMap ok j)"
proof -
  obtain kvs where md: "md = JObj kvs" using assms(1) by (cases md) simp_all
  have mem: "(part, j) \<in> set kvs" using assms(2) md by (intro map_of_SomeD) simp
  have all: "list_all (\<lambda>(k, v). (k = ''labels'' \<and> stringMap owned v)
      \<or> (k = ''annotations'' \<and> stringMap ok v)) kvs"
    using assms(1) md by simp
  from bspec [OF all [unfolded list_all_iff] mem] show ?thesis by simp
qed

lemma mergeMeta_hide:
  assumes "\<And>j. Option.bind (field ''metadata'' p) (field part) = Some j \<Longrightarrow> stringMap ok j"
  shows "hide ok (mergeMeta part p m) = hide ok m"
proof (cases "Option.bind (field ''metadata'' p) (field part)")
  case (Some j)
  from assms [OF this] obtain kvs where "j = JObj kvs" "list_all (\<lambda>(k, v). ok k \<and> stringOrNull v) kvs"
    by (cases j) simp_all
  with Some show ?thesis by (simp add: mergeMeta_def mergeStrings_hide)
qed (simp add: mergeMeta_def)

lemma mergeMeta_typed:
  assumes "patchTyped ref p"
  shows "hide owned (mergeMeta ''labels'' p m) = hide owned m"
    and "hide (allowedOn ref) (mergeMeta ''annotations'' p m) = hide (allowedOn ref) m"
proof -
  have parts: "\<exists>md. metaTyped (allowedOn ref) md \<and> field part md = Some j"
    if "Option.bind (field ''metadata'' p) (field part) = Some j" for part j
    using that metadata_typed [OF assms] by (auto simp only: bind_eq_Some_conv)
  show "hide owned (mergeMeta ''labels'' p m) = hide owned m"
    using parts part_typed by (intro mergeMeta_hide) fastforce
  show "hide (allowedOn ref) (mergeMeta ''annotations'' p m) = hide (allowedOn ref) m"
    using parts part_typed by (intro mergeMeta_hide) fastforce
qed

lemma allowedOn_fun [simp]:
  "allowedOn (NamespaceRef n) = (\<lambda>k. False)" "allowedOn (DeploymentRef ns n) = owned"
  "allowedOn (IngressRef ns n) = ownedOnIngress"
  by (simp_all add: fun_eq_iff)

lemma hide_nothing [simp]: "hide (\<lambda>k. False) m = m"
  by (simp add: hide_def)

lemma foreign_patch:
  assumes "patchTyped ref p"
  shows "foreign (patchObject ref p v) = foreign v"
  using mergeMeta_typed [OF assms]
  by (cases ref)
    (simp_all add: foreign_def mergeNamespace_def mergeDeployment_def mergeIngress_def)

lemma foreign_applyPatches:
  "list_all (\<lambda>(ref, p). patchTyped ref p) ps \<Longrightarrow> foreign (applyPatches ps v) = foreign v"
  unfolding applyPatches_def
  by (induction ps arbitrary: v) (auto simp: foreign_patch simp del: patchObject.simps patchTyped.simps)

lemma alters_keeps_foreign:
  assumes "alters view patchTyped m"
  shows "foreign (objectsOf view (snd (m s))) = foreign (objectsOf view s)"
proof -
  obtain new ps where "list_all (\<lambda>(ref, p). patchTyped ref p) (patchesOf new)" "subseq ps (patchesOf new)"
    and "objectsOf view (snd (m s)) = applyPatches ps (objectsOf view s)"
    using stepsD [OF assms, of s] by (auto simp: altersRel_def)
  moreover from this have "list_all (\<lambda>(ref, p). patchTyped ref p) ps"
    by (auto simp: list_all_iff dest: list_emb_set)
  ultimately show ?thesis by (simp add: foreign_applyPatches)
qed

text \<open>
  C15. Nothing of the cluster that does not belong to the controller is ever changed: no object
  appears or disappears, names, selectors, containers, hosts and the order of the objects
  stay, and so do all labels and annotations outside the controller's own and, on an ingress,
  the two it edits, in every run of a cron job, of \<open>Unidle\<close>, of a reconcile and of a request
  to the unidler.
\<close>

theorem foreign_data_kept:
  assumes "readsKeep P view" and "patchMerges P view" and "pollRunsCondition P"
  shows "foreign (objectsOf view (snd (runJob P h j s))) = foreign (objectsOf view s)
     \<and> foreign (objectsOf view (snd (Unidle P namespace s))) = foreign (objectsOf view s)
     \<and> foreign (objectsOf view (snd (Reconcile P h req s))) = foreign (objectsOf view s)
     \<and> foreign (objectsOf view (snd (route P u r s))) = foreign (objectsOf view s)"
proof -
  note k = sends_typed [OF assms]
  show ?thesis
    using sends.runJob_sends [OF k] wakes.Unidle_sends [OF sends.axioms(1) [OF k]]
      sends.Reconcile_sends [OF k removeLabelPatch_typed] asks.route_asks [OF wakes.axioms(1) [OF sends.axioms(1) [OF k]]]
    by (intro conjI alters_keeps_foreign) assumption+
qed

end
