(* ===== verification/Drain.thy ===== *)
theory Drain
  imports Healthy Alters Cycle Samples
begin

text \<open>
  The reconciler over time.  Removing a label is an update of the namespace, which makes the
  controller reconcile it again; this ends, because every round takes one of the three
  labels away and nothing the controller does puts one back.
\<close>

section \<open>One round\<close>

definition triggers :: "string list" where
  "triggers = [''idling.amazee.io/force-scaled'', ''idling.amazee.io/force-idled'', ''idling.amazee.io/unidle'']"

definition reconcileAct :: "'w platform \<Rightarrow> idler \<Rightarrow> namespace \<Rightarrow> string \<Rightarrow> ('w st, unit) go" where
  "reconcileAct P h namespace l =
     (if l = ''idling.amazee.io/force-scaled'' then KubernetesServiceIdler P h namespace False True
      else if l = ''idling.amazee.io/force-idled'' then KubernetesServiceIdler P h namespace True False
      else Unidle P namespace)"

lemma Reconcile_eq:
  "Reconcile P h req =
     andThen (GetNamespace P req) (\<lambda>r.
       case r of
         Inl err \<Rightarrow> ret (ignoreNotFound err)
       | Inr namespace \<Rightarrow>
         (case activeLabel namespace of
            None \<Rightarrow> ret None
          | Some l \<Rightarrow>
            andThen (reconcileAct P h namespace l) (\<lambda>_.
            andThen (Patch P (NamespaceRef (ns_name namespace)) (removeLabelPatch l)) (\<lambda>e. ret None))))"
  unfolding Reconcile_def
  by (intro arg_cong2 [where f = andThen] refl ext sum.case_cong)
    (simp add: active_simps reconcileAct_def)

text \<open>The triggering labels of the namespaces of a name, in the order they are looked at.\<close>

definition triggersOf :: "namespace \<Rightarrow> string list" where
  "triggersOf n = filter (hasLabel n) triggers"

definition triggersAt :: "string \<Rightarrow> objects \<Rightarrow> string list list" where
  "triggersAt req v = map triggersOf (filter (\<lambda>n. ns_name n = req) (cl_namespaces v))"

lemma activeLabel_hd: "activeLabel n = (case triggersOf n of [] \<Rightarrow> None | l # ls \<Rightarrow> Some l)"
  by (simp add: active_simps triggersOf_def triggers_def)

lemma triggersOf_idled: "triggersOf (mergeNamespace (idledLabelPatch v) n) = triggersOf n"
  by (simp add: triggersOf_def triggers_def hasLabel_def mergeNamespace_def mergeMeta_def idledLabelPatch_def)

lemma unidledLabelPatch_eq: "unidledLabelPatch = idledLabelPatch ''false''"
  by (simp add: unidledLabelPatch_def idledLabelPatch_def)

lemma triggersAt_map:
  assumes "\<And>n. ns_name (f n) = ns_name n" and "\<And>n. triggersOf (f n) = triggersOf n"
  shows "map triggersOf (filter (\<lambda>n. ns_name n = req) (map f ns)) = map triggersOf (filter (\<lambda>n. ns_name n = req) ns)"
  by (induction ns) (simp_all add: assms)

lemma triggersAt_idled: "triggersAt req (patchObject (NamespaceRef n) (idledLabelPatch v) w) = triggersAt req w"
  by (simp add: triggersAt_def triggersAt_map triggersOf_idled)

lemma triggersAt_other:
  "triggersAt req (patchObject (DeploymentRef ns n) p w) = triggersAt req w"
  "triggersAt req (patchObject (IngressRef ns n) p w) = triggersAt req w"
  by (simp_all add: triggersAt_def)

abbreviation keepsTriggers :: "objref \<Rightarrow> json \<Rightarrow> bool" where
  "keepsTriggers ref p \<equiv> \<forall>req v. triggersAt req (patchObject ref p v) = triggersAt req v"

interpretation triggering: patch_kinds keepsTriggers
  by unfold_locales (simp_all add: triggersAt_idled triggersAt_other unidledLabelPatch_eq del: patchObject.simps)

lemmas sends_triggers = sends_alters [OF _ _ _ triggering.patch_kinds_axioms]

lemma applyPatches_triggers:
  "list_all (\<lambda>(ref, p). keepsTriggers ref p) ps \<Longrightarrow> triggersAt req (applyPatches ps v) = triggersAt req v"
  unfolding applyPatches_def
  by (induction ps arbitrary: v) (auto simp del: patchObject.simps)

lemma alters_keeps_triggers:
  assumes "alters view keepsTriggers m"
  shows "triggersAt req (objectsOf view (snd (m s))) = triggersAt req (objectsOf view s)"
proof -
  obtain new ps where "list_all (\<lambda>(ref, p). keepsTriggers ref p) (patchesOf new)" "subseq ps (patchesOf new)"
    and "objectsOf view (snd (m s)) = applyPatches ps (objectsOf view s)"
    using stepsD [OF assms, of s] unfolding altersRel_def by blast
  moreover from this have "list_all (\<lambda>(ref, p). keepsTriggers ref p) ps"
    unfolding list_all_iff by (blast dest: list_emb_set)
  ultimately show ?thesis by (simp only: applyPatches_triggers)
qed

lemma reconcileAct_keeps_triggers:
  assumes "readsKeep P view" and "patchMerges P view" and "pollRunsCondition P"
  shows "triggersAt req (objectsOf view (snd (reconcileAct P h namespace l s))) = triggersAt req (objectsOf view s)"
proof -
  note k = sends_triggers [OF assms]
  show ?thesis
    unfolding reconcileAct_def
    using sends.KubernetesServiceIdler_sends [OF k] wakes.Unidle_sends [OF sends.axioms(1) [OF k]]
    by (simp add: alters_keeps_triggers)
qed

text \<open>Taking a label off takes it from the list.\<close>

lemma triggersOf_remove:
  "triggersOf (mergeNamespace (removeLabelPatch l) n) = filter (\<lambda>x. x \<noteq> l) (triggersOf n)"
  by (auto simp: triggersOf_def hasLabel_def mergeNamespace_def mergeMeta_def removeLabelPatch_def
      intro!: filter_cong split: if_splits option.splits)

lemma triggersAt_remove:
  "triggersAt req (patchObject (NamespaceRef req) (removeLabelPatch l) v) = map (filter (\<lambda>x. x \<noteq> l)) (triggersAt req v)"
proof -
  have "map triggersOf (filter (\<lambda>n. ns_name n = req)
        (map (\<lambda>x. if ns_name x = req then mergeNamespace (removeLabelPatch l) x else x) ns))
      = map (filter (\<lambda>x. x \<noteq> l)) (map triggersOf (filter (\<lambda>n. ns_name n = req) ns))" for ns
    by (induction ns) (simp_all add: triggersOf_remove)
  then show ?thesis by (simp add: triggersAt_def)
qed

lemma distinct_triggersOf: "distinct (triggersOf n)"
  by (simp add: triggersOf_def triggers_def)

lemma triggersAt_exists: "triggersAt req v \<noteq> [] \<Longrightarrow> refExists (NamespaceRef req) v"
  by (auto simp: triggersAt_def list_ex_iff filter_empty_conv)

lemma reconcileAct_returns:
  "working P view h \<Longrightarrow> returning (healthyIn view) (reconcileAct P h namespace l)"
  unfolding reconcileAct_def
  by (intro returns_if returns_KubernetesServiceIdler returns_Unidle)

lemma GetNamespace_answered:
  assumes "apiServer P view" and "answers P view" and "triggersAt req (objectsOf view s) = [ls]"
  shows "\<exists>x t. GetNamespace P req s = (Ok (Inr x), t) \<and> objectsOf view t = objectsOf view s
     \<and> ns_name x = req \<and> triggersOf x = ls"
proof -
  have "refExists (NamespaceRef req) (objectsOf view s)"
    using assms(3) by (intro triggersAt_exists) simp
  then obtain x where x: "fst (getNamespace P req (world s)) = Inr x"
    using assms(2) unfolding answers_def by blast
  then have n: "ns_name x = req" "x \<in> set (cl_namespaces (objectsOf view s))"
    using assms(1) unfolding apiServer_def listsMatch_def by blast+
  then have "triggersOf x \<in> set (triggersAt req (objectsOf view s))"
    by (simp add: triggersAt_def)
  then have "triggersOf x = ls" using assms(3) by simp
  moreover have "readsKeep P view" using assms(1) by (simp add: apiServer_def)
  ultimately show ?thesis
    using x n by (simp add: GetNamespace_def request_eval readsKeep_def)
qed

lemma reconcile_round:
  assumes "working P view h" and "answers P view" and "pollRunsCondition P"
    and "triggersAt req (objectsOf view s) = [ls]" and "healthyIn view s"
  shows "\<exists>t. Reconcile P h req s = (Ok None, t) \<and> triggersAt req (objectsOf view t) = [tl ls] \<and> healthyIn view t"
proof -
  note w = workingD [OF assms(1)]
  have api: "apiServer P view" using assms(1) by (simp add: working_def)
  obtain x s1 where g: "GetNamespace P req s = (Ok (Inr x), s1)" and s1: "objectsOf view s1 = objectsOf view s"
    and x: "ns_name x = req" "triggersOf x = ls"
    using GetNamespace_answered [OF api assms(2,4)] by blast
  show ?thesis
  proof (cases ls)
    case Nil
    then have "Reconcile P h req s = (Ok None, s1)"
      using g x by (simp add: Reconcile_eq activeLabel_hd andThen_Ok ret_def)
    with Nil s1 assms(4,5) show ?thesis by simp
  next
    case (Cons l rest)
    have h1: "healthyIn view s1" using s1 assms(5) by simp
    obtain u s2 where act: "reconcileAct P h x l s1 = (Ok u, s2)" and h2: "healthyIn view s2"
      using returnsE [OF reconcileAct_returns [OF assms(1)] h1] by blast
    have tr2: "triggersAt req (objectsOf view s2) = [ls]"
      using reconcileAct_keeps_triggers [OF w(1,2) assms(3), of req h x l s1] act s1 assms(4) by simp
    then have "refExists (NamespaceRef req) (objectsOf view s2)"
      by (intro triggersAt_exists) simp
    from Patch_accepted [OF w(2) assms(2) this, of "removeLabelPatch l"] obtain t
      where p: "Patch P (NamespaceRef req) (removeLabelPatch l) s2 = (Ok None, t)"
      and t: "objectsOf view t = patchObject (NamespaceRef req) (removeLabelPatch l) (objectsOf view s2)" by blast
    have "distinct ls" using distinct_triggersOf [of x] x by simp
    then have "filter (\<lambda>y. y \<noteq> l) ls = rest"
      using Cons by (auto simp: filter_id_conv)
    then have "triggersAt req (objectsOf view t) = [rest]"
      unfolding t triggersAt_remove tr2 by simp
    moreover have "healthyIn view t" unfolding t using h2 by (rule healthy_patch)
    moreover have "Reconcile P h req s = (Ok None, t)"
      using g x Cons act p by (simp add: Reconcile_eq activeLabel_hd andThen_def ret_def)
    ultimately show ?thesis using Cons by simp
  qed
qed

section \<open>Rounds\<close>

primrec reconcileRounds :: "'w platform \<Rightarrow> idler \<Rightarrow> string \<Rightarrow> nat \<Rightarrow> ('w st, unit) go" where
  "reconcileRounds P h req 0 = ret ()"
| "reconcileRounds P h req (Suc k) = andThen (Reconcile P h req) (\<lambda>e. reconcileRounds P h req k)"

lemma reconcileRounds_drop:
  assumes "working P view h" and "answers P view" and "pollRunsCondition P"
    and "triggersAt req (objectsOf view s) = [ls]" and "healthyIn view s"
  shows "\<exists>t. reconcileRounds P h req k s = (Ok (), t) \<and> triggersAt req (objectsOf view t) = [drop k ls]"
  using assms(4,5)
proof (induction k arbitrary: s ls)
  case 0
  then show ?case by (simp add: ret_def)
next
  case (Suc k)
  obtain s1 where "Reconcile P h req s = (Ok None, s1)" "triggersAt req (objectsOf view s1) = [tl ls]"
    "healthyIn view s1"
    using reconcile_round [OF assms(1-3) Suc.prems] by blast
  with Suc.IH [of s1 "tl ls"] show ?case by (auto simp: andThen_Ok drop_Suc)
qed

text \<open>
  C13. The reconciler settles: on a cluster that works, reconciling a namespace again and again takes
  one triggering label away in every round and never panics, so that three rounds are enough
  for any combination of labels, after which no label is left to act on.
\<close>

theorem reconciler_settles:
  assumes "working P view h" and "answers P view" and "pollRunsCondition P" and "healthyIn view s"
    and "filter (\<lambda>n. ns_name n = req) (cl_namespaces (objectsOf view s)) = [namespace]"
  shows "(\<forall>k. \<exists>t. reconcileRounds P h req k s = (Ok (), t)
            \<and> triggersAt req (objectsOf view t) = [drop k (triggersOf namespace)])
     \<and> (\<exists>t namespace'. reconcileRounds P h req 3 s = (Ok (), t)
            \<and> filter (\<lambda>n. ns_name n = req) (cl_namespaces (objectsOf view t)) = [namespace']
            \<and> activeLabel namespace' = None)"
proof
  have tr: "triggersAt req (objectsOf view s) = [triggersOf namespace]"
    by (simp add: triggersAt_def assms(5))
  show all: "\<forall>k. \<exists>t. reconcileRounds P h req k s = (Ok (), t)
            \<and> triggersAt req (objectsOf view t) = [drop k (triggersOf namespace)]"
    using reconcileRounds_drop [OF assms(1-3) tr assms(4)] by blast
  have "length (triggersOf namespace) \<le> 3"
    using length_filter_le [of "hasLabel namespace" triggers] by (simp add: triggersOf_def triggers_def)
  then have "drop 3 (triggersOf namespace) = []" by simp
  with all obtain t where t: "reconcileRounds P h req 3 s = (Ok (), t)"
    and "triggersAt req (objectsOf view t) = [[]]" by metis
  then obtain n where "filter (\<lambda>n. ns_name n = req) (cl_namespaces (objectsOf view t)) = [n]" "triggersOf n = []"
    by (auto simp: triggersAt_def map_eq_Cons_conv)
  then have "filter (\<lambda>n. ns_name n = req) (cl_namespaces (objectsOf view t)) = [n] \<and> activeLabel n = None"
    by (simp add: activeLabel_hd)
  with t show "\<exists>t namespace'. reconcileRounds P h req 3 s = (Ok (), t)
            \<and> filter (\<lambda>n. ns_name n = req) (cl_namespaces (objectsOf view t)) = [namespace']
            \<and> activeLabel namespace' = None" by blast
qed

end
