(* ===== verification/Wake.thy ===== *)
theory Wake
  imports Cycle Healthy PatchTypes
begin

text \<open>
  What \<open>Unidle\<close> leaves in the cluster when it is done, and what goes wrong when it runs while the
  idler is between the ingresses and the deployments.
\<close>

section \<open>Taking the codes off the ingresses\<close>

lemma ingressAfterUnidle_value:
  "ing_annotations (ingressAfterUnidle i) ''nginx.ingress.kubernetes.io/custom-http-errors''
     = Option.bind (ing_annotations i ''nginx.ingress.kubernetes.io/custom-http-errors'')
         (\<lambda>v. removeStatusCode v ''503'')"
  "ing_annotations (ingressAfterUnidle i) ''traefik.ingress.kubernetes.io/router.middlewares''
     = Option.bind (ing_annotations i ''traefik.ingress.kubernetes.io/router.middlewares'')
         (\<lambda>v. removeStatusCode v (traefikMiddleware (ing_namespace i)))"
  by (auto simp: ingressAfterUnidle_def restorePatch_def Let_def mergeIngress_def mergeMeta_def
      split: option.splits)

lemma refOfIngress_afterUnidle [simp]:
  "ing_name (ingressAfterUnidle i) = ing_name i" "ing_namespace (ingressAfterUnidle i) = ing_namespace i"
  by (simp_all add: ingressAfterUnidle_def split: option.split)

text \<open>No code of ours: failing requests are answered by the ingress controller itself again.\<close>

definition unmarked :: "ingress \<Rightarrow> bool" where
  "unmarked i \<longleftrightarrow>
     ''503'' \<notin> set (codesOf (annotationValue (ing_annotations i)
                    ''nginx.ingress.kubernetes.io/custom-http-errors''))
     \<and> traefikMiddleware (ing_namespace i) \<notin> set (codesOf (annotationValue (ing_annotations i)
                    ''traefik.ingress.kubernetes.io/router.middlewares''))"

lemma removed_absent:
  assumes "c \<noteq> ''''"
  shows "c \<notin> set (codesOf (case Option.bind a (\<lambda>v. removeStatusCode v c) of Some v \<Rightarrow> v | None \<Rightarrow> ''''))"
proof (cases "Option.bind a (\<lambda>v. removeStatusCode v c)")
  case None
  with assms show ?thesis by simp
next
  case (Some w)
  then obtain v where "removeStatusCode v c = Some w" by (auto simp: bind_eq_Some_conv)
  with Some show ?thesis by (auto dest: codes.remove_absent)
qed

lemma traefikMiddleware_nonempty: "traefikMiddleware ns \<noteq> ''''"
  by (simp add: traefikMiddleware_def)

lemma unmarked_afterUnidle: "unmarked (ingressAfterUnidle i)"
  unfolding unmarked_def annotationValue_def ingressAfterUnidle_value refOfIngress_afterUnidle
  using removed_absent [of "''503''"] removed_absent [OF traefikMiddleware_nonempty] by simp

lemma ingresses_patch:
  assumes "cl_ingresses v = map F L" and "distinct (map refOfIngress L)" and "i \<in> set L"
    and "\<And>y. y \<in> set L \<Longrightarrow> refOfIngress (F y) = refOfIngress y"
  shows "cl_ingresses (patchObject (refOfIngress i) p v) = map (F(i := mergeIngress p (F i))) L"
proof -
  have "(ing_namespace (F y) = ing_namespace i \<and> ing_name (F y) = ing_name i) \<longleftrightarrow> y = i" if "y \<in> set L" for y
    using assms(2,3) assms(4) [OF that] that by (auto simp: distinct_map dest: inj_onD)
  then show ?thesis by (simp add: assms(1))
qed

lemma restore_loop_objects:
  assumes "patchMerges P view" and "answers P view" and "distinct (map refOfIngress L)"
    and "set is \<subseteq> set L" and "distinct is" and "\<forall>i \<in> set is. F i = i"
    and "cl_ingresses (objectsOf view s) = map F L"
    and "\<And>y. y \<in> set L \<Longrightarrow> refOfIngress (F y) = refOfIngress y"
  shows "\<exists>t. forRange (restoreIngress P) is () s = (Ok (), t)
     \<and> cl_ingresses (objectsOf view t) = map (\<lambda>i. if i \<in> set is then ingressAfterUnidle i else F i) L"
  using assms(4-8)
proof (induction "is" arbitrary: F s)
  case Nil
  then show ?case by (auto simp: ret_def)
next
  case (Cons i "is")
  have Fi: "F i = i" and i: "i \<in> set L" using Cons.prems(1,3) by auto
  let ?F1 = "F(i := ingressAfterUnidle i)"
  have "\<exists>s1. restoreIngress P i () s = (Ok (Continue ()), s1) \<and> cl_ingresses (objectsOf view s1) = map ?F1 L"
  proof (cases "restorePatch i")
    case None
    then have "map F L = map ?F1 L" using Fi by (simp add: ingressAfterUnidle_def fun_upd_idem)
    with None Cons.prems(4) show ?thesis by (simp add: restoreIngress_def ret_def)
  next
    case (Some p)
    have "refExists (refOfIngress i) (objectsOf view s)"
      using Cons.prems(4) i Fi by (auto simp: list_ex_iff intro!: bexI [of _ i])
    from Patch_accepted [OF assms(1,2) this, of p] obtain s1 where q: "Patch P (refOfIngress i) p s = (Ok None, s1)"
      and s1: "objectsOf view s1 = patchObject (refOfIngress i) p (objectsOf view s)" by blast
    have upd: "mergeIngress p (F i) = ingressAfterUnidle i"
      using Some by (simp add: Fi ingressAfterUnidle_def)
    have "cl_ingresses (objectsOf view s1) = map ?F1 L"
      using ingresses_patch [where p = p, OF Cons.prems(4) assms(3) i Cons.prems(5)] unfolding s1 upd .
    moreover have "restoreIngress P i () s = (Ok (Continue ()), s1)"
      using Some q by (simp add: restoreIngress_def andThen_def ret_def)
    ultimately show ?thesis by blast
  qed
  then obtain s1 where run1: "restoreIngress P i () s = (Ok (Continue ()), s1)"
    and L1: "cl_ingresses (objectsOf view s1) = map ?F1 L" by blast
  have "refOfIngress (?F1 y) = refOfIngress y" if "y \<in> set L" for y
    using Cons.prems(5) [OF that] by simp
  moreover have "\<forall>x \<in> set is. ?F1 x = x" using Cons.prems(2,3) by auto
  ultimately obtain t where run: "forRange (restoreIngress P) is () s1 = (Ok (), t)"
    and t: "cl_ingresses (objectsOf view t) = map (\<lambda>i. if i \<in> set is then ingressAfterUnidle i else ?F1 i) L"
    using Cons.IH [of ?F1 s1] Cons.prems(1,2) L1 by auto
  have "forRange (restoreIngress P) (i # is) () s = (Ok (), t)"
    using run run1 by (simp add: andThen_Ok)
  moreover have "map (\<lambda>i. if i \<in> set is then ingressAfterUnidle i else ?F1 i) L
      = map (\<lambda>x. if x \<in> set (i # is) then ingressAfterUnidle x else F x) L"
    by (intro map_cong) auto
  ultimately show ?case using t by metis
qed

lemma removeCode_objects:
  assumes "apiServer P view" and "answers P view"
    and "distinct (map refOfIngress (cl_ingresses (objectsOf view s)))"
  shows "\<exists>t. removeCodeFromIngress P ns s = (Ok (), t)
     \<and> cl_ingresses (objectsOf view t)
         = map (\<lambda>i. if ing_namespace i = ns then ingressAfterUnidle i else i) (cl_ingresses (objectsOf view s))"
proof -
  let ?L = "cl_ingresses (objectsOf view s)"
  let ?opts = "\<lparr>lo_namespace = Some ns, lo_selector = None\<rparr>"
  have laws: "readsKeep P view" "patchMerges P view" "listsMatch P view" using assms(1) by (simp_all add: apiServer_def)
  obtain ings where ings: "fst (listIngresses P ?opts (world s)) = Inr ings"
    using assms(2) unfolding answers_def by blast
  with laws(3) have eq: "ings = ingressesMatching ns [] (objectsOf view s)"
    unfolding listsMatch_def by blast
  obtain s1 where l: "ListIngresses P ?opts s = (Ok (Inr ings), s1)" and s1: "objectsOf view s1 = objectsOf view s"
    using ings laws(1) by (simp add: ListIngresses_def request_eval readsKeep_def)
  have "set ings \<subseteq> set ?L" by (auto simp: eq ingressesMatching_def)
  moreover have "distinct ings" using assms(3) by (simp add: eq ingressesMatching_def distinct_map)
  moreover have "cl_ingresses (objectsOf view s1) = map (\<lambda>i. i) ?L" using s1 by simp
  ultimately obtain t where loop: "forRange (restoreIngress P) ings () s1 = (Ok (), t)"
    and t: "cl_ingresses (objectsOf view t) = map (\<lambda>i. if i \<in> set ings then ingressAfterUnidle i else i) ?L"
    using restore_loop_objects [OF laws(2) assms(2,3), of ings "\<lambda>i. i" s1] by auto
  have "map (\<lambda>i. if i \<in> set ings then ingressAfterUnidle i else i) ?L
      = map (\<lambda>i. if ing_namespace i = ns then ingressAfterUnidle i else i) ?L"
    by (intro map_cong) (auto simp: eq ingressesMatching_def)
  moreover have "removeCodeFromIngress P ns s = (Ok (), t)"
    using l loop by (simp add: removeCodeFromIngress_def andThen_Ok)
  ultimately show ?thesis using t by simp
qed

section \<open>The whole of Unidle\<close>

lemma scaling_keeps:
  assumes "patchMerges P view" and "\<And>ns n p v. f (patchObject (DeploymentRef ns n) p v) = f v"
  shows "preserves (\<lambda>s. f (objectsOf view s)) (forRange (unidleDeployment P) ds acc)"
  unfolding unidleDeployment_def
  by (intro pres.steps_rules keeps_Patch [OF assms(1)] assms(2))

lemma removeCode_keeps_namespaces:
  assumes "apiServer P view"
  shows "preserves (\<lambda>s. cl_namespaces (objectsOf view s)) (removeCodeFromIngress P ns)"
proof -
  have api: "readsKeep P view" "patchMerges P view" using assms by (simp_all add: apiServer_def)
  have "preserves (\<lambda>s. cl_namespaces (objectsOf view s)) (ListIngresses P opts)" for opts
    using keeps_objects_read(4) [OF api(1)] by (rule steps_mono) simp
  then show ?thesis
    unfolding removeCodeFromIngress_def restoreIngress_def
    by (intro pres.steps_rules keeps_Patch [OF api(2)]) simp_all
qed

lemma waiting_returns:
  assumes "working P view h" and "pollRunsCondition P" and "healthyIn view s"
  shows "\<exists>t. forRange (waitForPods P namespace) ds () s = (Ok (), t) \<and> objectsOf view t = objectsOf view s"
proof -
  note w = workingD [OF assms(1)]
  have "returning (healthyIn view) (forRange (waitForPods P namespace) ds ())"
    using assms(1) by (rule returns_waiting)
  then obtain t where t: "forRange (waitForPods P namespace) ds () s = (Ok (), t)"
    using assms(3) by (auto elim: returnsE)
  have "preserves (objectsOf view) (forRange (waitForPods P namespace) ds ())"
    by (intro pres.steps_forRange keeps_objects_waitForPods w(1) assms(2))
  from steps_run [OF this t] t show ?thesis by blast
qed

lemma Unidle_ingresses_namespaces:
  assumes "working P view h" and "answers P view" and "pollRunsCondition P" and "healthyIn view s"
    and "refExists (NamespaceRef (ns_name namespace)) (objectsOf view s)"
    and "distinct (map refOfDeployment (cl_deployments (objectsOf view s)))"
    and "distinct (map refOfIngress (cl_ingresses (objectsOf view s)))"
    and "u = snd (Unidle P namespace s)"
  shows "cl_ingresses (objectsOf view u)
           = map (\<lambda>i. if ing_namespace i = ns_name namespace then ingressAfterUnidle i else i)
               (cl_ingresses (objectsOf view s))"
    and "cl_namespaces (objectsOf view u)
           = map (\<lambda>n. if ns_name n = ns_name namespace then mergeNamespace unidledLabelPatch n else n)
               (cl_namespaces (objectsOf view s))"
proof -
  note w = workingD [OF assms(1)]
  have api: "apiServer P view" using assms(1) by (simp add: working_def)
  let ?ns = "ns_name namespace"
  let ?ds = "deploymentsMatching ?ns [watched] (objectsOf view s)"
  obtain s1 where l: "ListDeployments P (inNamespace ?ns (Requirements [watched])) s = (Ok (Inr ?ds), s1)"
    and s1: "objectsOf view s1 = objectsOf view s"
    using ListDeployments_matching [OF api assms(2)] by blast
  have "list_all sound ?ds"
    using assms(4) by (auto simp: healthy_def deploymentsMatching_def list_all_iff)
  moreover have "healthyIn view s1" using s1 assms(4) by simp
  ultimately obtain s2 where up: "forRange (unidleDeployment P) ?ds () s1 = (Ok (), s2)" and h2: "healthyIn view s2"
    by (rule returnsE [OF returns_scaling [OF assms(1)]]) simp
  have s2: "cl_ingresses (objectsOf view s2) = cl_ingresses (objectsOf view s)"
    "cl_namespaces (objectsOf view s2) = cl_namespaces (objectsOf view s)"
    using steps_run [OF scaling_keeps [OF w(2), of cl_ingresses] up]
      steps_run [OF scaling_keeps [OF w(2), of cl_namespaces] up] s1 by simp_all
  obtain s3 where wait: "forRange (waitForPods P namespace) ?ds () s2 = (Ok (), s3)"
    and s3: "objectsOf view s3 = objectsOf view s2"
    using waiting_returns [OF assms(1,3) h2] by blast
  have "distinct (map refOfIngress (cl_ingresses (objectsOf view s3)))"
    using assms(7) by (simp only: s3 s2)
  from removeCode_objects [OF api assms(2) this, of ?ns]
  obtain s4 where rem: "removeCodeFromIngress P ?ns s3 = (Ok (), s4)"
    and s4: "cl_ingresses (objectsOf view s4)
      = map (\<lambda>i. if ing_namespace i = ?ns then ingressAfterUnidle i else i) (cl_ingresses (objectsOf view s3))"
    by blast
  have n4: "cl_namespaces (objectsOf view s4) = cl_namespaces (objectsOf view s)"
    using steps_run [OF removeCode_keeps_namespaces [OF api] rem] s3 s2 by simp
  let ?s5 = "s4\<lparr>metrics := (metrics s4)\<lparr>unidleEvents := Suc (unidleEvents (metrics s4))\<rparr>\<rparr>"
  have "refExists (NamespaceRef ?ns) (objectsOf view ?s5)"
    using assms(5) n4 by simp
  from Patch_accepted [OF w(2) assms(2) this, of unidledLabelPatch]
  obtain s6 where p: "Patch P (NamespaceRef ?ns) unidledLabelPatch ?s5 = (Ok None, s6)"
    and s6: "objectsOf view s6 = patchObject (NamespaceRef ?ns) unidledLabelPatch (objectsOf view ?s5)"
    by blast
  have "world u = world s6"
    using w(8) by (simp add: assms(8) Unidle_def deferred_apply equalsTrue_def andThen_Ok l up wait rem
        countMetric_def p ret_def)
  then have u: "objectsOf view u = patchObject (NamespaceRef ?ns) unidledLabelPatch (objectsOf view s4)"
    using s6 by simp
  show "cl_ingresses (objectsOf view u)
           = map (\<lambda>i. if ing_namespace i = ?ns then ingressAfterUnidle i else i)
               (cl_ingresses (objectsOf view s))"
    by (simp add: u s4 s3 s2)
  show "cl_namespaces (objectsOf view u)
           = map (\<lambda>n. if ns_name n = ?ns then mergeNamespace unidledLabelPatch n else n)
               (cl_namespaces (objectsOf view s))"
    by (simp add: u n4)
qed

text \<open>An environment that is awake.\<close>

definition awake :: "string \<Rightarrow> objects \<Rightarrow> bool" where
  "awake ns v \<longleftrightarrow>
     (\<forall>d \<in> set (cl_deployments v). dep_namespace d = ns
        \<longrightarrow> dep_labels d ''idling.amazee.io/watch'' = Some ''true'' \<longrightarrow> \<not> needsScaling d)
     \<and> (\<forall>i \<in> set (cl_ingresses v). ing_namespace i = ns \<longrightarrow> unmarked i)
     \<and> (\<forall>n \<in> set (cl_namespaces v). ns_name n = ns
        \<longrightarrow> ns_labels n ''idling.amazee.io/idled'' = Some ''false'')"

lemma Unidle_awake:
  assumes "working P view h" and "answers P view" and "pollRunsCondition P" and "healthyIn view s"
    and "refExists (NamespaceRef (ns_name namespace)) (objectsOf view s)"
    and "distinct (map refOfDeployment (cl_deployments (objectsOf view s)))"
    and "distinct (map refOfIngress (cl_ingresses (objectsOf view s)))"
  shows "awake (ns_name namespace) (objectsOf view (snd (Unidle P namespace s)))"
  unfolding awake_def
proof (intro conjI)
  have api: "apiServer P view" using assms(1) by (simp add: working_def)
  let ?v = "objectsOf view (snd (Unidle P namespace s))"
  let ?watched = "\<lambda>d. dep_namespace d = ns_name namespace \<and> dep_labels d ''idling.amazee.io/watch'' = Some ''true''"
  have "\<forall>d \<in> set (cl_deployments (objectsOf view s)). dep_replicas d \<noteq> None"
    using assms(4) by (auto simp: healthy_def sound_def list_all_iff)
  from unidle_objects [OF api assms(2,3) workingD(8) [OF assms(1)] this assms(6), of namespace]
  have v: "cl_deployments ?v = map (\<lambda>d. if ?watched d then afterUnidle d else d) (cl_deployments (objectsOf view s))" .
  have awake: "\<not> needsScaling (afterUnidle d)" for d
    using afterUnidle_facts(2) [of d] by (auto simp: needsScaling_def afterUnidle_def)
  show "\<forall>d \<in> set (cl_deployments ?v). dep_namespace d = ns_name namespace
            \<longrightarrow> dep_labels d ''idling.amazee.io/watch'' = Some ''true'' \<longrightarrow> \<not> needsScaling d"
    using awake by (auto simp: v)
  note rest = Unidle_ingresses_namespaces [OF assms(1-7) refl]
  show "\<forall>i \<in> set (cl_ingresses ?v). ing_namespace i = ns_name namespace \<longrightarrow> unmarked i"
    using unmarked_afterUnidle by (auto simp: rest(1))
  show "\<forall>n \<in> set (cl_namespaces ?v). ns_name n = ns_name namespace
            \<longrightarrow> ns_labels n ''idling.amazee.io/idled'' = Some ''false''"
    by (auto simp: rest(2) mergeNamespace_def mergeMeta_def unidledLabelPatch_def)
qed


end
