(* ===== verification/Interleave.thy ===== *)
theory Interleave
  imports PatchTypes
begin

text \<open>
  The goroutines of the controller, interleaved.  The cron library runs each job in a
  goroutine, the HTTP server answers each request in one, \<open>go h.Unidle\<close> starts more, and the
  reconciler has its own; nothing orders their requests to the API server.  A run of one
  goroutine among others is a run on a platform whose world the others change between any two
  of its requests; its trace is the list of the worlds each request found and left.  A
  schedule merges such traces into one history of the cluster.
\<close>

section \<open>One goroutine among others\<close>

text \<open>
  The world as one goroutine meets it: the one it left or found last, those its next requests
  will find (when the list is used up nobody interferes any more), and its trace so far.
\<close>

record 'w shared =
  sh_now :: 'w
  sh_next :: "'w list"
  sh_log :: "('w \<times> 'w) list"

definition arrive :: "'w shared \<Rightarrow> 'w shared" where
  "arrive s = (case sh_next s of [] \<Rightarrow> s | w # ws \<Rightarrow> s\<lparr>sh_now := w, sh_next := ws\<rparr>)"

definition traced :: "('w \<Rightarrow> 'r \<times> 'w) \<Rightarrow> 'w shared \<Rightarrow> 'r \<times> 'w shared" where
  "traced f s =
     (let s1 = arrive s
      in case f (sh_now s1) of (r, w) \<Rightarrow> (r, s1\<lparr>sh_now := w, sh_log := sh_log s1 @ [(sh_now s1, w)]\<rparr>))"

text \<open>
  The platform of a goroutine among others.  Only requests are points of interleaving; the
  clock is read in the world of the goroutine's last request.  The poll loop runs code of the
  goroutine, so it comes as an argument, like that of any platform.
\<close>

definition tracing ::
  "'w platform
   \<Rightarrow> (duration \<Rightarrow> duration \<Rightarrow> bool \<Rightarrow> ('w shared st, gerror + bool) go \<Rightarrow> ('w shared st, gerror option) go)
   \<Rightarrow> 'w shared platform" where
  "tracing P wait =
     \<lparr>newRequirementOk = newRequirementOk P,
      listNamespaces = (\<lambda>opts. traced (listNamespaces P opts)),
      listDeployments = (\<lambda>opts. traced (listDeployments P opts)),
      listPods = (\<lambda>opts. traced (listPods P opts)),
      listIngresses = (\<lambda>opts. traced (listIngresses P opts)),
      getNamespace = (\<lambda>n. traced (getNamespace P n)),
      getDeployment = (\<lambda>ns n. traced (getDeployment P ns n)),
      getIngress = (\<lambda>ns n. traced (getIngress P ns n)),
      sendPatch = (\<lambda>ref p. traced (sendPatch P ref p)),
      promQuery = (\<lambda>q. traced (promQuery P q)),
      restConfig = (\<lambda>s. restConfig P (sh_now s)),
      newClientset = (\<lambda>s. newClientset P (sh_now s)),
      addToScheme = (\<lambda>s. addToScheme P (sh_now s)),
      newExecutor = (\<lambda>r s. newExecutor P r (sh_now s)),
      execStream = (\<lambda>r. traced (execStream P r)),
      clock = (\<lambda>s. clock P (sh_now s)),
      clockRFC3339 = (\<lambda>s. clockRFC3339 P (sh_now s)),
      getenv = getenv P, matchString = matchString P, urlHostname = urlHostname P,
      templateParses = templateParses P,
      pollUntil = wait\<rparr>"

lemma traced_apply:
  "traced f s = (fst (f (sh_now (arrive s))),
     (arrive s)\<lparr>sh_now := snd (f (sh_now (arrive s))),
        sh_log := sh_log s @ [(sh_now (arrive s), snd (f (sh_now (arrive s))))]\<rparr>)"
  by (simp add: traced_def arrive_def split: prod.split list.split)

lemma tracing_simps [simp]:
  "newRequirementOk (tracing P wait) = newRequirementOk P"
  "listNamespaces (tracing P wait) opts = traced (listNamespaces P opts)"
  "listDeployments (tracing P wait) opts = traced (listDeployments P opts)"
  "listPods (tracing P wait) opts = traced (listPods P opts)"
  "listIngresses (tracing P wait) opts = traced (listIngresses P opts)"
  "getNamespace (tracing P wait) n = traced (getNamespace P n)"
  "getDeployment (tracing P wait) ns n = traced (getDeployment P ns n)"
  "getIngress (tracing P wait) ns n = traced (getIngress P ns n)"
  "sendPatch (tracing P wait) ref p = traced (sendPatch P ref p)"
  "promQuery (tracing P wait) q = traced (promQuery P q)"
  "execStream (tracing P wait) r = traced (execStream P r)"
  "waitPoll (tracing P wait) = wait defaultPollDuration defaultPollTimeout True"
  by (simp_all add: tracing_def waitPoll_def fun_eq_iff)

lemma tracing_reads [simp]:
  "restConfig (tracing P wait) s = restConfig P (sh_now s)"
  "newClientset (tracing P wait) s = newClientset P (sh_now s)"
  "addToScheme (tracing P wait) s = addToScheme P (sh_now s)"
  "newExecutor (tracing P wait) r s = newExecutor P r (sh_now s)"
  "clock (tracing P wait) s = clock P (sh_now s)"
  "clockRFC3339 (tracing P wait) s = clockRFC3339 P (sh_now s)"
  by (simp_all add: tracing_def)

lemma tracing_config [simp]:
  "getenv (tracing P wait) = getenv P" "matchString (tracing P wait) = matchString P"
  "urlHostname (tracing P wait) = urlHostname P" "templateParses (tracing P wait) = templateParses P"
  by (simp_all add: tracing_def)

section \<open>Goroutines and schedules\<close>

datatype goroutine =
    CronRun job
  | UnidleRun namespace
  | RequestRun http_request
  | ReconcileRun string

fun runGoroutine :: "'w platform \<Rightarrow> idler \<Rightarrow> unidler \<Rightarrow> goroutine \<Rightarrow> ('w st, unit) go" where
  "runGoroutine P h u (CronRun j) = runJob P h j"
| "runGoroutine P h u (UnidleRun namespace) = Unidle P namespace"
| "runGoroutine P h u (RequestRun r) = route P u r"
| "runGoroutine P h u (ReconcileRun req) = andThen (Reconcile P h req) (\<lambda>e. ret ())"

text \<open>A state of the process, given to a goroutine with the worlds its requests will find.\<close>

definition enter :: "'w list \<Rightarrow> 'w st \<Rightarrow> 'w shared st" where
  "enter ws s = \<lparr>world = \<lparr>sh_now = world s, sh_next = ws, sh_log = []\<rparr>, calls = calls s,
     metrics = metrics s, locks = locks s, spawned = spawned s, resp = resp s\<rparr>"

definition traceOf :: "('w shared st, 'a) go \<Rightarrow> 'w list \<Rightarrow> 'w st \<Rightarrow> ('w \<times> 'w) list" where
  "traceOf m ws s = sh_log (world (snd (m (enter ws s))))"

text \<open>A history: which goroutine sent the request, the world it found and the world it left.\<close>

type_synonym 'w history = "(nat \<times> 'w \<times> 'w) list"

fun chained :: "'w \<Rightarrow> 'w history \<Rightarrow> bool" where
  "chained w [] = True"
| "chained w ((i, a, b) # ms) = (a = w \<and> chained b ms)"

fun worldAfter :: "'w \<Rightarrow> 'w history \<Rightarrow> 'w" where
  "worldAfter w [] = w"
| "worldAfter w ((i, a, b) # ms) = worldAfter b ms"

definition stepsOf :: "nat \<Rightarrow> 'w history \<Rightarrow> ('w \<times> 'w) list" where
  "stepsOf i ms = map snd (filter (\<lambda>m. fst m = i) ms)"

text \<open>
  A schedule of goroutines from a state of the process: a history in which each step finds
  the world the one before it left, and the steps of each goroutine are, as far as it has
  come, those of its run in the worlds it found.  A goroutine is done when they are all of it.
  A step whose number is not that of a goroutine is one of the rest of the world, of users,
  of the other controllers of the cluster, of pods that start and of time that passes; what
  such steps may do is the relation \<open>E\<close>.
\<close>

definition traceIn ::
  "'w shared platform \<Rightarrow> idler \<Rightarrow> unidler \<Rightarrow> 'w st \<Rightarrow> goroutine \<Rightarrow> nat \<Rightarrow> 'w history \<Rightarrow> ('w \<times> 'w) list" where
  "traceIn T h u s g i ms = traceOf (runGoroutine T h u g) (map fst (stepsOf i ms)) s"

definition schedule ::
  "'w shared platform \<Rightarrow> ('w \<Rightarrow> 'w \<Rightarrow> bool) \<Rightarrow> idler \<Rightarrow> unidler \<Rightarrow> 'w st \<Rightarrow> goroutine list \<Rightarrow> 'w history \<Rightarrow> bool" where
  "schedule T E h u s gs ms \<longleftrightarrow>
     chained (world s) ms \<and> list_all (\<lambda>(i, a, b). i < length gs \<or> E a b) ms
     \<and> list_all (\<lambda>i. prefix (stepsOf i ms) (traceIn T h u s (gs ! i) i ms)) [0..<length gs]"

definition finished ::
  "'w shared platform \<Rightarrow> idler \<Rightarrow> unidler \<Rightarrow> 'w st \<Rightarrow> goroutine list \<Rightarrow> nat \<Rightarrow> 'w history \<Rightarrow> bool" where
  "finished T h u s gs i ms \<longleftrightarrow>
     i < length gs \<and> stepsOf i ms = traceIn T h u s (gs ! i) i ms"

section \<open>Steps of a history\<close>

definition loggedRel :: "('w \<Rightarrow> 'w \<Rightarrow> bool) \<Rightarrow> 'w shared st \<Rightarrow> 'w shared st \<Rightarrow> bool" where
  "loggedRel G s t \<longleftrightarrow>
     (\<exists>new. sh_log (world t) = sh_log (world s) @ new \<and> list_all (\<lambda>(a, b). G a b) new)"

interpretation logged: effect "loggedRel G :: 'w shared st \<Rightarrow> 'w shared st \<Rightarrow> bool" for G
proof
  fix s :: "'w shared st"
  show "loggedRel G s s" by (simp add: loggedRel_def)
next
  fix s t u :: "'w shared st"
  assume "loggedRel G s t" and "loggedRel G t u"
  then obtain a b where "sh_log (world t) = sh_log (world s) @ a" "list_all (\<lambda>(a, b). G a b) a"
    "sh_log (world u) = sh_log (world t) @ b" "list_all (\<lambda>(a, b). G a b) b"
    unfolding loggedRel_def by blast
  then show "loggedRel G s u"
    unfolding loggedRel_def by (intro exI [of _ "a @ b"]) simp
qed

lemma logged_request:
  "(\<And>w. G w (snd (f w))) \<Longrightarrow> steps (loggedRel G) (request c (traced f))"
  by (rule stepsI) (simp add: loggedRel_def request_eval traced_apply)

lemma logged_trace:
  assumes "steps (loggedRel G) m"
  shows "list_all (\<lambda>(a, b). G a b) (traceOf m ws s)"
  using stepsD [OF assms, of "enter ws s"] by (auto simp: loggedRel_def traceOf_def enter_def)

text \<open>What a request does to the objects: nothing, or one patch of the given kind.\<close>

definition moves :: "('w \<Rightarrow> objects) \<Rightarrow> (objref \<Rightarrow> json \<Rightarrow> bool) \<Rightarrow> 'w \<Rightarrow> 'w \<Rightarrow> bool" where
  "moves view A a b \<longleftrightarrow> view b = view a \<or> (\<exists>ref p. A ref p \<and> view b = patchObject ref p (view a))"

lemma asks_logged:
  assumes "readsKeep P view"
  shows "asks (loggedRel (moves view A)) (tracing P wait)"
proof
  show "loggedRel (moves view A) s t" if "world t = world s" for s t
    using that by (simp add: loggedRel_def)
qed (use assms in \<open>auto simp: request_defs readsKeep_def moves_def intro!: logged_request\<close>)

lemma moves_sendPatch:
  "patchMerges P view \<Longrightarrow> A ref p \<Longrightarrow> moves view A w (snd (sendPatch P ref p w))"
  by (auto simp: patchMerges_def moves_def)

lemma logged_Patch:
  "patchMerges P view \<Longrightarrow> A ref p \<Longrightarrow> steps (loggedRel (moves view A)) (Patch (tracing P wait) ref p)"
  by (simp add: Patch_def logged_request moves_sendPatch)

lemma wakes_logged:
  assumes "readsKeep P view" and "patchMerges P view" and "pollRunsCondition (tracing P wait)" and "wake_kinds A"
  shows "wakes (loggedRel (moves view A)) (tracing P wait) A"
proof (intro wakes.intro asks_logged wakes_axioms.intro assms)
  show "steps (loggedRel (moves view A)) (Patch (tracing P wait) ref p)" if "A ref p" for ref p
    using assms(2) that by (rule logged_Patch)
  show "steps (loggedRel (moves view A)) (waitPoll (tracing P wait) cond)"
    if "steps (loggedRel (moves view A)) cond" for cond
    using assms(3) logged.effect_axioms that by (rule poll_steps)
qed

lemma sends_logged:
  assumes "readsKeep P view" and "patchMerges P view" and "pollRunsCondition (tracing P wait)" and "patch_kinds A"
  shows "sends (loggedRel (moves view A)) (tracing P wait) A"
  by (intro sends.intro wakes_logged patch_kinds.axioms(1) assms)

lemma goroutine_steps:
  assumes "readsKeep P view" and "patchMerges P view" and "pollRunsCondition (tracing P wait)"
  shows "steps (loggedRel (moves view patchTyped)) (runGoroutine (tracing P wait) h u g)"
proof -
  note k = sends_logged [OF assms typed.patch_kinds_axioms]
  show ?thesis
    using sends.runJob_sends [OF k] wakes.Unidle_sends [OF sends.axioms(1) [OF k]]
      asks.route_asks [OF wakes.axioms(1) [OF sends.axioms(1) [OF k]]]
      sends.Reconcile_sends [OF k removeLabelPatch_typed]
    by (cases g) (simp_all add: logged.steps_rules)
qed

section \<open>From goroutines to histories\<close>

lemma stepsOf_simps [simp]:
  "stepsOf i [] = []" "stepsOf i ((j, x) # ms) = (if j = i then x # stepsOf i ms else stepsOf i ms)"
  "stepsOf i (ms @ ms') = stepsOf i ms @ stepsOf i ms'"
  by (simp_all add: stepsOf_def)

lemma stepsOf_set: "x \<in> set (stepsOf i ms) \<longleftrightarrow> (i, x) \<in> set ms"
  by (force simp: stepsOf_def)

text \<open>Each step of a schedule is a step of a run of its goroutine.\<close>

lemma schedule_step:
  assumes "schedule T E h u s gs ms" and "(i, a, b) \<in> set ms" and "i < length gs"
  shows "(a, b) \<in> set (traceIn T h u s (gs ! i) i ms)"
proof -
  from assms(1,3) have "prefix (stepsOf i ms) (traceIn T h u s (gs ! i) i ms)"
    by (simp add: schedule_def list_all_iff)
  moreover have "(a, b) \<in> set (stepsOf i ms)" using assms(2) by (simp add: stepsOf_set)
  ultimately show ?thesis by (auto dest: set_mono_prefix)
qed

lemma schedule_moves:
  assumes "schedule T E h u s gs ms" and "\<And>g. g \<in> set gs \<Longrightarrow> steps (loggedRel G) (runGoroutine T h u g)"
  shows "list_all (\<lambda>(i, a, b). if i < length gs then G a b else E a b) ms"
proof -
  have "G a b" if m: "(i, a, b) \<in> set ms" and i: "i < length gs" for i a b
  proof -
    have "list_all (\<lambda>(a, b). G a b) (traceIn T h u s (gs ! i) i ms)"
      unfolding traceIn_def by (rule logged_trace) (rule assms(2) [OF nth_mem [OF i]])
    with schedule_step [OF assms(1) m i] show ?thesis by (auto simp: list_all_iff)
  qed
  moreover have "E a b" if "(i, a, b) \<in> set ms" and "\<not> i < length gs" for i a b
    using assms(1) that by (auto simp: schedule_def list_all_iff)
  ultimately show ?thesis by (auto simp: list_all_iff)
qed

lemma schedule_jointly:
  assumes "schedule T E h u s gs ms" and "\<And>g. g \<in> set gs \<Longrightarrow> steps (loggedRel G) (runGoroutine T h u g)"
  shows "list_all (\<lambda>(i, a, b). G a b \<or> E a b) ms"
  using schedule_moves [OF assms] by (auto simp: list_all_iff split: if_splits)

text \<open>
  What holds at the start and is stable under every step holds in every world of a chain, and
  what holds in some world holds at the end.
\<close>

lemma chained_stable:
  assumes "chained w ms" and "list_all (\<lambda>(i, a, b). G a b) ms" and "F w"
    and "\<And>a b. G a b \<Longrightarrow> F a \<Longrightarrow> F b"
  shows "F (worldAfter w ms) \<and> list_all (\<lambda>(i, a, b). F a \<and> F b) ms"
  using assms(1-3)
  by (induction w ms rule: chained.induct) (auto intro: assms(4))

lemma chained_once:
  assumes "chained w ms" and "list_all (\<lambda>(i, a, b). G a b) ms" and "(i, a, b) \<in> set ms" and "F a \<or> F b"
    and "\<And>a b. G a b \<Longrightarrow> F a \<Longrightarrow> F b"
  shows "F (worldAfter w ms)"
  using assms(1-3)
proof (induction w ms rule: chained.induct)
  case (2 w j x y ms)
  show ?case
  proof (cases "(i, a, b) = (j, x, y)")
    case True
    then have "F y" using assms(4) 2(3) assms(5) [of x y] by auto
    then have "F (worldAfter y ms)"
      using chained_stable [of y ms G F] 2(2,3) assms(5) by auto
    then show ?thesis by simp
  next
    case False
    then show ?thesis using 2 by auto
  qed
qed simp

text \<open>
  What every schedule keeps if the others do: the objects there are, and what does not belong
  to the controller.
\<close>

definition present :: "objects \<Rightarrow> objref list" where
  "present v = map (\<lambda>x. NamespaceRef (ns_name x)) (cl_namespaces v) @ map refOfDeployment (cl_deployments v)
     @ map refOfIngress (cl_ingresses v)"

lemma present_patch: "present (patchObject ref p v) = present v"
  by (cases ref) (simp_all add: present_def)

lemma refExists_present: "refExists ref v \<longleftrightarrow> ref \<in> set (present v)"
  by (cases ref) (auto simp: present_def list_ex_iff)

lemma refs_present:
  "map refOfDeployment (cl_deployments v) = filter (\<lambda>r. case r of DeploymentRef ns n \<Rightarrow> True | _ \<Rightarrow> False) (present v)"
  "map refOfIngress (cl_ingresses v) = filter (\<lambda>r. case r of IngressRef ns n \<Rightarrow> True | _ \<Rightarrow> False) (present v)"
  by (simp_all add: present_def filter_map comp_def)

lemma moves_keep:
  assumes "moves view patchTyped a b"
  shows "foreign (view b) = foreign (view a)" and "present (view b) = present (view a)"
  using assms by (auto simp: moves_def foreign_patch present_patch)

lemma schedule_keeps:
  assumes "schedule T E h u s gs ms" and "\<And>g. g \<in> set gs \<Longrightarrow> steps (loggedRel G) (runGoroutine T h u g)"
    and "\<And>a b. G a b \<or> E a b \<Longrightarrow> F a \<Longrightarrow> F b" and "F (world s)"
  shows "F (worldAfter (world s) ms)" and "list_all (\<lambda>(i, a, b). F a \<and> F b) ms"
proof -
  have "F (worldAfter (world s) ms) \<and> list_all (\<lambda>(i, a, b). F a \<and> F b) ms"
    using assms(1) schedule_jointly [OF assms(1,2)]
    by (intro chained_stable [where G = "\<lambda>a b. G a b \<or> E a b"]) (auto simp: schedule_def assms(4) intro: assms(3))
  then show "F (worldAfter (world s) ms)" and "list_all (\<lambda>(i, a, b). F a \<and> F b) ms" by simp_all
qed

text \<open>
  C16. However the goroutines of the controller are interleaved with each other, any number of
  cron runs, \<open>Unidle\<close>s, requests and reconciles, and with whatever the rest of the world
  does, each of their steps leaves everything in the cluster that does not belong to the
  controller as it finds it; where the others do so too it is all in the end as it was.
\<close>

theorem interleaved_foreign_kept:
  assumes "readsKeep P view" and "patchMerges P view" and "pollRunsCondition (tracing P wait)"
    and "schedule (tracing P wait) E h u s gs ms"
  shows "list_all (\<lambda>(i, a, b). i < length gs \<longrightarrow> foreign (view b) = foreign (view a)) ms
     \<and> ((\<forall>a b. E a b \<longrightarrow> foreign (view b) = foreign (view a))
        \<longrightarrow> foreign (view (worldAfter (world s) ms)) = foreign (view (world s)))"
proof (intro conjI impI)
  note typed = goroutine_steps [OF assms(1-3)]
  show "list_all (\<lambda>(i, a, b). i < length gs \<longrightarrow> foreign (view b) = foreign (view a)) ms"
    using schedule_moves [OF assms(4) typed] by (auto simp: list_all_iff moves_keep(1))
  assume "\<forall>a b. E a b \<longrightarrow> foreign (view b) = foreign (view a)"
  then show "foreign (view (worldAfter (world s) ms)) = foreign (view (world s))"
    by (intro schedule_keeps(1) [OF assms(4) typed, where F = "\<lambda>w. foreign (view w) = foreign (view (world s))"])
      (auto simp: moves_keep(1))
qed

end
