(* ===== verification/Resumed.thy ===== *)
theory Resumed
  imports Interleave
begin

text \<open>
  The interleaved goroutines against the sequential code.  A goroutine whose requests find the
  worlds they left themselves does what the code does on its own; and one that goes on after
  others have changed the world does what the code does on a platform in that world, except
  that the clock it reads before its first request is that of the world it last saw.  Both are
  one statement about two platforms, the locale \<open>resumed\<close>.
\<close>

section \<open>Mirroring\<close>

text \<open>
  \<open>cur\<close> is the world the next request finds, \<open>now\<close> the one the clock is read in.
\<close>

definition lift :: "('v \<Rightarrow> 'w) \<Rightarrow> 'w list \<Rightarrow> ('w \<times> 'w) list \<Rightarrow> 'v st \<Rightarrow> 'w shared st" where
  "lift now ws log s = \<lparr>world = \<lparr>sh_now = now (world s), sh_next = ws, sh_log = log\<rparr>, calls = calls s,
     metrics = metrics s, locks = locks s, spawned = spawned s, resp = resp s\<rparr>"

lemma lift_simps [simp]:
  "world (lift now ws log s) = \<lparr>sh_now = now (world s), sh_next = ws, sh_log = log\<rparr>"
  "calls (lift now ws log s) = calls s" "metrics (lift now ws log s) = metrics s"
  "locks (lift now ws log s) = locks s" "spawned (lift now ws log s) = spawned s" "resp (lift now ws log s) = resp s"
  by (simp_all add: lift_def)

lemma lift_updates [simp]:
  "(lift now ws log s)\<lparr>metrics := m\<rparr> = lift now ws log (s\<lparr>metrics := m\<rparr>)"
  "(lift now ws log s)\<lparr>locks := l\<rparr> = lift now ws log (s\<lparr>locks := l\<rparr>)"
  "(lift now ws log s)\<lparr>spawned := ns\<rparr> = lift now ws log (s\<lparr>spawned := ns\<rparr>)"
  "(lift now ws log s)\<lparr>resp := r\<rparr> = lift now ws log (s\<lparr>resp := r\<rparr>)"
  by (simp_all add: lift_def)

text \<open>The steps of a run that finds what it left.\<close>

fun linked :: "'w \<Rightarrow> ('w \<times> 'w) list \<Rightarrow> 'w \<Rightarrow> bool" where
  "linked w [] v = (v = w)"
| "linked w ((a, b) # L) v = (a = w \<and> linked b L v)"

lemma linked_append: "linked u L v \<Longrightarrow> linked v L' w \<Longrightarrow> linked u (L @ L') w"
  by (induction u L v rule: linked.induct) simp_all

text \<open>The flag says that the code sends at least one request.\<close>

definition follows ::
  "bool \<Rightarrow> ('v \<Rightarrow> 'w) \<Rightarrow> ('v \<Rightarrow> 'w) \<Rightarrow> ('w shared st, 'a) go \<Rightarrow> ('v st, 'a) go \<Rightarrow> bool" where
  "follows b cur now m' m \<longleftrightarrow>
     (\<forall>s. \<exists>L. (b \<longrightarrow> L \<noteq> []) \<and> linked (cur (world s)) L (cur (world (snd (m s))))
        \<and> (\<forall>ws log. m' (lift now (map fst L @ ws) log s) = (fst (m s), lift now ws (log @ L) (snd (m s)))))"

abbreviation mirrors :: "('v \<Rightarrow> 'w) \<Rightarrow> ('v \<Rightarrow> 'w) \<Rightarrow> ('w shared st, 'a) go \<Rightarrow> ('v st, 'a) go \<Rightarrow> bool" where
  "mirrors \<equiv> follows False"

lemma followsI:
  "(\<And>s. \<exists>L. (b \<longrightarrow> L \<noteq> []) \<and> linked (cur (world s)) L (cur (world (snd (m s))))
      \<and> (\<forall>ws log. m' (lift now (map fst L @ ws) log s) = (fst (m s), lift now ws (log @ L) (snd (m s)))))
   \<Longrightarrow> follows b cur now m' m"
  by (simp add: follows_def)

lemma followsE:
  assumes "follows b cur now m' m" and "m s = (r, t)"
  obtains L where "b \<longrightarrow> L \<noteq> []" and "linked (cur (world s)) L (cur (world t))"
    and "\<And>ws log. m' (lift now (map fst L @ ws) log s) = (r, lift now ws (log @ L) t)"
  using assms unfolding follows_def by (metis fst_conv snd_conv)

text \<open>Code that sends nothing.\<close>

lemma mirrors_quiet:
  assumes "\<And>s. world (snd (m s)) = world s"
    and "\<And>ws log s. m' (lift now ws log s) = (fst (m s), lift now ws log (snd (m s)))"
  shows "mirrors cur now m' m"
  using assms by (intro followsI exI [of _ "[]"]) simp

lemma mirrors_ret: "mirrors cur now (ret x) (ret x)"
  by (rule mirrors_quiet) (simp_all add: ret_def)

lemma mirrors_panic: "mirrors cur now (panic p) (panic p)"
  by (rule mirrors_quiet) (simp_all add: panic_def)

lemma mirrors_liftO: "mirrors cur now (liftO r) (liftO r)"
  by (rule mirrors_quiet) (simp_all add: liftO_def)

lemma mirrors_gets: "(\<And>ws log s. f' (lift now ws log s) = f s) \<Longrightarrow> mirrors cur now (gets f') (gets f)"
  by (rule mirrors_quiet) simp_all

lemma mirrors_modify:
  "(\<And>s. world (f s) = world s) \<Longrightarrow> (\<And>ws log s. f' (lift now ws log s) = lift now ws log (f s))
    \<Longrightarrow> mirrors cur now (modify f') (modify f)"
  by (rule mirrors_quiet) simp_all

lemma mirrors_countMetric: "mirrors cur now (countMetric f) (countMetric f)"
  unfolding countMetric_def by (rule mirrors_modify) simp_all

section \<open>Requests\<close>

text \<open>One request answers as another does in the current world, and leaves a world that is seen at once.\<close>

definition answersAs :: "('v \<Rightarrow> 'w) \<Rightarrow> ('v \<Rightarrow> 'w) \<Rightarrow> ('v \<Rightarrow> 'r \<times> 'v) \<Rightarrow> ('w \<Rightarrow> 'r \<times> 'w) \<Rightarrow> bool" where
  "answersAs cur now g f \<longleftrightarrow>
     (\<forall>x. fst (g x) = fst (f (cur x)) \<and> cur (snd (g x)) = snd (f (cur x)) \<and> now (snd (g x)) = snd (f (cur x)))"

lemma follows_request:
  assumes "answersAs cur now g f"
  shows "follows b cur now (request c (traced f)) (request c g)"
proof (rule followsI)
  fix s :: "'a st"
  let ?L = "[(cur (world s), snd (f (cur (world s))))]"
  show "\<exists>L. (b \<longrightarrow> L \<noteq> []) \<and> linked (cur (world s)) L (cur (world (snd (request c g s))))
      \<and> (\<forall>ws log. request c (traced f) (lift now (map fst L @ ws) log s)
            = (fst (request c g s), lift now ws (log @ L) (snd (request c g s))))"
    using assms
    by (intro exI [of _ ?L]) (simp add: request_eval traced_apply arrive_def lift_def answersAs_def)
qed

section \<open>Control structures\<close>

lemma follows_andThen:
  assumes "follows b cur now m' m" and "\<And>x. mirrors cur now (f' x) (f x)"
  shows "follows b cur now (andThen m' f') (andThen m f)"
proof (rule followsI)
  fix s
  obtain r t where m: "m s = (r, t)" by fastforce
  from assms(1) m obtain L where ne: "b \<longrightarrow> L \<noteq> []" and L: "linked (cur (world s)) L (cur (world t))"
    and m': "\<And>ws log. m' (lift now (map fst L @ ws) log s) = (r, lift now ws (log @ L) t)"
    by (rule followsE) blast
  show "\<exists>L. (b \<longrightarrow> L \<noteq> []) \<and> linked (cur (world s)) L (cur (world (snd (andThen m f s))))
      \<and> (\<forall>ws log. andThen m' f' (lift now (map fst L @ ws) log s)
           = (fst (andThen m f s), lift now ws (log @ L) (snd (andThen m f s))))"
  proof (cases r)
    case (Ok x)
    obtain r2 v where f: "f x t = (r2, v)" by fastforce
    from assms(2) f obtain L' where L': "linked (cur (world t)) L' (cur (world v))"
      and f': "\<And>ws log. f' x (lift now (map fst L' @ ws) log t) = (r2, lift now ws (log @ L') v)"
      by (rule followsE) blast
    show ?thesis
      using Ok ne m f m' [of "map fst L' @ ws" for ws] f' linked_append [OF L L']
      by (intro exI [of _ "L @ L'"]) (simp add: andThen_def)
  next
    case (Panic p)
    then show ?thesis using m m' L ne by (intro exI [of _ L]) (simp add: andThen_def)
  qed
qed

lemmas mirrors_andThen = follows_andThen [where b = False]

lemma mirrors_if:
  "(b \<Longrightarrow> mirrors cur now m' m) \<Longrightarrow> (\<not> b \<Longrightarrow> mirrors cur now n' n) \<Longrightarrow> mirrors cur now (if b then m' else n') (if b then m else n)"
  by simp

lemma mirrors_sum:
  "(\<And>e. mirrors cur now (f' e) (f e)) \<Longrightarrow> (\<And>x. mirrors cur now (g' x) (g x))
    \<Longrightarrow> mirrors cur now (case r of Inl e \<Rightarrow> f' e | Inr x \<Rightarrow> g' x) (case r of Inl e \<Rightarrow> f e | Inr x \<Rightarrow> g x)"
  by (simp split: sum.split)

lemma mirrors_option:
  "mirrors cur now m' m \<Longrightarrow> (\<And>x. mirrors cur now (g' x) (g x))
    \<Longrightarrow> mirrors cur now (case r of None \<Rightarrow> m' | Some x \<Rightarrow> g' x) (case r of None \<Rightarrow> m | Some x \<Rightarrow> g x)"
  by (simp split: option.split)

lemma mirrors_list:
  "mirrors cur now m' m \<Longrightarrow> (\<And>y ys. mirrors cur now (f' y ys) (f y ys))
    \<Longrightarrow> mirrors cur now (case xs of [] \<Rightarrow> m' | y # ys \<Rightarrow> f' y ys) (case xs of [] \<Rightarrow> m | y # ys \<Rightarrow> f y ys)"
  by (simp split: list.split)

lemma mirrors_prod:
  "(\<And>a b. mirrors cur now (f' a b) (f a b)) \<Longrightarrow> mirrors cur now (case r of (a, b) \<Rightarrow> f' a b) (case r of (a, b) \<Rightarrow> f a b)"
  by (simp split: prod.split)

lemma mirrors_loop:
  "(\<And>a. mirrors cur now (f' a) (f a)) \<Longrightarrow> (\<And>a. mirrors cur now (g' a) (g a))
    \<Longrightarrow> mirrors cur now (case l of Continue a \<Rightarrow> f' a | Break a \<Rightarrow> g' a) (case l of Continue a \<Rightarrow> f a | Break a \<Rightarrow> g a)"
  by (simp split: loop.split)

lemma mirrors_lookup:
  "(\<And>i. mirrors cur now (f' i) (f i)) \<Longrightarrow> mirrors cur now m' m \<Longrightarrow> mirrors cur now n' n
    \<Longrightarrow> mirrors cur now (case l of FoundIngress i \<Rightarrow> f' i | IngressNotReadable \<Rightarrow> m' | IngressesNotListed \<Rightarrow> n')
                (case l of FoundIngress i \<Rightarrow> f i | IngressNotReadable \<Rightarrow> m | IngressesNotListed \<Rightarrow> n)"
  by (simp split: ingress_lookup.split)

lemma mirrors_Let: "(\<And>x. mirrors cur now (f' x) (f x)) \<Longrightarrow> mirrors cur now (Let v f') (Let v f)"
  by simp

lemma mirrors_forRange:
  assumes "\<And>x acc. mirrors cur now (body' x acc) (body x acc)"
  shows "mirrors cur now (forRange body' xs acc) (forRange body xs acc)"
  by (induction xs arbitrary: acc) (auto intro!: mirrors_andThen mirrors_loop mirrors_ret assms)

lemma follows_deferred:
  assumes "follows b cur now m' m" and "\<And>s. world (d s) = world s"
    and "\<And>ws log s. d' (lift now ws log s) = lift now ws log (d s)"
  shows "follows b cur now (deferred d' m') (deferred d m)"
proof (rule followsI)
  fix s
  obtain r t where m: "m s = (r, t)" by fastforce
  from assms(1) m obtain L where "b \<longrightarrow> L \<noteq> []" and "linked (cur (world s)) L (cur (world t))"
    and "\<And>ws log. m' (lift now (map fst L @ ws) log s) = (r, lift now ws (log @ L) t)"
    by (rule followsE) blast
  then show "\<exists>L. (b \<longrightarrow> L \<noteq> []) \<and> linked (cur (world s)) L (cur (world (snd (deferred d m s))))
      \<and> (\<forall>ws log. deferred d' m' (lift now (map fst L @ ws) log s)
           = (fst (deferred d m s), lift now ws (log @ L) (snd (deferred d m s))))"
    using m assms(2,3) by (intro exI [of _ L]) (simp add: deferred_apply)
qed

lemmas mirrors_code =
  mirrors_ret mirrors_panic mirrors_liftO mirrors_countMetric mirrors_andThen mirrors_if
  mirrors_sum mirrors_option mirrors_list mirrors_prod mirrors_loop mirrors_lookup mirrors_Let mirrors_forRange

section \<open>The controller\<close>

lemma generateSelector_cong: "newRequirementOk Q = newRequirementOk P \<Longrightarrow> generateSelector Q = generateSelector P"
  by (simp add: fun_eq_iff generateSelector_def)

lemma generateLabelRequirements_cong:
  assumes "newRequirementOk Q = newRequirementOk P"
  shows "generateLabelRequirements Q = generateLabelRequirements P"
proof -
  have "appendRequirements Q acc ss = appendRequirements P acc ss" for acc ss
    by (induction ss arbitrary: acc) (simp_all add: generateSelector_cong [OF assms] split: option.split)
  then show ?thesis by (simp add: fun_eq_iff generateLabelRequirements_def)
qed

lemma mirrors_response:
  "mirrors cur now (setHeader k v) (setHeader k v)" "mirrors cur now (WriteHeader c) (WriteHeader c)" "mirrors cur now (Write b) (Write b)"
proof -
  show header: "mirrors cur now (WriteHeader c) (WriteHeader c)" for c
    by (rule mirrors_quiet) (simp_all add: WriteHeader_def)
  show "mirrors cur now (setHeader k v) (setHeader k v)"
    unfolding setHeader_def by (rule mirrors_modify) simp_all
  show "mirrors cur now (Write b) (Write b)"
    unfolding Write_def by (intro mirrors_andThen header mirrors_modify) (simp_all split: option.split)
qed

lemma mirrors_startUnidle: "mirrors cur now (startUnidle ns namespace) (startUnidle ns namespace)"
  unfolding startUnidle_def
  by (intro mirrors_code mirrors_gets mirrors_modify) simp_all

text \<open>\<open>execPod\<close> sets up its client with what it finds before the request.\<close>

lemma execPod_gets:
  "execPod P podName ns command stdin tty =
     (let cmd = (if command = [] then [''sh''] else command);
          req = \<lparr>ex_pod = podName, ex_namespace = ns, ex_command = cmd, ex_stdin = stdin,
                 ex_stdout = True, ex_stderr = True, ex_tty = tty\<rparr>
      in andThen (gets (\<lambda>s. (restConfig P (world s), newClientset P (world s), addToScheme P (world s),
             newExecutor P req (world s)))) (\<lambda>(config, client, scheme, executor).
         case config of
           Some err \<Rightarrow> ret (Inl (GoError (''unable to get config: '' @ errorString err)))
         | None \<Rightarrow>
           (case client of
              Some err \<Rightarrow> ret (Inl (GoError (''unable to create client: '' @ errorString err)))
            | None \<Rightarrow>
              (case scheme of
                 Some err \<Rightarrow> ret (Inl (GoError (''error adding to scheme: '' @ errorString err)))
               | None \<Rightarrow>
                 (case executor of
                    Some err \<Rightarrow> ret (Inl (GoError (''error while creating Executor: '' @ errorString err)))
                  | None \<Rightarrow> andThen (ExecStream P req) (\<lambda>r. case r of
                        Inl err \<Rightarrow> ret (Inl (GoError (''error in Stream: '' @ errorString err)))
                      | Inr out \<Rightarrow> ret (Inr out)))))))"
  by (rule ext) (simp add: execPod_def andThen_def Let_def split: option.split)

text \<open>The poll loop has to mirror that of the other platform when its condition does.\<close>

definition pollMirrors ::
  "('v \<Rightarrow> 'w) \<Rightarrow> ('v \<Rightarrow> 'w) \<Rightarrow> 'w platform \<Rightarrow> 'v platform
   \<Rightarrow> (duration \<Rightarrow> duration \<Rightarrow> bool \<Rightarrow> ('w shared st, gerror + bool) go \<Rightarrow> ('w shared st, gerror option) go)
   \<Rightarrow> bool" where
  "pollMirrors cur now P Q wait \<longleftrightarrow>
     (\<forall>cond' cond. mirrors cur now cond' cond
        \<longrightarrow> mirrors cur now (waitPoll (tracing P wait) cond') (waitPoll Q cond))"

text \<open>
  Two platforms, of which \<open>Q\<close> answers in its current world as \<open>P\<close> does in it and reads the clock
  of the world it last saw.
\<close>

locale resumed =
  fixes cur now :: "'v \<Rightarrow> 'w" and P :: "'w platform" and Q :: "'v platform"
  assumes config: "newRequirementOk Q = newRequirementOk P" "getenv Q = getenv P" "matchString Q = matchString P"
      "urlHostname Q = urlHostname P" "templateParses Q = templateParses P"
    and lists: "answersAs cur now (listNamespaces Q opts) (listNamespaces P opts)"
      "answersAs cur now (listDeployments Q opts) (listDeployments P opts)"
      "answersAs cur now (listPods Q opts) (listPods P opts)"
      "answersAs cur now (listIngresses Q opts) (listIngresses P opts)"
    and gets: "answersAs cur now (getNamespace Q n) (getNamespace P n)"
      "answersAs cur now (getDeployment Q ns n) (getDeployment P ns n)"
      "answersAs cur now (getIngress Q ns n) (getIngress P ns n)"
    and others: "answersAs cur now (sendPatch Q ref p) (sendPatch P ref p)"
      "answersAs cur now (promQuery Q q) (promQuery P q)"
      "answersAs cur now (execStream Q e) (execStream P e)"
    and reads: "restConfig Q x = restConfig P (now x)" "newClientset Q x = newClientset P (now x)"
      "addToScheme Q x = addToScheme P (now x)" "newExecutor Q e x = newExecutor P e (now x)"
      "clock Q x = clock P (now x)" "clockRFC3339 Q x = clockRFC3339 P (now x)"
begin

lemma config_tracing:
  "generateLabelRequirements (tracing P wait) = generateLabelRequirements P"
  "generateLabelRequirements Q = generateLabelRequirements P"
  "equalsTrue (tracing P wait) = equalsTrue P" "equalsTrue Q = equalsTrue P"
  using generateLabelRequirements_cong [of "tracing P wait" P] generateLabelRequirements_cong [of Q P]
  by (simp_all add: config(1) fun_eq_iff equalsTrue_def)

lemma mirrors_requests:
  "mirrors cur now (ListNamespaces (tracing P wait) opts) (ListNamespaces Q opts)"
  "mirrors cur now (ListDeployments (tracing P wait) opts) (ListDeployments Q opts)"
  "mirrors cur now (ListPods (tracing P wait) opts) (ListPods Q opts)"
  "mirrors cur now (ListIngresses (tracing P wait) opts) (ListIngresses Q opts)"
  "mirrors cur now (GetNamespace (tracing P wait) n) (GetNamespace Q n)"
  "mirrors cur now (GetDeployment (tracing P wait) ns n) (GetDeployment Q ns n)"
  "mirrors cur now (GetIngress (tracing P wait) ns n) (GetIngress Q ns n)"
  "mirrors cur now (Patch (tracing P wait) ref p) (Patch Q ref p)"
  "mirrors cur now (PromQuery (tracing P wait) q) (PromQuery Q q)"
  "mirrors cur now (ExecStream (tracing P wait) e) (ExecStream Q e)"
  by (simp_all add: request_defs follows_request lists gets others)

lemma mirrors_clock:
  "mirrors cur now (gets (\<lambda>s. clock (tracing P wait) (world s))) (gets (\<lambda>s. clock Q (world s)))"
  "mirrors cur now (gets (\<lambda>s. clockRFC3339 (tracing P wait) (world s))) (gets (\<lambda>s. clockRFC3339 Q (world s)))"
  "mirrors cur now (gets (\<lambda>s. timeSince (clock (tracing P wait) (world s)) t0)) (gets (\<lambda>s. timeSince (clock Q (world s)) t0))"
  by (auto intro: mirrors_gets simp: reads)

lemmas mirrors_rules = mirrors_code mirrors_requests

lemma mirrors_KubernetesServiceIdler:
  "mirrors cur now (KubernetesServiceIdler (tracing P wait) h namespace fi fs) (KubernetesServiceIdler Q h namespace fi fs)"
  unfolding KubernetesServiceIdler_def idleEnvironment_def serviceRunningBuild_def checkDeployment_def environmentHits_def
    patchIngress_def patchOneIngress_def idleDeployments_def idleOneDeployment_def config_tracing
  by (intro mirrors_rules mirrors_clock)

lemma mirrors_ServiceIdler: "mirrors cur now (ServiceIdler (tracing P wait) h) (ServiceIdler Q h)"
  unfolding ServiceIdler_def serviceNamespace_def config_tracing
  by (intro mirrors_rules mirrors_KubernetesServiceIdler)

lemma mirrors_execPod:
  "mirrors cur now (execPod (tracing P wait) podName ns command stdin tty) (execPod Q podName ns command stdin tty)"
  unfolding execPod_gets Let_def by (intro mirrors_rules mirrors_gets) (simp add: reads)

lemma mirrors_CLIIdler: "mirrors cur now (CLIIdler (tracing P wait) h) (CLIIdler Q h)"
  unfolding CLIIdler_def cliNamespace_def kubernetesCLI_def cliRunningBuild_def cliDeployment_def cliPod_def
    cliScale_def config_tracing
  by (intro mirrors_rules mirrors_execPod)

lemma mirrors_wait:
  assumes "pollMirrors cur now P Q wait"
  shows "mirrors cur now (waitPoll (tracing P wait) (hasRunningPod (tracing P wait) ns n))
     (waitPoll Q (hasRunningPod Q ns n))"
proof -
  have "mirrors cur now (hasRunningPod (tracing P wait) ns n) (hasRunningPod Q ns n)"
    unfolding hasRunningPod_def by (intro mirrors_rules)
  then show ?thesis using assms by (simp add: pollMirrors_def)
qed

lemma mirrors_Unidle:
  assumes "pollMirrors cur now P Q wait"
  shows "mirrors cur now (Unidle (tracing P wait) namespace) (Unidle Q namespace)"
  unfolding Unidle_def unidleDeployment_def waitForPods_def removeCodeFromIngress_def restoreIngress_def
    config_tracing
  by (intro follows_deferred mirrors_rules mirrors_wait assms) simp_all

text \<open>\<open>Unidle\<close> lists the deployments at least.\<close>

lemma Unidle_follows:
  assumes "pollMirrors cur now P Q wait" and "newRequirementOk P ''idling.amazee.io/watch'' ''='' [''true'']"
  shows "follows True cur now (Unidle (tracing P wait) namespace) (Unidle Q namespace)"
proof -
  have list: "follows True cur now (ListDeployments (tracing P wait) opts) (ListDeployments Q opts)" for opts
    by (simp add: request_defs follows_request lists)
  have watch: "liftO (equalsTrue P ''idling.amazee.io/watch'')
     = ret [\<lparr>req_key = ''idling.amazee.io/watch'', req_op = ''='', req_values = [''true'']\<rparr>]"
    using assms(2) by (simp add: equalsTrue_def fun_eq_iff liftO_def ret_def)
  show ?thesis
    unfolding Unidle_def unidleDeployment_def waitForPods_def removeCodeFromIngress_def restoreIngress_def
      config_tracing watch andThen_ret
    by (intro follows_deferred follows_andThen [where b = True] list mirrors_rules mirrors_wait assms(1)) simp_all
qed

lemma mirrors_Reconcile:
  assumes "pollMirrors cur now P Q wait"
  shows "mirrors cur now (Reconcile (tracing P wait) h req) (Reconcile Q h req)"
  unfolding Reconcile_def
  by (intro mirrors_rules mirrors_KubernetesServiceIdler mirrors_Unidle assms)

lemma mirrors_route: "mirrors cur now (route (tracing P wait) u r) (route Q u r)"
  unfolding route_def faviconHandler_def errFilesPath_def ingressHandler_def serveUnnamed_def serveIngress_def serveAllowed_def verifyRequest_def checkForceScaled_def
    lookupIngress_def genericError_def servePage_def setMetrics_def debugHeaders_def requestHostname_def
    config_tracing tracing_config config
  by (intro mirrors_rules mirrors_clock mirrors_response mirrors_startUnidle)

lemma mirrors_goroutine:
  assumes "pollMirrors cur now P Q wait"
  shows "mirrors cur now (runGoroutine (tracing P wait) h u g) (runGoroutine Q h u g)"
proof (cases g)
  case (CronRun j)
  then show ?thesis by (cases j) (simp_all add: mirrors_CLIIdler mirrors_ServiceIdler)
qed (simp_all add: mirrors_Unidle [OF assms] mirrors_Reconcile [OF assms] mirrors_route mirrors_andThen mirrors_ret)

end

end
