(* ===== verification/Undisturbed.thy ===== *)
theory Undisturbed
  imports Resumed
begin

text \<open>
  The interleaved goroutines refine the sequential code: a goroutine whose requests find the
  worlds it left itself does what the code does on its own, so that every sequential run is a
  schedule, and running goroutines one after the other is one way to interleave them.
\<close>

section \<open>A platform resumes itself\<close>

lemma answersAs_refl: "answersAs (\<lambda>w. w) (\<lambda>w. w) f f"
  by (simp add: answersAs_def)

interpretation alone: resumed "\<lambda>w. w" "\<lambda>w. w" P P for P
  by unfold_locales (simp_all add: answersAs_refl)

abbreviation "pollAlone P wait \<equiv> pollMirrors (\<lambda>w. w) (\<lambda>w. w) P P wait"

lemma enter_lift: "enter ws s = lift (\<lambda>w. w) ws [] s"
  by (simp add: enter_def lift_def)

section \<open>A sequential run is a schedule\<close>

lemma alone_chained: "linked w L v \<Longrightarrow> chained w (map (Pair i) L) \<and> worldAfter w (map (Pair i) L) = v"
  by (induction w L v rule: linked.induct) simp_all

lemma alone_steps [simp]: "stepsOf i (map (Pair i) L) = L"
  by (simp add: stepsOf_def comp_def)


end
