(* ===== verification/Race.thy ===== *)
theory Race
  imports Wake Undisturbed
begin

text \<open>
  The idler and \<open>Unidle\<close> are not kept apart: the lock is only looked at by request handlers.  A
  schedule of a reconcile that forces an environment idle and of an \<open>Unidle\<close> of it, in which
  the whole of \<open>Unidle\<close> comes after the idler patched the ingresses and before it scales the
  deployments.
\<close>

section \<open>The two halves of a forced reconcile\<close>

definition forcedIdle :: "namespace \<Rightarrow> bool" where
  "forcedIdle namespace \<longleftrightarrow>
     hasLabel namespace ''idling.amazee.io/force-scaled'' \<or> hasLabel namespace ''idling.amazee.io/force-idled''"

definition marking :: "'w platform \<Rightarrow> idler \<Rightarrow> string \<Rightarrow> ('w st, (namespace \<times> deployment list) option) go" where
  "marking P h req =
     andThen (GetNamespace P req) (\<lambda>r.
       case r of
         Inl err \<Rightarrow> ret None
       | Inr namespace \<Rightarrow>
         andThen (let fs = hasLabel namespace ''idling.amazee.io/force-scaled''
                  in serviceDecision P h namespace (\<not> fs) fs) (\<lambda>d.
           case d of
             None \<Rightarrow> ret None
           | Some deployments \<Rightarrow>
             andThen (patchIngress P h namespace) (\<lambda>err.
               case err of Some e \<Rightarrow> ret None | None \<Rightarrow> ret (Some (namespace, deployments)))))"

definition scalingDown :: "'w platform \<Rightarrow> idler \<Rightarrow> namespace \<Rightarrow> deployment list \<Rightarrow> ('w st, gerror option) go" where
  "scalingDown P h namespace deployments =
     (let fs = hasLabel namespace ''idling.amazee.io/force-scaled''
      in andThen (idleDeployments P h deployments (\<not> fs) fs) (\<lambda>_.
         andThen (Patch P (NamespaceRef (ns_name namespace))
             (removeLabelPatch (if fs then ''idling.amazee.io/force-scaled'' else ''idling.amazee.io/force-idled''))) (\<lambda>e.
         ret None)))"

lemma Reconcile_halves:
  assumes "marking P h req s = (Ok (Some (namespace, ds)), t)" and "forcedIdle namespace"
  shows "Reconcile P h req s = scalingDown P h namespace ds t"
proof -
  let ?fs = "hasLabel namespace ''idling.amazee.io/force-scaled''"
  from assms(1) obtain s1 s2 where g: "GetNamespace P req s = (Ok (Inr namespace), s1)"
    and d: "serviceDecision P h namespace (\<not> ?fs) ?fs s1 = (Ok (Some ds), s2)"
    and i: "patchIngress P h namespace s2 = (Ok None, t)"
    by (auto simp: marking_def Let_def elim!: andThen_OkE split: sum.splits option.splits dest!: ret_OkD)
  have "KubernetesServiceIdler P h namespace (\<not> ?fs) ?fs s1 = idleDeployments P h ds (\<not> ?fs) ?fs t"
    using d i by (simp add: KubernetesServiceIdler_split serviceAction_def andThen_Ok)
  then have "andThen (KubernetesServiceIdler P h namespace (\<not> ?fs) ?fs) f s1
      = andThen (idleDeployments P h ds (\<not> ?fs) ?fs) f t" for f :: "unit \<Rightarrow> ('a st, gerror option) go"
    by (simp add: andThen_def)
  with assms(2) show ?thesis
    using g by (cases ?fs) (simp_all add: Reconcile_def scalingDown_def forcedIdle_def Let_def andThen_Ok)
qed

context resumed
begin

lemma mirrors_marking: "mirrors cur now (marking (tracing P wait) h req) (marking Q h req)"
  unfolding marking_def serviceDecision_def serviceRunningBuild_def checkDeployment_def environmentHits_def
    patchIngress_def patchOneIngress_def config_tracing
  by (intro mirrors_rules mirrors_clock)

lemma mirrors_scalingDown:
  "mirrors cur now (scalingDown (tracing P wait) h namespace ds) (scalingDown Q h namespace ds)"
  unfolding scalingDown_def idleDeployments_def idleOneDeployment_def
  by (intro mirrors_rules mirrors_clock)

end

section \<open>Going on after an interruption\<close>

text \<open>
  The platform of a goroutine that goes on in a world others have left: the clock is read in
  the world the goroutine last saw.  The code that goes on here does not poll.
\<close>

definition shifted :: "('w \<Rightarrow> 'r \<times> 'w) \<Rightarrow> 'w \<times> 'w \<Rightarrow> 'r \<times> 'w \<times> 'w" where
  "shifted f x = (case f (snd x) of (r, w) \<Rightarrow> (r, w, w))"

definition delayed :: "'w platform \<Rightarrow> ('w \<times> 'w) platform" where
  "delayed P =
     \<lparr>newRequirementOk = newRequirementOk P,
      listNamespaces = (\<lambda>opts. shifted (listNamespaces P opts)),
      listDeployments = (\<lambda>opts. shifted (listDeployments P opts)),
      listPods = (\<lambda>opts. shifted (listPods P opts)),
      listIngresses = (\<lambda>opts. shifted (listIngresses P opts)),
      getNamespace = (\<lambda>n. shifted (getNamespace P n)),
      getDeployment = (\<lambda>ns n. shifted (getDeployment P ns n)),
      getIngress = (\<lambda>ns n. shifted (getIngress P ns n)),
      sendPatch = (\<lambda>ref p. shifted (sendPatch P ref p)),
      promQuery = (\<lambda>q. shifted (promQuery P q)),
      restConfig = (\<lambda>x. restConfig P (fst x)),
      newClientset = (\<lambda>x. newClientset P (fst x)),
      addToScheme = (\<lambda>x. addToScheme P (fst x)),
      newExecutor = (\<lambda>r x. newExecutor P r (fst x)),
      execStream = (\<lambda>r. shifted (execStream P r)),
      clock = (\<lambda>x. clock P (fst x)),
      clockRFC3339 = (\<lambda>x. clockRFC3339 P (fst x)),
      getenv = getenv P, matchString = matchString P, urlHostname = urlHostname P,
      templateParses = templateParses P,
      pollUntil = (\<lambda>interval timeout immediate condition. ret None)\<rparr>"

lemma shifted_simps [simp]:
  "fst (shifted f x) = fst (f (snd x))" "snd (shifted f x) = (snd (f (snd x)), snd (f (snd x)))"
  by (simp_all add: shifted_def split: prod.split)

interpretation later: resumed snd fst P "delayed P" for P
  by unfold_locales (simp_all add: delayed_def answersAs_def)

lemma delayed_laws:
  "patchMerges P view \<Longrightarrow> patchMerges (delayed P) (\<lambda>x. view (snd x))"
  "answers P view \<Longrightarrow> answers (delayed P) (\<lambda>x. view (snd x))"
  by (simp_all add: patchMerges_def answers_def delayed_def)

definition meanwhile :: "'w \<Rightarrow> 'w st \<Rightarrow> ('w \<times> 'w) st" where
  "meanwhile w s = \<lparr>world = (world s, w), calls = calls s, metrics = metrics s, locks = locks s,
     spawned = spawned s, resp = resp s\<rparr>"

lemma world_meanwhile [simp]: "world (meanwhile w s) = (world s, w)"
  by (simp add: meanwhile_def)

lemma lift_meanwhile: "lift (\<lambda>w. w) ws log s = lift fst ws log (meanwhile w s)"
  by (simp add: lift_def meanwhile_def)

text \<open>A goroutine that starts later: \<open>Unidle\<close> asks for the deployments before it looks at anything.\<close>

lemma Unidle_arrives:
  assumes "newRequirementOk P ''idling.amazee.io/watch'' ''='' [''true'']"
  shows "Unidle (tracing P wait) namespace (lift (\<lambda>w. w) (w # ws) log s)
     = Unidle (tracing P wait) namespace (lift (\<lambda>w. w) (w # ws) log (s\<lparr>world := w\<rparr>))"
proof -
  have "equalsTrue (tracing P wait) ''idling.amazee.io/watch''
      = Ok [\<lparr>req_key = ''idling.amazee.io/watch'', req_op = ''='', req_values = [''true'']\<rparr>]"
    using assms by (simp add: equalsTrue_def)
  moreover have "ListDeployments (tracing P wait) opts (lift (\<lambda>w. w) (w # ws) log s)
      = ListDeployments (tracing P wait) opts (lift (\<lambda>w. w) (w # ws) log (s\<lparr>world := w\<rparr>))" for opts
    by (simp add: request_defs request_eval traced_apply arrive_def lift_def)
  ultimately show ?thesis
    by (simp add: Unidle_def deferred_apply liftO_def andThen_def)
qed

section \<open>An environment woken in between\<close>

lemma patchIngress_keeps:
  assumes "apiServer P view" and "\<And>ref p v. f (patchObject ref p v) = f v"
  shows "preserves (\<lambda>s. f (objectsOf view s)) (patchIngress P h namespace)"
proof -
  have api: "readsKeep P view" "patchMerges P view" using assms(1) by (simp_all add: apiServer_def)
  have "preserves (\<lambda>s. f (objectsOf view s)) (ListIngresses P opts)" for opts
    using keeps_objects_read(4) [OF api(1)] by (rule steps_mono) simp
  then show ?thesis
    unfolding patchIngress_def patchOneIngress_def
    by (intro pres.steps_rules keeps_Patch [OF api(2)] preserves_countMetric assms(2)) simp_all
qed

lemma needsScaling_afterIdle:
  "dep_replicas d = Some r \<Longrightarrow> needsScaling (afterIdle fi fs now d)"
  using afterIdle_facts [of d r] by (simp add: needsScaling_def)

text \<open>The state in which the idler goes on: the deployments are as they were, the marks are gone.\<close>

lemma woken_in_between:
  assumes "working P view h" and "answers P view" and "pollRunsCondition P" and "healthyIn view s"
    and "refExists (NamespaceRef (ns_name namespace)) (objectsOf view s)"
    and "distinct (map refOfDeployment (cl_deployments (objectsOf view s)))"
    and "distinct (map refOfIngress (cl_ingresses (objectsOf view s)))"
    and "selectorsOk P h" and "list_all (\<lambda>d. \<not> needsScaling d) (cl_deployments (objectsOf view s))"
  obtains t where "patchIngress P h namespace s = (Ok None, t)"
    and "\<And>t'. world t' = world t \<Longrightarrow> \<exists>u. Unidle P namespace t' = (Ok (), u)
       \<and> cl_deployments (objectsOf view u) = cl_deployments (objectsOf view s)
       \<and> (\<forall>i \<in> set (cl_ingresses (objectsOf view u)). ing_namespace i = ns_name namespace \<longrightarrow> unmarked i)"
proof -
  have api: "apiServer P view" using assms(1) by (simp add: working_def)
  let ?L = "cl_deployments (objectsOf view s)"
  obtain t where t: "patchIngress P h namespace s = (Ok None, t)"
    using patchIngress_accepted [OF api assms(2,8,5)] by blast
  have L: "cl_deployments (objectsOf view t) = ?L"
    using steps_run [OF patchIngress_keeps_deployments [OF api] t] .
  have rt: "refExists (NamespaceRef (ns_name namespace)) (objectsOf view t)"
    using steps_run [OF patchIngress_keeps [where f = "refExists (NamespaceRef (ns_name namespace))", OF api refExists_patch] t]
      assms(5) by simp
  have "map refOfIngress (cl_ingresses (objectsOf view t)) = map refOfIngress (cl_ingresses (objectsOf view s))"
    using steps_run [OF patchIngress_keeps [where f = "\<lambda>v. map refOfIngress (cl_ingresses v)", OF api patch_ingress_refs] t] .
  then have it: "distinct (map refOfIngress (cl_ingresses (objectsOf view t)))"
    using assms(7) by (simp only:)
  have ht: "healthyIn view t" using assms(4) L by (simp add: healthy_def)
  have dt: "distinct (map refOfDeployment (cl_deployments (objectsOf view t)))"
    using assms(6) by (simp only: L)
  have some: "\<forall>d \<in> set (cl_deployments (objectsOf view t)). dep_replicas d \<noteq> None"
    using ht by (auto simp: healthy_def sound_def list_all_iff)
  show thesis
  proof (rule that [OF t])
    fix t' :: "'a st"
    assume w: "world t' = world t"
    obtain u where u: "Unidle P namespace t' = (Ok (), u)"
      by (rule returnsE [OF returns_Unidle [OF assms(1)], of t']) (use ht w in auto)
    have "cl_deployments (objectsOf view u)
       = map (\<lambda>d. if dep_namespace d = ns_name namespace \<and> dep_labels d ''idling.amazee.io/watch'' = Some ''true''
                  then afterUnidle d else d) ?L"
      using unidle_objects [OF api assms(2,3) workingD(8) [OF assms(1)], of t' namespace] u L dt some by (simp add: w)
    also have "\<dots> = ?L"
      using assms(9) by (intro map_idI) (auto simp: list_all_iff afterUnidle_def)
    finally have "cl_deployments (objectsOf view u) = ?L" .
    moreover have "\<forall>i \<in> set (cl_ingresses (objectsOf view u)). ing_namespace i = ns_name namespace \<longrightarrow> unmarked i"
      using Unidle_ingresses_namespaces(1) [OF assms(1-3), of t' namespace] ht rt dt it u unmarked_afterUnidle
      by (auto simp: w)
    ultimately show "\<exists>u. Unidle P namespace t' = (Ok (), u)
       \<and> cl_deployments (objectsOf view u) = ?L
       \<and> (\<forall>i \<in> set (cl_ingresses (objectsOf view u)). ing_namespace i = ns_name namespace \<longrightarrow> unmarked i)"
      using u by blast
  qed
qed

section \<open>The schedule\<close>

lemma linked_chained: "linked w L v \<Longrightarrow> chained v ms \<Longrightarrow> chained w (map (Pair i) L @ ms)"
  by (induction w L v rule: linked.induct) simp_all

lemma linked_after: "linked w L v \<Longrightarrow> worldAfter w (map (Pair i) L @ ms) = worldAfter v ms"
  by (induction w L v rule: linked.induct) simp_all

lemma other_steps: "i \<noteq> j \<Longrightarrow> stepsOf i (map (Pair j) L) = []"
  by (simp add: stepsOf_def)

text \<open>One goroutine, then the whole of another, then the rest of the first.\<close>

lemma interrupted_schedule:
  assumes "linked (world s) La w1" and "linked w1 Lb w2" and "linked w2 Lc w3"
    and "traceOf (runGoroutine T h u g) (map fst (La @ Lc)) s = La @ Lc"
    and "traceOf (runGoroutine T h u g') (map fst Lb) s = Lb"
  shows "\<exists>ms. schedule T E h u s [g, g'] ms \<and> finished T h u s [g, g'] 0 ms
     \<and> finished T h u s [g, g'] (Suc 0) ms \<and> worldAfter (world s) ms = w3"
proof -
  let ?ms = "map (Pair 0) La @ map (Pair (Suc 0)) Lb @ map (Pair 0) Lc"
  have steps: "stepsOf 0 ?ms = La @ Lc" "stepsOf (Suc 0) ?ms = Lb"
    by (simp_all add: other_steps)
  have "chained w2 (map (Pair 0) Lc)" using alone_chained [OF assms(3)] by simp
  then have "chained (world s) ?ms"
    by (intro linked_chained [OF assms(1)] linked_chained [OF assms(2)])
  moreover have "worldAfter (world s) ?ms = w3"
    using alone_chained [OF assms(3)] by (simp add: linked_after [OF assms(1)] linked_after [OF assms(2)])
  moreover have "traceIn T h u s g 0 ?ms = La @ Lc" "traceIn T h u s g' (Suc 0) ?ms = Lb"
    using assms(4,5) by (simp_all only: traceIn_def steps)
  ultimately show ?thesis
    by (intro exI [of _ ?ms])
      (simp add: schedule_def finished_def list_all_iff steps upt_rec del: map_append stepsOf_simps, auto)
qed

text \<open>The first half, and what an \<open>Unidle\<close> does in the world it leaves.\<close>

lemma marked_then_woken:
  assumes "working P view h" and "answers P view" and "pollRunsCondition P" and "healthyIn view s"
    and "distinct (map refOfDeployment (cl_deployments (objectsOf view s)))"
    and "distinct (map refOfIngress (cl_ingresses (objectsOf view s)))"
    and "selectorsOk P h" and "list_all (\<lambda>d. \<not> needsScaling d) (cl_deployments (objectsOf view s))"
    and "GetNamespace P req s = (Ok (Inr namespace), s0)"
    and "fst (serviceRunningBuild P h (inNamespace (ns_name namespace) (Requirements (buildReqs h))) s0) = Ok False"
  obtains t where
    "marking P h req s = (Ok (Some (namespace, deploymentsMatching (ns_name namespace) (deploymentReqs h) (objectsOf view s))), t)"
    and "\<And>t'. world t' = world t \<Longrightarrow> \<exists>u. Unidle P namespace t' = (Ok (), u)
       \<and> cl_deployments (objectsOf view u) = cl_deployments (objectsOf view s)
       \<and> (\<forall>i \<in> set (cl_ingresses (objectsOf view u)). ing_namespace i = ns_name namespace \<longrightarrow> unmarked i)"
proof -
  have api: "apiServer P view" using assms(1) by (simp add: working_def)
  then have reads: "readsKeep P view" and lists: "listsMatch P view" by (simp_all add: apiServer_def)
  let ?ds = "deploymentsMatching (ns_name namespace) (deploymentReqs h) (objectsOf view s)"
  let ?fs = "hasLabel namespace ''idling.amazee.io/force-scaled''"
  have s0: "objectsOf view s0 = objectsOf view s"
    using steps_run [OF keeps_objects_read(5) [OF reads] assms(9)] .
  have "fst (getNamespace P req (world s)) = Inr namespace"
    using assms(9) by (auto simp: GetNamespace_def request_eval)
  then have exists: "refExists (NamespaceRef (ns_name namespace)) (objectsOf view s)"
    using lists unfolding listsMatch_def by (fastforce simp: list_ex_iff)
  have "\<forall>d \<in> set (cl_deployments (objectsOf view s0)). dep_replicas d \<noteq> None"
    using assms(4) by (auto simp: s0 healthy_def sound_def list_all_iff)
  from serviceDecision_forced [OF api assms(2,7) _ assms(10) this, of "\<not> ?fs" ?fs] obtain s1 where
    D: "serviceDecision P h namespace (\<not> ?fs) ?fs s0 = (Ok (Some ?ds), s1)" and s1: "objectsOf view s1 = objectsOf view s"
    by (auto simp: s0)
  obtain t where t: "patchIngress P h namespace s1 = (Ok None, t)"
    and woken: "\<And>t'. world t' = world t \<Longrightarrow> \<exists>u. Unidle P namespace t' = (Ok (), u)
       \<and> cl_deployments (objectsOf view u) = cl_deployments (objectsOf view s1)
       \<and> (\<forall>i \<in> set (cl_ingresses (objectsOf view u)). ing_namespace i = ns_name namespace \<longrightarrow> unmarked i)"
    by (rule woken_in_between [OF assms(1-3) _ _ _ _ assms(7), of s1 namespace]) (use assms(4-6,8) exists in \<open>simp_all add: s1\<close>)
  have "marking P h req s = (Ok (Some (namespace, ?ds)), t)"
    using assms(9) D t by (simp add: marking_def Let_def andThen_Ok ret_def)
  then show thesis by (rule that) (use woken in \<open>simp add: s1\<close>)
qed

text \<open>
  A stranded environment: the deployments are idled without replicas, and no ingress carries
  the code or the middleware any more.
\<close>

definition stranded :: "string \<Rightarrow> deployment list \<Rightarrow> objects \<Rightarrow> bool" where
  "stranded ns ds v \<longleftrightarrow>
     (\<forall>d \<in> set ds. \<exists>d' \<in> set (cl_deployments v). refOfDeployment d' = refOfDeployment d \<and> needsScaling d')
     \<and> (\<forall>i \<in> set (cl_ingresses v). ing_namespace i = ns \<longrightarrow> unmarked i)"

text \<open>The second half, in a world that an \<open>Unidle\<close> has left.\<close>

lemma scaled_down_later:
  assumes "patchMerges P view" and "answers P view" and "\<not> DryRun h"
    and "distinct (map refOfDeployment (cl_deployments (view w)))"
    and "\<forall>d \<in> set (cl_deployments (view w)). dep_replicas d \<noteq> None"
    and "set ds \<subseteq> set (cl_deployments (view w))" and "distinct ds"
    and "\<forall>i \<in> set (cl_ingresses (view w)). ing_namespace i = ns_name namespace \<longrightarrow> unmarked i"
  obtains z where "scalingDown (delayed P) h namespace ds (meanwhile w t) = (Ok None, z)"
    and "stranded (ns_name namespace) ds (view (snd (world z)))"
proof -
  let ?v = "\<lambda>x. view (snd x)" and ?L = "cl_deployments (view w)"
  let ?fs = "hasLabel namespace ''idling.amazee.io/force-scaled''"
  note laws = delayed_laws(1) [OF assms(1)] delayed_laws(2) [OF assms(2)]
  have here: "cl_deployments (objectsOf ?v (meanwhile w t)) = map (\<lambda>d. d) ?L" by simp
  have some: "\<forall>d \<in> set ds. d = d \<and> dep_replicas d \<noteq> None" using assms(5,6) by blast
  from idle_loop_objects [where F = "\<lambda>d. d", OF laws assms(3,4,6,7) some here refl, of "\<not> ?fs" ?fs] obtain F y where run: "idleDeployments (delayed P) h ds (\<not> ?fs) ?fs (meanwhile w t) = (Ok (), y)"
    and L: "cl_deployments (objectsOf ?v y) = map F ?L"
    and F: "\<forall>d \<in> set ?L. if d \<in> set ds then \<exists>now. F d = afterIdle (\<not> ?fs) ?fs now d else F d = d"
    by blast
  let ?p = "removeLabelPatch (if ?fs then ''idling.amazee.io/force-scaled'' else ''idling.amazee.io/force-idled'')"
  obtain e z where last: "Patch (delayed P) (NamespaceRef (ns_name namespace)) ?p y = (Ok e, z)"
    by (simp add: Patch_def request_eval)
  have "cl_deployments (objectsOf ?v z) = cl_deployments (objectsOf ?v y)"
    by (rule steps_run [OF keeps_Patch [OF laws(1), where f = cl_deployments] last]) simp
  moreover have "cl_ingresses (objectsOf ?v z) = cl_ingresses (objectsOf ?v y)"
    by (rule steps_run [OF keeps_Patch [OF laws(1), where f = cl_ingresses] last]) simp
  moreover have "cl_ingresses (objectsOf ?v y) = cl_ingresses (view w)"
    using steps_run [OF idleDeployments_keeps_ingresses [OF laws(1)] run] by simp
  ultimately have z: "cl_deployments (objectsOf ?v z) = map F ?L" "cl_ingresses (objectsOf ?v z) = cl_ingresses (view w)"
    by (simp_all add: L)
  have "refOfDeployment (F d) = refOfDeployment d \<and> needsScaling (F d)" if d: "d \<in> set ds" for d
  proof -
    have "d \<in> set ?L" using assms(6) d by blast
    then obtain now r where "F d = afterIdle (\<not> ?fs) ?fs now d" and "dep_replicas d = Some r"
      using bspec [OF F, of d] d assms(5) by auto
    then show ?thesis using needsScaling_afterIdle by simp
  qed
  then have "stranded (ns_name namespace) ds (objectsOf ?v z)"
    unfolding stranded_def z using assms(6,8) by (metis (mono_tags, lifting) image_eqI list.set_map subset_iff)
  moreover have "scalingDown (delayed P) h namespace ds (meanwhile w t) = (Ok None, z)"
    using run last by (simp add: scalingDown_def Let_def andThen_Ok ret_def)
  ultimately show thesis by (intro that) simp_all
qed

text \<open>The traces of the two goroutines: one is interrupted, the other starts later.\<close>

lemma resumed_reconcile:
  assumes "marking P h req s = (Ok (Some (namespace, ds)), t)" and "forcedIdle namespace"
    and "scalingDown (delayed P) h namespace ds (meanwhile w t) = (Ok None, z)"
  obtains La Lc where "linked (world s) La (world t)" and "linked w Lc (snd (world z))"
    and "traceOf (runGoroutine (tracing P wait) h u (ReconcileRun req)) (map fst (La @ Lc)) s = La @ Lc"
proof -
  let ?T = "tracing P wait"
  obtain La where La: "linked (world s) La (world t)"
    and a: "\<And>ws log. marking ?T h req (lift (\<lambda>w. w) (map fst La @ ws) log s)
        = (Ok (Some (namespace, ds)), lift (\<lambda>w. w) ws (log @ La) t)"
    using alone.mirrors_marking [where wait = wait and P = P and h = h and req = req] assms(1) by (rule followsE) blast
  obtain Lc where Lc: "linked w Lc (snd (world z))"
    and c: "\<And>ws log. scalingDown ?T h namespace ds (lift fst (map fst Lc @ ws) log (meanwhile w t))
        = (Ok None, lift fst ws (log @ Lc) z)"
    using later.mirrors_scalingDown [where wait = wait and P = P] assms(3) by (rule followsE) simp
  have "marking ?T h req (enter (map fst (La @ Lc)) s)
      = (Ok (Some (namespace, ds)), lift (\<lambda>w. w) (map fst Lc) La t)"
    using a [of "map fst Lc" "[]"] by (simp add: enter_lift)
  from Reconcile_halves [OF this assms(2)]
  have "Reconcile ?T h req (enter (map fst (La @ Lc)) s) = (Ok None, lift fst [] (La @ Lc) z)"
    using c [of "[]" La] by (simp flip: lift_meanwhile)
  then have "traceOf (runGoroutine ?T h u (ReconcileRun req)) (map fst (La @ Lc)) s = La @ Lc"
    by (simp add: traceOf_def andThen_Ok ret_def)
  with La Lc show thesis by (rule that)
qed

lemma later_unidle:
  assumes "pollAlone P wait" and "newRequirementOk P ''idling.amazee.io/watch'' ''='' [''true'']"
    and "Unidle P namespace (s\<lparr>world := w\<rparr>) = (Ok (), v)"
  obtains Lb where "linked w Lb (world v)" and "traceOf (Unidle (tracing P wait) namespace) (map fst Lb) s = Lb"
proof -
  obtain Lb where ne: "Lb \<noteq> []" and Lb: "linked w Lb (world v)"
    and b: "\<And>ws log. Unidle (tracing P wait) namespace (lift (\<lambda>w. w) (map fst Lb @ ws) log (s\<lparr>world := w\<rparr>))
        = (Ok (), lift (\<lambda>w. w) ws (log @ Lb) v)"
    using alone.Unidle_follows [OF assms(1,2), of namespace] assms(3) by (rule followsE) simp
  obtain y Lb' where "Lb = (w, y) # Lb'" using ne Lb by (cases Lb) auto
  then have "Unidle (tracing P wait) namespace (enter (map fst Lb) s) = (Ok (), lift (\<lambda>w. w) [] Lb v)"
    using b [of "[]" "[]"] Unidle_arrives [OF assms(2), of wait namespace w "map fst Lb'" "[]" s]
    by (simp add: enter_lift)
  then show thesis using Lb by (intro that [of Lb]) (simp_all add: traceOf_def)
qed

text \<open>
  C31. Nothing keeps a forced reconcile and an \<open>Unidle\<close> of the same environment apart, and there
  is an interleaving of their requests after which the environment is stranded: both have
  done all they do, every selected deployment is idled without replicas, but no ingress of
  the namespace carries the code or the middleware any more, so that no failing request will
  reach the unidler to wake it.
\<close>

theorem interrupted_idling_strands:
  assumes "working P view h" and "answers P view" and "pollRunsCondition P" and "pollAlone P wait"
    and "selectorsOk P h" and "\<not> DryRun h" and "healthyIn view s"
    and "distinct (map refOfDeployment (cl_deployments (objectsOf view s)))"
    and "distinct (map refOfIngress (cl_ingresses (objectsOf view s)))"
    and "list_all (\<lambda>d. \<not> needsScaling d) (cl_deployments (objectsOf view s))"
    and "GetNamespace P req s = (Ok (Inr namespace), s0)" and "forcedIdle namespace"
    and "fst (serviceRunningBuild P h (inNamespace (ns_name namespace) (Requirements (buildReqs h))) s0) = Ok False"
    and "gs = [ReconcileRun req, UnidleRun namespace]"
  shows "\<exists>ms. schedule (tracing P wait) E h u s gs ms
     \<and> finished (tracing P wait) h u s gs 0 ms \<and> finished (tracing P wait) h u s gs 1 ms
     \<and> stranded (ns_name namespace) (deploymentsMatching (ns_name namespace) (deploymentReqs h) (objectsOf view s))
         (view (worldAfter (world s) ms))"
proof -
  let ?T = "tracing P wait" and ?L = "cl_deployments (objectsOf view s)"
  let ?ds = "deploymentsMatching (ns_name namespace) (deploymentReqs h) (objectsOf view s)"
  note w = workingD [OF assms(1)]
  obtain t where mark: "marking P h req s = (Ok (Some (namespace, ?ds)), t)"
    and woken: "\<And>t'. world t' = world t \<Longrightarrow> \<exists>u. Unidle P namespace t' = (Ok (), u)
       \<and> cl_deployments (objectsOf view u) = ?L
       \<and> (\<forall>i \<in> set (cl_ingresses (objectsOf view u)). ing_namespace i = ns_name namespace \<longrightarrow> unmarked i)"
    by (rule marked_then_woken [OF assms(1-3,7-9,5,10,11,13)]) (erule that, blast)
  let ?t = "s\<lparr>world := world t\<rparr>"
  obtain v where U: "Unidle P namespace ?t = (Ok (), v)" and L: "cl_deployments (objectsOf view v) = ?L"
    and free: "\<forall>i \<in> set (cl_ingresses (objectsOf view v)). ing_namespace i = ns_name namespace \<longrightarrow> unmarked i"
    using woken [of ?t] by auto
  obtain z where S: "scalingDown (delayed P) h namespace ?ds (meanwhile (world v) t) = (Ok None, z)"
    and stranded: "stranded (ns_name namespace) ?ds (view (snd (world z)))"
  proof (rule scaled_down_later [where ds = ?ds, OF w(2) assms(2,6) _ _ _ _ free])
    show "distinct (map refOfDeployment (cl_deployments (objectsOf view v)))"
      "set ?ds \<subseteq> set (cl_deployments (objectsOf view v))" "distinct ?ds"
      using assms(8) by (auto simp: L deploymentsMatching_def distinct_map)
    show "\<forall>d \<in> set (cl_deployments (objectsOf view v)). dep_replicas d \<noteq> None"
      using assms(7) by (auto simp: L healthy_def sound_def list_all_iff)
  qed
  obtain La Lc where La: "linked (world s) La (world t)" and Lc: "linked (world v) Lc (snd (world z))"
    and ta: "traceOf (runGoroutine ?T h u (ReconcileRun req)) (map fst (La @ Lc)) s = La @ Lc"
    by (rule resumed_reconcile [where wait = wait and u = u, OF mark assms(12) S])
  obtain Lb where Lb: "linked (world t) Lb (world v)"
    and "traceOf (Unidle ?T namespace) (map fst Lb) s = Lb"
    by (rule later_unidle [OF assms(4) w(8) U])
  then have "traceOf (runGoroutine ?T h u (UnidleRun namespace)) (map fst Lb) s = Lb" by simp
  from interrupted_schedule [OF La Lb Lc ta this] obtain ms where "schedule ?T E h u s gs ms"
    and "finished ?T h u s gs 0 ms" and "finished ?T h u s gs (Suc 0) ms"
    and "worldAfter (world s) ms = snd (world z)"
    unfolding assms(14) by blast
  with stranded show ?thesis by (intro exI [of _ ms]) simp
qed

end
