(* ===== verification/Visit.thy ===== *)
theory Visit
  imports Wake HandlerProps Alters
begin

text \<open>
  A visit to an idled environment, from the request to the cluster: the handler starts one
  \<open>Unidle\<close>, and when that has run the environment is awake.
\<close>

section \<open>What the handler reads\<close>

abbreviation forceScaledReq :: requirement where
  "forceScaledReq \<equiv> \<lparr>req_key = ''idling.amazee.io/force-scaled'', req_op = ''='', req_values = [''true'']\<rparr>"

lemma checkForceScaled_False:
  assumes "apiServer P view" and "answers P view"
    and "newRequirementOk P ''idling.amazee.io/force-scaled'' ''='' [''true'']"
    and "deploymentsMatching ns [forceScaledReq] (objectsOf view s) = []"
  shows "fst (checkForceScaled P ns s) = Ok False"
proof -
  obtain t where "ListDeployments P (inNamespace ns (Requirements [forceScaledReq])) s = (Ok (Inr []), t)"
    using ListDeployments_matching [OF assms(1,2), of ns "[forceScaledReq]" s] assms(4) by auto
  then show ?thesis
    using assms(3) by (simp add: checkForceScaled_def equalsTrue_def andThen_Ok ret_def)
qed

lemma GetNamespace_unique:
  assumes "apiServer P view" and "answers P view"
    and "filter (\<lambda>n. ns_name n = ns) (cl_namespaces (objectsOf view s)) = [namespace]"
  shows "\<exists>t. GetNamespace P ns s = (Ok (Inr namespace), t) \<and> objectsOf view t = objectsOf view s
     \<and> locks t = locks s \<and> spawned t = spawned s"
proof -
  have mem: "x = namespace" if "x \<in> set (cl_namespaces (objectsOf view s))" "ns_name x = ns" for x
  proof -
    have "x \<in> set (filter (\<lambda>n. ns_name n = ns) (cl_namespaces (objectsOf view s)))" using that by simp
    then show ?thesis by (simp only: assms(3)) simp
  qed
  have "namespace \<in> set (filter (\<lambda>n. ns_name n = ns) (cl_namespaces (objectsOf view s)))"
    by (simp add: assms(3))
  then have "refExists (NamespaceRef ns) (objectsOf view s)" by (auto simp: list_ex_iff)
  then obtain x where x: "fst (getNamespace P ns (world s)) = Inr x"
    using assms(2) unfolding answers_def by blast
  then have "ns_name x = ns \<and> x \<in> set (cl_namespaces (objectsOf view s))"
    using assms(1) unfolding apiServer_def listsMatch_def by blast
  then have "x = namespace" using mem by blast
  moreover have "readsKeep P view" using assms(1) by (simp add: apiServer_def)
  ultimately show ?thesis using x by (simp add: GetNamespace_def request_eval readsKeep_def)
qed

lemma lookupIngress_named:
  assumes "apiServer P view" and "getsMatch P view" and "answers P view"
    and "headerGet r IngressName = ing_name i" and "ing_name i \<noteq> ''''"
    and "i \<in> set (cl_ingresses (objectsOf view s))"
    and "distinct (map refOfIngress (cl_ingresses (objectsOf view s)))"
  shows "\<exists>t. lookupIngress P r (ing_namespace i) hostname s = (Ok (FoundIngress i), t)
     \<and> objectsOf view t = objectsOf view s \<and> locks t = locks s \<and> spawned t = spawned s"
proof -
  have "refExists (refOfIngress i) (objectsOf view s)"
    using assms(6) by (auto simp: list_ex_iff)
  then obtain x where x: "fst (getIngress P (ing_namespace i) (ing_name i) (world s)) = Inr x"
    using assms(3) unfolding answers_def by blast
  then have "refOfIngress x = refOfIngress i \<and> x \<in> set (cl_ingresses (objectsOf view s))"
    using assms(2) unfolding getsMatch_def by auto
  then have "x = i" using assms(6,7) by (auto simp: distinct_map dest: inj_onD)
  moreover have "readsKeep P view" using assms(1) by (simp add: apiServer_def)
  ultimately show ?thesis
    using x assms(4,5) by (simp add: lookupIngress_def Let_def GetIngress_def andThen_def request_eval
        readsKeep_def ret_def)
qed

section \<open>The request\<close>

text \<open>Up to the point where namespace and ingress are known, nothing is locked or started.\<close>

lemma handler_reaches_ingress:
  assumes "apiServer P view" and "getsMatch P view" and "answers P view"
    and "resp s = newResponse" and "100 \<le> responseCode u r" and "responseCode u r \<le> 999"
    and "requestHostname P r = Ok hostname" and "requestNamespace r = ing_namespace i" and "ing_namespace i \<noteq> ''''"
    and "filter (\<lambda>n. ns_name n = ing_namespace i) (cl_namespaces (objectsOf view s)) = [namespace]"
    and "headerGet r IngressName = ing_name i" and "ing_name i \<noteq> ''''"
    and "i \<in> set (cl_ingresses (objectsOf view s))"
    and "distinct (map refOfIngress (cl_ingresses (objectsOf view s)))"
  shows "\<exists>t began. ingressHandler P u path r s
       = andThen (serveIngress P u path r (requestFormat r) (ing_namespace i) namespace i (responseCode u r))
           (\<lambda>_. setMetrics P r began) t
     \<and> objectsOf view t = objectsOf view s \<and> locks t = locks s \<and> spawned t = spawned s"
proof -
  obtain hdr0 where d: "debugHeaders P r s = (Ok (), s\<lparr>resp := (resp s)\<lparr>r_header := hdr0\<rparr>\<rparr>)"
    using debugHeaders_eval [of P r s] by blast
  let ?hdr = "hdr0(''Content-Type'' \<mapsto> requestFormat r, ''X-Aergia'' \<mapsto> ''true'',
                   ''Cache-Control'' \<mapsto> ''private,no-store'')"
  let ?s1 = "s\<lparr>resp := writeStatus (responseCode u r) (newResponse\<lparr>r_header := ?hdr\<rparr>)\<rparr>"
  have fresh: "r_status newResponse = None" by (simp add: newResponse_def)
  have s1: "objectsOf view ?s1 = objectsOf view s" by simp
  obtain s2 where g: "GetNamespace P (ing_namespace i) ?s1 = (Ok (Inr namespace), s2)"
    and s2: "objectsOf view s2 = objectsOf view s" "locks s2 = locks s" "spawned s2 = spawned s"
    using GetNamespace_unique [OF assms(1,3), of "ing_namespace i" ?s1 namespace] assms(10) by auto
  obtain t where l: "lookupIngress P r (ing_namespace i) hostname s2 = (Ok (FoundIngress i), t)"
    and t: "objectsOf view t = objectsOf view s" "locks t = locks s" "spawned t = spawned s"
    using lookupIngress_named [OF assms(1-3,11,12), of s2 hostname] assms(13,14) s2 by auto
  have "ingressHandler P u path r s
       = andThen (serveIngress P u path r (requestFormat r) (ing_namespace i) namespace i (responseCode u r))
           (\<lambda>_. setMetrics P r (clock P (world s))) t"
    using assms(4-9) by (simp add: ingressHandler_def serveUnnamed_def andThen_Ok d Let_def setHeader_def keys WriteHeader_def
        fresh g l)
  with t show ?thesis by blast
qed

lemma setMetrics_after:
  "spawned (snd (andThen m (\<lambda>_. setMetrics P r began) s)) = spawned (snd (m s))"
  "locks (snd (andThen m (\<lambda>_. setMetrics P r began) s)) = locks (snd (m s))"
proof -
  have "preserves spawned (setMetrics P r began)" "preserves locks (setMetrics P r began)"
    by (rule preserves_setMetrics, simp)+
  then show "spawned (snd (andThen m (\<lambda>_. setMetrics P r began) s)) = spawned (snd (m s))"
    "locks (snd (andThen m (\<lambda>_. setMetrics P r began) s)) = locks (snd (m s))"
    by (auto simp: andThen_def dest: stepsD split: prod.split outcome.split)
qed


end
