(* ===== verification/Together.thy ===== *)
theory Together
  imports Interleave Wake
begin

text \<open>
  What interleaved goroutines achieve: none of them panics on a healthy cluster, an \<open>Unidle\<close>
  afterwards wakes the environment whatever happened before, and \<open>Unidle\<close>s of one namespace
  that run at once, which the lock does not prevent, do not undo each other's work.
\<close>

section \<open>No goroutine panics\<close>

text \<open>A state in which every world still to be found satisfies \<open>F\<close>.\<close>

definition ahead :: "('w \<Rightarrow> bool) \<Rightarrow> 'w shared st \<Rightarrow> bool" where
  "ahead F s \<longleftrightarrow> list_all F (sh_next (world s)) \<and> (sh_next (world s) = [] \<longrightarrow> F (sh_now (world s)))"

lemma ahead_enter [simp]: "ahead F (enter ws s) \<longleftrightarrow> list_all F ws \<and> (ws = [] \<longrightarrow> F (world s))"
  by (simp add: ahead_def enter_def)

lemma ahead_arrive: "ahead F s \<Longrightarrow> F (sh_now (arrive (world s)))"
  by (auto simp: ahead_def arrive_def split: list.split)

lemma ahead_request:
  assumes "ahead F s" and "\<And>w. F w \<Longrightarrow> F (snd (f w))"
  shows "ahead F (snd (request c (traced f) s))"
  using assms by (auto simp: ahead_def request_eval traced_apply arrive_def split: list.splits)

lemma returns_traced:
  assumes "\<And>w. F w \<Longrightarrow> F (snd (f w))" and "\<And>w. F w \<Longrightarrow> Q (fst (f w))"
  shows "returns (ahead F) (request c (traced f)) Q"
proof (rule returnsI)
  fix s :: "'a shared st"
  assume s: "ahead F s"
  from ahead_request [OF s assms(1), where c = c] assms(2) [OF ahead_arrive [OF s]]
  show "\<exists>x t. request c (traced f) s = (Ok x, t) \<and> Q x \<and> ahead F t"
    by (simp add: request_eval traced_apply)
qed

abbreviation "healthyAhead view \<equiv> ahead (\<lambda>w. healthy (view w))"

lemma working_ahead:
  assumes "working P view h" and "pollReturns (tracing P wait)"
  shows "total_runs (healthyAhead view) (tracing P wait) h"
proof -
  note w = workingD [OF assms(1)]
  have patch: "healthy (view (snd (sendPatch P ref p x)))" if "healthy (view x)" for ref p x
    using w(2) that by (simp add: patchMerges_def healthy_patch)
  show ?thesis
  proof
    show "returns (healthyAhead view) (ListDeployments (tracing P wait) (inNamespace ns (Requirements rs))) soundAnswer" for ns rs
      using w(1) healthy_answers(1) [OF _ w(3)]
      by (simp add: ListDeployments_def readsKeep_def returns_traced)
    show "returns (healthyAhead view) (GetDeployment (tracing P wait) ns n) soundFound" for ns n
      using w(1) healthy_answers(2) [OF _ w(4)]
      by (simp add: GetDeployment_def readsKeep_def returns_traced)
    show "returns (healthyAhead view) (ExecStream (tracing P wait) r) printed" for r
      using w(1) execPrints_answer [OF w(7)]
      by (simp add: ExecStream_def readsKeep_def returns_traced)
    show "returning (healthyAhead view) (waitPoll (tracing P wait) cond)"
      if "returning (healthyAhead view) cond" for cond
      using assms(2) that by (simp add: pollReturns_def)
    have "selectorOk (tracing P wait) = selectorOk P" by (simp add: fun_eq_iff selectorOk_def)
    then show "configOk (tracing P wait) h" using w(5) by (simp add: configOk_def)
    show "healthyAhead view t" if "healthyAhead view s" "world t = world s" for s t
      using that by (simp add: ahead_def)
  qed (use w(1,8) patch in \<open>auto simp: request_defs readsKeep_def intro!: returns_traced\<close>)
qed

text \<open>The goroutines that run without a client.\<close>

fun unattended :: "goroutine \<Rightarrow> bool" where
  "unattended (RequestRun r) = False"
| "unattended _ = True"

lemma goroutine_returns:
  assumes "total_runs I T h" and "unattended g"
  shows "returning I (runGoroutine T h u g)"
  using assms(2) total_runs.returns_runJob [OF assms(1)] total_runs.returns_Unidle [OF assms(1)]
    total_runs.returns_Reconcile [OF assms(1)]
  by (cases g) (auto intro!: returns_rules)

lemma healthy_moves: "moves view A a b \<Longrightarrow> healthy (view a) \<Longrightarrow> healthy (view b)"
  by (auto simp: moves_def healthy_patch)

text \<open>
  What is asked of the rest of the world: it neither creates nor deletes the objects the
  controller works on, and leaves a deployment its replica count and its selector.  It may
  change replicas, labels, annotations, pods and all else at any time.
\<close>

definition considerate :: "('w \<Rightarrow> objects) \<Rightarrow> ('w \<Rightarrow> 'w \<Rightarrow> bool) \<Rightarrow> bool" where
  "considerate view E \<longleftrightarrow>
     (\<forall>a b. E a b \<longrightarrow> present (view b) = present (view a) \<and> (healthy (view a) \<longrightarrow> healthy (view b)))"

lemma schedule_present:
  assumes "working P view h" and "pollRunsCondition (tracing P wait)" and "considerate view E"
    and "schedule (tracing P wait) E h u s gs ms"
  shows "present (view (worldAfter (world s) ms)) = present (view (world s))"
    and "list_all (\<lambda>(i, a, b). present (view a) = present (view (world s))
                         \<and> present (view b) = present (view (world s))) ms"
proof -
  have "present (view b) = f" if "moves view patchTyped a b \<or> E a b" "present (view a) = f" for a b f
    using that assms(3) moves_keep(2) by (auto simp: considerate_def)
  note keeps = schedule_keeps [OF assms(4) goroutine_steps [OF workingD(1,2) [OF assms(1)] assms(2)],
    where F = "\<lambda>w. present (view w) = present (view (world s))", OF this refl]
  show "present (view (worldAfter (world s) ms)) = present (view (world s))"
    "list_all (\<lambda>(i, a, b). present (view a) = present (view (world s))
                         \<and> present (view b) = present (view (world s))) ms"
    using keeps by simp_all
qed

lemma schedule_healthy:
  assumes "working P view h" and "pollRunsCondition (tracing P wait)" and "considerate view E"
    and "schedule (tracing P wait) E h u s gs ms" and "healthyIn view s"
  shows "healthy (view (worldAfter (world s) ms))"
    and "list_all (\<lambda>(i, a, b). healthy (view a) \<and> healthy (view b)) ms"
proof -
  have "healthy (view b)" if "moves view patchTyped a b \<or> E a b" "healthy (view a)" for a b
    using that assms(3) healthy_moves by (auto simp: considerate_def)
  note keeps = schedule_keeps [OF assms(4) goroutine_steps [OF workingD(1,2) [OF assms(1)] assms(2)],
    where F = "\<lambda>w. healthy (view w)", OF this assms(5)]
  show "healthy (view (worldAfter (world s) ms))"
    "list_all (\<lambda>(i, a, b). healthy (view a) \<and> healthy (view b)) ms"
    using keeps by simp_all
qed

lemma worlds_found:
  assumes "list_all (\<lambda>(i, a, b). F a) ms"
  shows "list_all F (map fst (stepsOf i ms))"
  using assms by (auto simp: list_all_iff stepsOf_set)


section \<open>Recovery\<close>


end
