(* ===== verification/Crowd.thy ===== *)
theory Crowd
  imports Together
begin

text \<open>
  \<open>Unidle\<close>s that run at once.  The lock of the unidler does not keep them apart; what makes that
  harmless is that their patches only ever move an object towards being awake, also when they
  are computed from what another one has changed meanwhile, and that each \<open>Unidle\<close> sees to
  every object that is not awake yet.
\<close>

section \<open>Patches that wake\<close>

inductive wakePatch :: "objref \<Rightarrow> json \<Rightarrow> bool" where
  "wakePatch (refOfDeployment d) (unidlePatch (unidleReplicas d))"
| "restorePatch i = Some p \<Longrightarrow> wakePatch (refOfIngress i) p"
| "wakePatch (NamespaceRef n) unidledLabelPatch"

interpretation wake: wake_kinds wakePatch
  by unfold_locales (auto intro: wakePatch.intros)

lemma wakePatch_typed: "wakePatch ref p \<Longrightarrow> patchTyped ref p"
  by (induction rule: wakePatch.induct) (rule typed.wake_deployment typed.wake_ingress typed.wake_namespace, assumption?)+

text \<open>Goals, object by object: what an \<open>Unidle\<close> of the namespace establishes.\<close>

definition deploymentUp :: "string \<Rightarrow> string \<Rightarrow> objects \<Rightarrow> bool" where
  "deploymentUp ns n v \<longleftrightarrow>
     (\<forall>d \<in> set (cl_deployments v). refOfDeployment d = DeploymentRef ns n
        \<longrightarrow> dep_labels d ''idling.amazee.io/watch'' = Some ''true'' \<longrightarrow> \<not> needsScaling d)"

definition partFree :: "string \<Rightarrow> string \<Rightarrow> string \<Rightarrow> string \<Rightarrow> objects \<Rightarrow> bool" where
  "partFree key code ns n v \<longleftrightarrow>
     (\<forall>i \<in> set (cl_ingresses v). refOfIngress i = IngressRef ns n
        \<longrightarrow> code \<notin> set (codesOf (annotationValue (ing_annotations i) key)))"

definition labelledAwake :: "string \<Rightarrow> objects \<Rightarrow> bool" where
  "labelledAwake ns v \<longleftrightarrow>
     (\<forall>x \<in> set (cl_namespaces v). ns_name x = ns \<longrightarrow> ns_labels x ''idling.amazee.io/idled'' = Some ''false'')"

abbreviation "nginxFree \<equiv> partFree ''nginx.ingress.kubernetes.io/custom-http-errors'' ''503''"

abbreviation "traefikFree ns \<equiv>
  partFree ''traefik.ingress.kubernetes.io/router.middlewares'' (traefikMiddleware ns) ns"

lemma awake_goals:
  "awake ns v \<longleftrightarrow> (\<forall>n. deploymentUp ns n v) \<and> (\<forall>n. nginxFree ns n v) \<and> (\<forall>n. traefikFree ns n v)
     \<and> labelledAwake ns v"
  by (auto simp: awake_def deploymentUp_def partFree_def labelledAwake_def unmarked_def)

section \<open>No waking patch undoes another\<close>

lemma scaled_up: "\<not> needsScaling (mergeDeployment (unidlePatch r) d)"
  by (simp add: needsScaling_def mergeDeployment_def mergeMeta_def unidlePatch_def)

text \<open>An annotation after a restoring patch: as it was, or the restored value of the patch.\<close>

lemma restored_value:
  assumes "restorePatch j = Some p"
    and "(key, code) \<in> {(''nginx.ingress.kubernetes.io/custom-http-errors'', ''503''),
           (''traefik.ingress.kubernetes.io/router.middlewares'', traefikMiddleware (ing_namespace j))}"
  shows "ing_annotations (mergeIngress p i) key
     = (if Option.bind (ing_annotations j key) (\<lambda>v. removeStatusCode v code) = ing_annotations j key
           \<and> ing_annotations j key \<noteq> None
        then ing_annotations i key else Option.bind (ing_annotations j key) (\<lambda>v. removeStatusCode v code))"
  using assms
  by (auto simp: restorePatch_def Let_def mergeIngress_def mergeMeta_def split: option.splits)

text \<open>After it the part is free: at once if the patch carries it, else if it was free before.\<close>

lemma part_after:
  assumes "restorePatch j = Some p"
    and "(key, code) \<in> {(''nginx.ingress.kubernetes.io/custom-http-errors'', ''503''),
           (''traefik.ingress.kubernetes.io/router.middlewares'', traefikMiddleware (ing_namespace j))}"
    and "code \<in> set (codesOf (annotationValue (ing_annotations j) key))
       \<or> code \<notin> set (codesOf (annotationValue (ing_annotations i) key))"
  shows "code \<notin> set (codesOf (annotationValue (ing_annotations (mergeIngress p i)) key))"
proof -
  have code: "code \<noteq> ''''" using assms(2) traefikMiddleware_nonempty [of "ing_namespace j"] by auto
  let ?v = "ing_annotations j key"
  let ?w = "Option.bind ?v (\<lambda>v. removeStatusCode v code)"
  have w: "code \<notin> set (codesOf (case ?w of Some v \<Rightarrow> v | None \<Rightarrow> ''''))"
    using code by (rule removed_absent)
  have "code \<notin> set (codesOf (annotationValue (ing_annotations j) key))" if "?w = ?v"
    using w that by (simp add: annotationValue_def)
  with assms(3) w restored_value [OF assms(1,2), of i] show ?thesis
    by (auto simp: annotationValue_def split: if_splits)
qed

lemma patchObject_other:
  "cl_deployments (patchObject (IngressRef ns n) p v) = cl_deployments v"
  "cl_deployments (patchObject (NamespaceRef n) p v) = cl_deployments v"
  "cl_ingresses (patchObject (DeploymentRef ns n) p v) = cl_ingresses v"
  "cl_ingresses (patchObject (NamespaceRef n) p v) = cl_ingresses v"
  "cl_namespaces (patchObject (DeploymentRef ns n) p v) = cl_namespaces v"
  "cl_namespaces (patchObject (IngressRef ns n) p v) = cl_namespaces v"
  by simp_all

lemma deploymentUp_patched:
  "deploymentUp ns n (patchObject (DeploymentRef ns n) (unidlePatch r) v)"
  "deploymentUp ns n v \<Longrightarrow> deploymentUp ns n (patchObject (DeploymentRef ns' n') (unidlePatch r) v)"
  using scaled_up by (auto simp: deploymentUp_def)

lemma partFree_patched:
  assumes "restorePatch j = Some p"
    and "(key, code) \<in> {(''nginx.ingress.kubernetes.io/custom-http-errors'', ''503''),
           (''traefik.ingress.kubernetes.io/router.middlewares'', traefikMiddleware ns)}"
  shows "refOfIngress j = IngressRef ns n \<Longrightarrow> code \<in> set (codesOf (annotationValue (ing_annotations j) key))
           \<Longrightarrow> partFree key code ns n (patchObject (refOfIngress j) p v)"
    and "partFree key code ns n v \<Longrightarrow> partFree key code ns n (patchObject (refOfIngress j) p v)"
  using part_after [OF assms(1), of key code] assms(2) by (auto simp: partFree_def)

lemma labelled_merge: "ns_labels (mergeNamespace unidledLabelPatch x) ''idling.amazee.io/idled'' = Some ''false''"
  by (simp add: mergeNamespace_def mergeMeta_def unidledLabelPatch_def)

lemma labelled_patched:
  "labelledAwake n (patchObject (NamespaceRef n) unidledLabelPatch v)"
  "labelledAwake n v \<Longrightarrow> labelledAwake n (patchObject (NamespaceRef m) unidledLabelPatch v)"
  using labelled_merge by (auto simp: labelledAwake_def)

text \<open>Each goal, once reached, stays reached.\<close>

lemma goals_stable:
  assumes "wakePatch ref p"
  shows "deploymentUp ns n v \<Longrightarrow> deploymentUp ns n (patchObject ref p v)"
    and "nginxFree ns n v \<Longrightarrow> nginxFree ns n (patchObject ref p v)"
    and "traefikFree ns n v \<Longrightarrow> traefikFree ns n (patchObject ref p v)"
    and "labelledAwake ns v \<Longrightarrow> labelledAwake ns (patchObject ref p v)"
proof -
  note other = deploymentUp_def partFree_def labelledAwake_def patchObject_other
  show "deploymentUp ns n v \<Longrightarrow> deploymentUp ns n (patchObject ref p v)"
    using assms
  proof cases
    case 1
    then show "deploymentUp ns n v \<Longrightarrow> deploymentUp ns n (patchObject ref p v)"
      using deploymentUp_patched(2) by simp
  qed (simp_all only: other)
  have part: "partFree key code ns n v \<Longrightarrow> partFree key code ns n (patchObject ref p v)"
    if "(key, code) \<in> {(''nginx.ingress.kubernetes.io/custom-http-errors'', ''503''),
           (''traefik.ingress.kubernetes.io/router.middlewares'', traefikMiddleware ns)}" for key code
    using assms
  proof cases
    case (2 i)
    then show "partFree key code ns n v \<Longrightarrow> partFree key code ns n (patchObject ref p v)"
      using partFree_patched(2) [OF _ that] by blast
  qed (simp_all only: other)
  show "nginxFree ns n v \<Longrightarrow> nginxFree ns n (patchObject ref p v)"
    by (rule part) simp_all
  show "traefikFree ns n v \<Longrightarrow> traefikFree ns n (patchObject ref p v)"
    by (rule part) simp_all
  show "labelledAwake ns v \<Longrightarrow> labelledAwake ns (patchObject ref p v)"
    using assms
  proof cases
    case 3
    then show "labelledAwake ns v \<Longrightarrow> labelledAwake ns (patchObject ref p v)"
      using labelled_patched(2) by simp
  qed (simp_all only: other)
qed

text \<open>What is awake stays so.\<close>

definition stillAwake :: "string \<Rightarrow> objects \<Rightarrow> objects \<Rightarrow> bool" where
  "stillAwake ns v w \<longleftrightarrow>
     (\<forall>n. (deploymentUp ns n v \<longrightarrow> deploymentUp ns n w) \<and> (nginxFree ns n v \<longrightarrow> nginxFree ns n w)
        \<and> (traefikFree ns n v \<longrightarrow> traefikFree ns n w))
     \<and> (labelledAwake ns v \<longrightarrow> labelledAwake ns w)"

lemma moves_stillAwake: "moves view wakePatch a b \<Longrightarrow> stillAwake ns (view a) (view b)"
  using goals_stable by (auto simp: moves_def stillAwake_def)

section \<open>One Unidle among others\<close>

text \<open>What a goroutine of the crowd does to its state: it logs waking steps, and the worlds to come stay as they are.\<close>

definition crowdRel :: "('w \<Rightarrow> objects) \<Rightarrow> objref list \<Rightarrow> 'w shared st \<Rightarrow> 'w shared st \<Rightarrow> bool" where
  "crowdRel view f s t \<longleftrightarrow> loggedRel (moves view wakePatch) s t
     \<and> (ahead (\<lambda>w. present (view w) = f) s \<longrightarrow> ahead (\<lambda>w. present (view w) = f) t)"

interpretation crowdEffect: effect "crowdRel view f :: 'w shared st \<Rightarrow> 'w shared st \<Rightarrow> bool" for view f
  by unfold_locales (auto simp: crowdRel_def intro: logged.eff_refl logged.eff_trans)

lemma crowd_request:
  assumes "\<And>w. moves view wakePatch w (snd (g w))"
  shows "steps (crowdRel view f) (request c (traced g))"
proof (rule stepsI)
  fix s :: "'a shared st"
  have "present (view (snd (g w))) = present (view w)" for w
    using assms [of w] by (auto simp: moves_def present_patch)
  then show "crowdRel view f s (snd (request c (traced g) s))"
    using stepsD [OF logged_request [where G = "moves view wakePatch" and f = g, OF assms]] ahead_request [of "\<lambda>w. present (view w) = f" s g]
    by (auto simp: crowdRel_def)
qed

lemma crowd_wakes:
  assumes "readsKeep P view" and "patchMerges P view" and "pollRunsCondition (tracing P wait)"
  shows "wakes (crowdRel view f) (tracing P wait) wakePatch"
proof (intro wakes.intro asks.intro asks_axioms.intro wakes_axioms.intro crowdEffect.effect_axioms wake.wake_kinds_axioms)
  show "crowdRel view f s t" if "world t = world s" for s t
    using that by (simp add: crowdRel_def loggedRel_def ahead_def)
  show "steps (crowdRel view f) (Patch (tracing P wait) ref p)" if "wakePatch ref p" for ref p
    using moves_sendPatch [OF assms(2), of wakePatch] that by (simp add: Patch_def crowd_request)
  show "steps (crowdRel view f) (waitPoll (tracing P wait) cond)" if "steps (crowdRel view f) cond" for cond
    using assms(3) crowdEffect.effect_axioms that by (rule poll_steps)
qed (use assms(1) in \<open>auto simp: request_defs readsKeep_def moves_def intro!: crowd_request\<close>)

text \<open>A goal that held in one of the worlds of the trace.\<close>

definition seen :: "('w \<Rightarrow> objects) \<Rightarrow> (objects \<Rightarrow> bool) \<Rightarrow> 'w shared st \<Rightarrow> bool" where
  "seen view goal s \<longleftrightarrow> list_ex (\<lambda>(a, b). goal (view a) \<or> goal (view b)) (sh_log (world s))"

lemma seen_kept: "crowdRel view f s t \<Longrightarrow> seen view goal s \<Longrightarrow> seen view goal t"
  by (auto simp: crowdRel_def loggedRel_def seen_def)

lemma request_seen:
  assumes "request c (traced g) s = (Ok r, t)" and "ahead F s"
  obtains w where "F w" and "r = fst (g w)"
    and "\<And>goal. goal (view w) \<or> goal (view (snd (g w))) \<Longrightarrow> seen view goal t"
proof (rule that [of "sh_now (arrive (world s))"])
  show "F (sh_now (arrive (world s)))" using assms(2) by (rule ahead_arrive)
  show "r = fst (g (sh_now (arrive (world s))))"
    using assms(1) by (simp add: request_eval traced_apply)
  show "seen view goal t" if "goal (view (sh_now (arrive (world s)))) \<or> goal (view (snd (g (sh_now (arrive (world s))))))"
    for goal
    using assms(1) that by (auto simp: request_eval traced_apply seen_def)
qed

text \<open>A loop that goes on whatever happens does its work for every element.\<close>

lemma forRange_seen:
  assumes "forRange body xs () s = (Ok (), t)" and "ahead F s"
    and "\<And>x. x \<in> set xs \<Longrightarrow> steps (crowdRel view f) (body x ())"
    and "F = (\<lambda>w. present (view w) = f)"
    and "\<And>x s l t. x \<in> set xs \<Longrightarrow> ahead F s \<Longrightarrow> body x () s = (Ok l, t)
           \<Longrightarrow> l = Continue () \<and> (needs x \<longrightarrow> seen view (goal x) t)"
  shows "\<forall>x \<in> set xs. needs x \<longrightarrow> seen view (goal x) t"
  using assms(1-3,5)
proof (induction xs arbitrary: s)
  case (Cons x xs)
  obtain l s1 where b: "body x () s = (Ok l, s1)"
    and rest: "(case l of Continue acc \<Rightarrow> forRange body xs acc | Break acc \<Rightarrow> ret acc) s1 = (Ok (), t)"
    using Cons.prems(1) by (auto elim: andThen_OkE)
  have l: "l = Continue ()" "needs x \<longrightarrow> seen view (goal x) s1"
    using Cons.prems(4) [OF _ Cons.prems(2) b] by simp_all
  have "crowdRel view f s s1"
    using steps_run [OF Cons.prems(3) b] by simp
  then have ah: "ahead F s1" using Cons.prems(2) by (simp add: crowdRel_def assms(4))
  have run: "forRange body xs () s1 = (Ok (), t)" using rest l by simp
  have "steps (crowdRel view f) (forRange body xs ())"
    using Cons.prems(3) by (intro crowdEffect.steps_forRange) simp
  from seen_kept [OF steps_run [OF this run]] l(2) have "needs x \<longrightarrow> seen view (goal x) t" by blast
  moreover have "\<forall>x \<in> set xs. needs x \<longrightarrow> seen view (goal x) t"
    by (rule Cons.IH [OF run ah]) (simp_all add: Cons.prems(3), rule Cons.prems(4), auto)
  ultimately show ?case by simp
qed simp

section \<open>Each Unidle sees to everything\<close>

lemma answered_patch:
  assumes "patchMerges P view" and "answers P view" and "ref \<in> set f" and "present (view w) = f"
  shows "fst (sendPatch P ref p w) = None" and "view (snd (sendPatch P ref p w)) = patchObject ref p (view w)"
proof -
  have "refExists ref (view w)" using assms(3,4) by (simp add: refExists_present)
  then show "fst (sendPatch P ref p w) = None" using assms(2) by (simp add: answers_def)
  then show "view (snd (sendPatch P ref p w)) = patchObject ref p (view w)"
    using assms(1) by (simp add: patchMerges_def)
qed

lemma patch_seen:
  assumes "patchMerges P view" and "answers P view" and "ref \<in> set f"
    and "Patch (tracing P wait) ref p s = (Ok r, t)" and "ahead (\<lambda>w. present (view w) = f) s"
    and "\<And>v. goal (patchObject ref p v)"
  shows "seen view goal t"
proof -
  have "request (CPatch ref p) (traced (sendPatch P ref p)) s = (Ok r, t)"
    using assms(4) by (simp add: Patch_def)
  then obtain w where "present (view w) = f"
    and "goal (view w) \<or> goal (view (snd (sendPatch P ref p w))) \<Longrightarrow> seen view goal t"
    using assms(5) by (rule request_seen [where view = view]) blast
  with answered_patch(2) [OF assms(1-3)] assms(6) show ?thesis by simp
qed

lemma scaling_seen:
  assumes "patchMerges P view" and "answers P view" and "(refOfDeployment d) \<in> set f"
    and "unidleDeployment (tracing P wait) d () s = (Ok l, t)" and "ahead (\<lambda>w. present (view w) = f) s"
  shows "l = Continue () \<and> (needsScaling d \<longrightarrow> seen view (deploymentUp (dep_namespace d) (dep_name d)) t)"
proof (cases "needsScaling d")
  case True
  let ?p = "unidlePatch (unidleReplicas d)"
  from True assms(4) obtain r where "Patch (tracing P wait) (refOfDeployment d) ?p s = (Ok r, t)"
    and l: "l = Continue ()"
    by (auto simp: unidleDeployment_def needsScaling_def elim!: andThen_OkE dest: ret_OkD)
  from patch_seen [OF assms(1-3) this(1) assms(5)] deploymentUp_patched(1) l show ?thesis by simp
next
  case False
  with assms(4) show ?thesis
    by (auto simp: unidleDeployment_def needsScaling_def panic_def split: if_splits option.splits dest: ret_OkD)
qed

text \<open>The two codes an ingress may carry.\<close>

abbreviation codeParts :: "string \<Rightarrow> (string \<times> string) set" where
  "codeParts ns \<equiv> {(''nginx.ingress.kubernetes.io/custom-http-errors'', ''503''),
     (''traefik.ingress.kubernetes.io/router.middlewares'', traefikMiddleware ns)}"

lemma restoring_seen:
  assumes "patchMerges P view" and "answers P view" and "(refOfIngress i) \<in> set f"
    and "(key, code) \<in> codeParts (ing_namespace i)"
    and "restoreIngress (tracing P wait) i () s = (Ok l, t)" and "ahead (\<lambda>w. present (view w) = f) s"
  shows "l = Continue () \<and> (code \<in> set (codesOf (annotationValue (ing_annotations i) key))
     \<longrightarrow> seen view (partFree key code (ing_namespace i) (ing_name i)) t)"
proof (cases "restorePatch i")
  case None
  then have "ing_annotations i key = None"
    using assms(4) by (auto simp: restorePatch_def Let_def split: if_splits)
  moreover have "code \<noteq> ''''"
    using assms(4) traefikMiddleware_nonempty [of "ing_namespace i"] by auto
  ultimately show ?thesis
    using None assms(5) by (auto simp: restoreIngress_def annotationValue_def dest: ret_OkD)
next
  case (Some p)
  with assms(5) obtain r where "Patch (tracing P wait) (refOfIngress i) p s = (Ok r, t)" and l: "l = Continue ()"
    by (auto simp: restoreIngress_def elim!: andThen_OkE dest: ret_OkD)
  from patch_seen [OF assms(1-3) this(1) assms(6)] partFree_patched(1) [OF Some assms(4) refl] l
  show ?thesis by blast
qed

text \<open>
  The two lists: what is not done yet when the list is answered is on it.
\<close>

lemma deployments_listed:
  assumes "listsMatch P view" and "answers P view"
    and "ListDeployments (tracing P wait) (inNamespace ns (Requirements [watched])) s = (Ok r, t)"
    and "ahead (\<lambda>w. present (view w) = f) s"
  obtains ds where "r = Inr ds"
    and "\<forall>d \<in> set ds. dep_namespace d = ns \<and> (refOfDeployment d) \<in> set f"
    and "\<And>n. seen view (deploymentUp ns n) t \<or> (\<exists>d \<in> set ds. dep_name d = n \<and> needsScaling d)"
proof -
  let ?opts = "inNamespace ns (Requirements [watched])"
  have "request (CList KDeployment ?opts) (traced (listDeployments P ?opts)) s = (Ok r, t)"
    using assms(3) by (simp add: ListDeployments_def)
  then obtain w where w: "present (view w) = f" and r: "r = fst (listDeployments P ?opts w)"
    and at: "\<And>goal. goal (view w) \<Longrightarrow> seen view goal t"
    using assms(4) by (rule request_seen [where view = view]) blast
  obtain ds where ds: "r = Inr ds" using assms(2) unfolding answers_def r by blast
  then have eq: "ds = deploymentsMatching ns [watched] (view w)"
    using assms(1) unfolding listsMatch_def r by blast
  show ?thesis
  proof (rule that [OF ds])
    have "refExists (refOfDeployment d) (view w)" if "d \<in> set ds" for d
      using that by (auto simp: eq deploymentsMatching_def list_ex_iff)
    then have "(refOfDeployment d) \<in> set f" if "d \<in> set ds" for d
      using that w refExists_present by metis
    then show "\<forall>d \<in> set ds. dep_namespace d = ns \<and> (refOfDeployment d) \<in> set f"
      by (simp add: eq deploymentsMatching_def)
    show "seen view (deploymentUp ns n) t \<or> (\<exists>d \<in> set ds. dep_name d = n \<and> needsScaling d)" for n
    proof (cases "deploymentUp ns n (view w)")
      case False
      then show ?thesis by (auto simp: deploymentUp_def eq deploymentsMatching_def meets_def)
    qed (use at in blast)
  qed
qed

lemma ingresses_listed:
  assumes "listsMatch P view" and "answers P view"
    and "ListIngresses (tracing P wait) \<lparr>lo_namespace = Some ns, lo_selector = None\<rparr> s = (Ok r, t)"
    and "ahead (\<lambda>w. present (view w) = f) s"
  obtains "is" where "r = Inr is"
    and "\<forall>i \<in> set is. ing_namespace i = ns \<and> (refOfIngress i) \<in> set f"
    and "\<And>key code n. seen view (partFree key code ns n) t
           \<or> (\<exists>i \<in> set is. ing_name i = n \<and> code \<in> set (codesOf (annotationValue (ing_annotations i) key)))"
proof -
  let ?opts = "\<lparr>lo_namespace = Some ns, lo_selector = None\<rparr>"
  have "request (CList KIngress ?opts) (traced (listIngresses P ?opts)) s = (Ok r, t)"
    using assms(3) by (simp add: ListIngresses_def)
  then obtain w where w: "present (view w) = f" and r: "r = fst (listIngresses P ?opts w)"
    and at: "\<And>goal. goal (view w) \<Longrightarrow> seen view goal t"
    using assms(4) by (rule request_seen [where view = view]) blast
  obtain "is" where ings: "r = Inr is" using assms(2) unfolding answers_def r by blast
  then have eq: "is = ingressesMatching ns [] (view w)"
    using assms(1) unfolding listsMatch_def r by blast
  show ?thesis
  proof (rule that [OF ings])
    have "refExists (refOfIngress i) (view w)" if "i \<in> set is" for i
      using that by (auto simp: eq ingressesMatching_def list_ex_iff)
    then have "(refOfIngress i) \<in> set f" if "i \<in> set is" for i
      using that w refExists_present by metis
    then show "\<forall>i \<in> set is. ing_namespace i = ns \<and> (refOfIngress i) \<in> set f"
      by (simp add: eq ingressesMatching_def)
    show "seen view (partFree key code ns n) t
        \<or> (\<exists>i \<in> set is. ing_name i = n \<and> code \<in> set (codesOf (annotationValue (ing_annotations i) key)))" for key code n
    proof (cases "partFree key code ns n (view w)")
      case False
      then show ?thesis by (auto simp: partFree_def eq ingressesMatching_def)
    qed (use at in blast)
  qed
qed

lemma codes_seen:
  assumes "apiServer P view" and "answers P view" and "pollRunsCondition (tracing P wait)"
    and "removeCodeFromIngress (tracing P wait) ns s = (Ok (), t)" and "ahead (\<lambda>w. present (view w) = f) s"
    and "(key, code) \<in> codeParts ns"
  shows "seen view (partFree key code ns n) t"
proof -
  have api: "readsKeep P view" "patchMerges P view" "listsMatch P view" using assms(1) by (simp_all add: apiServer_def)
  note k = crowd_wakes [OF api(1,2) assms(3), where f = f]
  obtain r s1 where l: "ListIngresses (tracing P wait) \<lparr>lo_namespace = Some ns, lo_selector = None\<rparr> s = (Ok r, s1)"
    and rest: "(case r of Inl err \<Rightarrow> ret () | Inr ingresses \<Rightarrow> forRange (restoreIngress (tracing P wait)) ingresses ()) s1 = (Ok (), t)"
    using assms(4) by (auto simp: removeCodeFromIngress_def elim!: andThen_OkE)
  have "crowdRel view f s s1"
    using asks.list_ingresses [OF wakes.axioms(1) [OF k]] l by (rule steps_run)
  then have s1: "ahead (\<lambda>w. present (view w) = f) s1" using assms(5) by (simp add: crowdRel_def)
  obtain "is" where ings: "r = Inr is" "\<forall>i \<in> set is. ing_namespace i = ns \<and> (refOfIngress i) \<in> set f"
    and todo: "seen view (partFree key code ns n) s1
           \<or> (\<exists>i \<in> set is. ing_name i = n \<and> code \<in> set (codesOf (annotationValue (ing_annotations i) key)))"
    using ingresses_listed [OF api(3) assms(2) l assms(5)] by metis
  have run: "forRange (restoreIngress (tracing P wait)) is () s1 = (Ok (), t)" using rest ings(1) by simp
  note body = wakes.restoreIngress_sends [OF k]
  have "\<forall>i \<in> set is. code \<in> set (codesOf (annotationValue (ing_annotations i) key))
      \<longrightarrow> seen view (partFree key code (ing_namespace i) (ing_name i)) t"
    using ings(2) assms(6)
    by (intro forRange_seen [OF run s1 body refl] restoring_seen [OF api(2) assms(2)]) auto
  with todo ings(2) seen_kept [OF steps_run [OF crowdEffect.steps_forRange [OF body] run], of "partFree key code ns n"]
  show ?thesis by auto
qed

lemma Unidle_seen:
  assumes "apiServer P view" and "answers P view" and "pollRunsCondition (tracing P wait)"
    and "(NamespaceRef (ns_name namespace)) \<in> set f"
    and "Unidle (tracing P wait) namespace s = (Ok (), t)" and "ahead (\<lambda>w. present (view w) = f) s"
    and "ns = ns_name namespace"
  shows "seen view (deploymentUp ns n) t" and "seen view (nginxFree ns n) t"
    and "seen view (traefikFree ns n) t" and "seen view (labelledAwake ns) t"
proof -
  let ?T = "tracing P wait"
  have api: "readsKeep P view" "patchMerges P view" "listsMatch P view" using assms(1) by (simp_all add: apiServer_def)
  note k = crowd_wakes [OF api(1,2) assms(3), where f = f]
  note asks = wakes.axioms(1) [OF k]
  have watch: "newRequirementOk P ''idling.amazee.io/watch'' ''='' [''true'']"
  proof (rule ccontr)
    assume "\<not> ?thesis"
    with assms(5) show False by (simp add: Unidle_def deferred_apply equalsTrue_def panic_def)
  qed
  with assms(5) obtain r s1 u where l: "ListDeployments ?T (inNamespace ns (Requirements [watched])) s = (Ok r, s1)"
    and rest: "(case r of
            Inl err \<Rightarrow> ret ()
          | Inr deployments \<Rightarrow>
            andThen (forRange (unidleDeployment ?T) deployments ()) (\<lambda>_.
            andThen (forRange (waitForPods ?T namespace) deployments ()) (\<lambda>_.
            andThen (removeCodeFromIngress ?T ns) (\<lambda>_.
            andThen (countMetric (\<lambda>m. m\<lparr>unidleEvents := Suc (unidleEvents m)\<rparr>)) (\<lambda>_.
            andThen (Patch ?T (NamespaceRef ns) unidledLabelPatch) (\<lambda>e. ret ())))))) s1 = (Ok (), u)"
    and t: "world t = world u"
    unfolding assms(7)
    by (auto simp: Unidle_def deferred_def equalsTrue_def split: prod.splits elim!: andThen_OkE)
  have later: "crowdRel view f a b \<Longrightarrow> ahead (\<lambda>w. present (view w) = f) a \<Longrightarrow> ahead (\<lambda>w. present (view w) = f) b" for a b
    by (simp add: crowdRel_def)
  have c1: "crowdRel view f s s1" using asks.list_deployments [OF asks] l by (rule steps_run)
  note s1 = later [OF c1 assms(6)]
  obtain ds where r: "r = Inr ds" and ds: "\<forall>d \<in> set ds. dep_namespace d = ns \<and> (refOfDeployment d) \<in> set f"
    and todo: "\<And>n. seen view (deploymentUp ns n) s1 \<or> (\<exists>d \<in> set ds. dep_name d = n \<and> needsScaling d)"
    using deployments_listed [OF api(3) assms(2) l assms(6)] by metis
  from rest obtain s2 s3 s4 s5 e where up: "forRange (unidleDeployment ?T) ds () s1 = (Ok (), s2)"
    and wt: "forRange (waitForPods ?T namespace) ds () s2 = (Ok (), s3)"
    and rem: "removeCodeFromIngress ?T ns s3 = (Ok (), s4)"
    and cnt: "countMetric (\<lambda>m. m\<lparr>unidleEvents := Suc (unidleEvents m)\<rparr>) s4 = (Ok (), s5)"
    and lab: "Patch ?T (NamespaceRef ns) unidledLabelPatch s5 = (Ok e, u)"
    by (auto simp: r elim!: andThen_OkE dest: ret_OkD)
  have c2: "crowdRel view f s1 s2"
    using crowdEffect.steps_forRange [OF wakes.unidleDeployment_sends [OF k]] up by (rule steps_run)
  have c3: "crowdRel view f s2 s3"
    using crowdEffect.steps_forRange [OF wakes.waitForPods_sends [OF k]] wt by (rule steps_run)
  have c4: "crowdRel view f s3 s4" using wakes.codes_sends [OF k] rem by (rule steps_run)
  have c5: "crowdRel view f s4 s5" using asks.count [OF asks] cnt by (rule steps_run)
  have c6: "crowdRel view f s5 u" using wakes.patch [OF k wake.wake_namespace] lab by (rule steps_run)
  note s3 = later [OF c3 later [OF c2 s1]]
  note s5 = later [OF c5 later [OF c4 s3]]
  have keep: "seen view goal t" if "crowdRel view f x u" "seen view goal x" for goal x
    using seen_kept [OF that] t by (simp add: seen_def)
  note c26 = crowdEffect.eff_trans [OF c3 crowdEffect.eff_trans [OF c4 crowdEffect.eff_trans [OF c5 c6]]]
  have scaled: "\<forall>d \<in> set ds. needsScaling d \<longrightarrow> seen view (deploymentUp (dep_namespace d) (dep_name d)) s2"
    using ds
    by (intro forRange_seen [OF up s1 wakes.unidleDeployment_sends [OF k] refl] scaling_seen [OF api(2) assms(2)]) auto
  have "seen view (deploymentUp ns n) s2"
    using todo [of n] scaled ds seen_kept [OF c2, of "deploymentUp ns n"] by auto
  then show "seen view (deploymentUp ns n) t" by (rule keep [OF c26])
  note c46 = crowdEffect.eff_trans [OF c5 c6]
  note codes = codes_seen [OF assms(1-3) rem s3]
  show "seen view (nginxFree ns n) t" by (rule keep [OF c46 codes]) simp
  show "seen view (traefikFree ns n) t" by (rule keep [OF c46 codes]) simp
  show "seen view (labelledAwake ns) t"
  proof (rule keep [OF crowdEffect.eff_refl])
    show "seen view (labelledAwake ns) u"
      using assms(4) labelled_patched(1) by (intro patch_seen [OF api(2) assms(2) _ lab s5]) (simp_all only: assms(7))
  qed
qed

section \<open>Unidles that run at once\<close>

text \<open>The goroutines a request can lead to: its handler, and \<open>Unidle\<close>.\<close>

fun onDemand :: "goroutine \<Rightarrow> bool" where
  "onDemand (UnidleRun namespace) = True"
| "onDemand (RequestRun r) = True"
| "onDemand _ = False"

lemma onDemand_steps:
  assumes "readsKeep P view" and "patchMerges P view" and "pollRunsCondition (tracing P wait)" and "onDemand g"
  shows "steps (loggedRel (moves view wakePatch)) (runGoroutine (tracing P wait) h u g)"
  using assms(4) wakes.Unidle_sends [OF wakes_logged [OF assms(1-3) wake.wake_kinds_axioms]]
    asks.route_asks [OF asks_logged [OF assms(1)]]
  by (cases g) simp_all

text \<open>
  What is asked of the rest of the world here: beside being considerate it does not put to
  sleep again what is awake.
\<close>

definition lenient :: "('w \<Rightarrow> objects) \<Rightarrow> string \<Rightarrow> ('w \<Rightarrow> 'w \<Rightarrow> bool) \<Rightarrow> bool" where
  "lenient view ns E \<longleftrightarrow> considerate view E \<and> (\<forall>a b. E a b \<longrightarrow> stillAwake ns (view a) (view b))"

text \<open>A goal seen in the trace of a finished goroutine is reached in the end.\<close>

lemma seen_reached:
  assumes "schedule T E h u s gs ms" and "finished T h u s gs i ms"
    and "list_all (\<lambda>(i, a, b). stillAwake ns (view a) (view b)) ms"
    and "seen view goal (snd (runGoroutine T h u (gs ! i) (enter (map fst (stepsOf i ms)) s)))"
    and "\<And>v w. stillAwake ns v w \<Longrightarrow> goal v \<Longrightarrow> goal w"
  shows "goal (view (worldAfter (world s) ms))"
proof -
  from assms(4) obtain a b where ab: "(a, b) \<in> set (traceIn T h u s (gs ! i) i ms)" "goal (view a) \<or> goal (view b)"
    by (auto simp: seen_def list_ex_iff traceIn_def traceOf_def)
  then have "(i, a, b) \<in> set ms" using assms(2) by (simp add: finished_def flip: stepsOf_set)
  then show ?thesis
    using chained_once [where F = "\<lambda>w. goal (view w)", OF _ assms(3) _ ab(2) assms(5)] assms(1)
    by (simp add: schedule_def)
qed


end
