(* ===== verification/Shipped.thy ===== *)
theory Shipped
  imports PatchTypes Cycle
begin

text \<open>
  The configuration that ships with the controller, resources/selectors.yaml, and what the
  service idler can do to a cluster when it runs with it.
\<close>

section \<open>The selectors file\<close>

definition selectorFor :: "string \<Rightarrow> string \<Rightarrow> string list \<Rightarrow> idlerSelector" where
  "selectorFor name operator values = \<lparr>sel_Name = name, sel_Operator = operator, sel_Values = values\<rparr>"

text \<open>The two anchored lists of the file, and the file.\<close>

definition servicedeployments :: "idlerSelector list" where
  "servicedeployments =
     [selectorFor ''run'' ''!='' [''storage-calc''],
      selectorFor ''lagoon.sh/service'' ''notin'' [''cli''],
      selectorFor ''lagoon.sh/service-type'' ''notin'' [''mariadb-single'', ''postgres-single'', ''mongodb-single''],
      selectorFor ''lagoon.sh/jobType'' ''notin'' [''build''],
      selectorFor ''lagoon.sh/environment'' ''exists'' []]"

definition clideployments :: "idlerSelector list" where
  "clideployments =
     [selectorFor ''job-name'' ''!'' [], selectorFor ''lagoon.sh/service'' ''in'' [''cli'']]"

definition shippedSelectors :: selectorData where
  "shippedSelectors =
     \<lparr>nsLabels = \<lparr>ProjectName = ''lagoon.sh/project'', EnvironmentName = ''lagoon.sh/environment'',
                 ProjectIdling = ''lagoon.sh/projectAutoIdle'', EnvironmentIdling = ''lagoon.sh/environmentAutoIdle'',
                 EnvironmentType = ''lagoon.sh/environmentType''\<rparr>,
      serviceName = ''lagoon.sh/service'',
      cli = \<lparr>cli_SkipBuildCheck = False, cli_SkipCronCheck = False, cli_SkipProcessCheck = False,
             cli_Namespace = [selectorFor ''lagoon.sh/environmentType'' ''in'' [''production'', ''development'']],
             cli_Builds = [selectorFor ''lagoon.sh/jobType'' ''in'' [''build'']],
             cli_Deployments = clideployments, cli_Pods = clideployments\<rparr>,
      service = \<lparr>svc_SkipBuildCheck = False, svc_SkipHitCheck = False, svc_SkipIngressPatch = False,
             svc_Namespace = [selectorFor ''lagoon.sh/environmentType'' ''in'' [''development'']],
             svc_Builds = [selectorFor ''lagoon.sh/jobType'' ''in'' [''build'']],
             svc_Deployments = servicedeployments, svc_Pods = servicedeployments,
             svc_Ingress = [selectorFor ''lagoon.sh/autogenerated'' ''exists'' []]\<rparr>\<rparr>"

section \<open>What the service idler may scale\<close>

text \<open>An environment that opted in, and a deployment of it that is neither the CLI nor a database.\<close>

definition optedIn :: "namespace \<Rightarrow> bool" where
  "optedIn n \<longleftrightarrow> ns_labels n ''lagoon.sh/environmentType'' = Some ''development''
     \<and> ns_labels n ''lagoon.sh/environmentAutoIdle'' = Some ''1''
     \<and> ns_labels n ''lagoon.sh/projectAutoIdle'' = Some ''1''"

definition expendable :: "deployment \<Rightarrow> bool" where
  "expendable d \<longleftrightarrow> dep_labels d ''lagoon.sh/environment'' \<noteq> None
     \<and> dep_labels d ''lagoon.sh/service'' \<noteq> Some ''cli''
     \<and> dep_labels d ''lagoon.sh/service-type'' \<notin> {Some ''mariadb-single'', Some ''postgres-single'', Some ''mongodb-single''}
     \<and> dep_labels d ''lagoon.sh/jobType'' \<noteq> Some ''build'' \<and> dep_labels d ''run'' \<noteq> Some ''storage-calc''"

definition mayIdle :: "objects \<Rightarrow> deployment \<Rightarrow> bool" where
  "mayIdle v d \<longleftrightarrow> expendable d \<and> (\<exists>n \<in> set (cl_namespaces v). ns_name n = dep_namespace d \<and> optedIn n)"

lemma shipped_deployments:
  "Selectors h = shippedSelectors \<Longrightarrow> list_all (meets (dep_labels d)) (deploymentReqs h) \<longleftrightarrow> expendable d"
  by (auto simp: shippedSelectors_def servicedeployments_def selectorFor_def requirementOf_def meets_def expendable_def
      split: option.split)

text \<open>None of these labels is the controller's own.\<close>

definition foreignDeployment :: "deployment \<Rightarrow> deployment" where
  "foreignDeployment d = d\<lparr>dep_labels := hide owned (dep_labels d),
     dep_annotations := hide owned (dep_annotations d), dep_replicas := None\<rparr>"

lemma hide_foreign: "\<not> owned k \<Longrightarrow> hide owned m k = m k"
  by (simp add: hide_def)

lemma expendable_foreign: "expendable (foreignDeployment d) = expendable d"
  by (simp add: expendable_def foreignDeployment_def hide_foreign owned_def)

lemma optedIn_foreign: "optedIn (n\<lparr>ns_labels := hide owned (ns_labels n)\<rparr>) = optedIn n"
  by (simp add: optedIn_def hide_foreign owned_def)

lemma foreignDeployment_namespace [simp]: "dep_namespace (foreignDeployment d) = dep_namespace d"
  by (simp add: foreignDeployment_def)

lemma mayIdle_foreign: "mayIdle (foreign v) (foreignDeployment d) = mayIdle v d"
  by (simp add: mayIdle_def expendable_foreign foreign_def optedIn_foreign)

lemma foreign_deployments: "cl_deployments (foreign v) = map foreignDeployment (cl_deployments v)"
  by (simp add: foreign_def foreignDeployment_def)

section \<open>Runs\<close>

text \<open>The change of the objects by one run: foreign data stays, and what changes is allowed to.\<close>

definition sparesRel :: "('w \<Rightarrow> objects) \<Rightarrow> objects \<Rightarrow> 'w st \<Rightarrow> 'w st \<Rightarrow> bool" where
  "sparesRel view f s t \<longleftrightarrow> (foreign (objectsOf view s) = f \<longrightarrow> foreign (objectsOf view t) = f
     \<and> list_all2 (\<lambda>d d'. d' = d \<or> mayIdle f (foreignDeployment d))
         (cl_deployments (objectsOf view s)) (cl_deployments (objectsOf view t)))"

lemma sparesRel_same:
  "foreign (objectsOf view t) = foreign (objectsOf view s)
    \<Longrightarrow> cl_deployments (objectsOf view t) = cl_deployments (objectsOf view s) \<Longrightarrow> sparesRel view f s t"
  by (simp add: sparesRel_def list_all2_refl)

lemma sparesRel_trans:
  assumes "sparesRel view f s t" and "sparesRel view f t u"
  shows "sparesRel view f s u"
  unfolding sparesRel_def
proof (intro impI conjI)
  let ?d = "\<lambda>s. cl_deployments (objectsOf view s)"
  assume s: "foreign (objectsOf view s) = f"
  then have t: "foreign (objectsOf view t) = f"
    and st: "list_all2 (\<lambda>d d'. d' = d \<or> mayIdle f (foreignDeployment d)) (?d s) (?d t)"
    using assms(1) by (simp_all add: sparesRel_def)
  then show "foreign (objectsOf view u) = f" using assms(2) by (simp add: sparesRel_def)
  have tu: "list_all2 (\<lambda>d d'. d' = d \<or> mayIdle f (foreignDeployment d)) (?d t) (?d u)"
    using assms(2) t by (simp add: sparesRel_def)
  have "map foreignDeployment (?d t) = map foreignDeployment (?d s)"
    using s t by (metis foreign_deployments)
  then have same: "foreignDeployment (?d t ! k) = foreignDeployment (?d s ! k)" if "k < length (?d s)" for k
    using that by (metis length_map nth_map)
  show "list_all2 (\<lambda>d d'. d' = d \<or> mayIdle f (foreignDeployment d)) (?d s) (?d u)"
    using st tu same by (fastforce simp: list_all2_conv_all_nth)
qed

interpretation spares: effect "sparesRel view f :: 'w st \<Rightarrow> 'w st \<Rightarrow> bool" for view f
  by unfold_locales (auto intro: sparesRel_same sparesRel_trans)

text \<open>The idler's patches of deployments stay within the list it was given.\<close>

definition withinRel :: "('w \<Rightarrow> objects) \<Rightarrow> objref set \<Rightarrow> 'w st \<Rightarrow> 'w st \<Rightarrow> bool" where
  "withinRel view S s t \<longleftrightarrow> foreign (objectsOf view t) = foreign (objectsOf view s)
     \<and> list_all2 (\<lambda>d d'. refOfDeployment d' = refOfDeployment d \<and> (d' = d \<or> refOfDeployment d \<in> S))
         (cl_deployments (objectsOf view s)) (cl_deployments (objectsOf view t))"

interpretation within: effect "withinRel view S :: 'w st \<Rightarrow> 'w st \<Rightarrow> bool" for view S
proof
  fix s t u :: "'w st"
  show "withinRel view S s s" by (simp add: withinRel_def list_all2_refl)
  assume "withinRel view S s t" and "withinRel view S t u"
  then show "withinRel view S s u"
    by (fastforce simp: withinRel_def list_all2_conv_all_nth)
qed

lemma within_Patch:
  assumes "patchMerges P view" and "ref = refOfDeployment d" and "ref \<in> S" and "patchTyped ref p"
  shows "steps (withinRel view S) (Patch P ref p)"
proof (rule stepsI)
  fix s :: "'a st"
  let ?v = "objectsOf view s"
  have "withinRel view S s t" if "objectsOf view t = patchObject ref p ?v" for t :: "'a st"
  proof -
    have "list_all2 (\<lambda>d d'. refOfDeployment d' = refOfDeployment d \<and> (d' = d \<or> refOfDeployment d \<in> S))
        (cl_deployments ?v) (cl_deployments (patchObject ref p ?v))"
      using assms(2,3) by (auto simp: list_all2_conv_all_nth)
    then show ?thesis using that foreign_patch [OF assms(4)] by (simp add: withinRel_def)
  qed
  moreover have "withinRel view S s t" if "objectsOf view t = ?v" for t :: "'a st"
    using that by (simp add: withinRel_def list_all2_refl)
  moreover have "objectsOf view (snd (Patch P ref p s)) = (if fst (sendPatch P ref p (world s)) = None
      then patchObject ref p ?v else ?v)"
    using assms(1) by (simp add: Patch_def request_eval patchMerges_def)
  ultimately show "withinRel view S s (snd (Patch P ref p s))" by (simp split: if_splits)
qed

lemma idleDeployments_within:
  assumes "patchMerges P view"
  shows "steps (withinRel view (refOfDeployment ` set ds)) (idleDeployments P h ds fi fs)"
  unfolding idleDeployments_def idleOneDeployment_def
  by (intro within.steps_rules within_Patch [OF assms refl] idlePatch_typed) simp_all

lemma patchIngress_foreign:
  assumes "apiServer P view"
  shows "preserves (\<lambda>s. foreign (objectsOf view s)) (patchIngress P h namespace)"
proof -
  have api: "readsKeep P view" "patchMerges P view" using assms by (simp_all add: apiServer_def)
  have "preserves (\<lambda>s. foreign (objectsOf view s)) (ListIngresses P opts)" for opts
    using keeps_objects_read(4) [OF api(1)] by (rule steps_mono) simp
  then show ?thesis
    unfolding patchIngress_def patchOneIngress_def
    by (intro pres.steps_rules keeps_Patch [OF api(2)] preserves_countMetric foreign_patch
        typed.idle_ingress typed.idle_namespace) simp_all
qed

text \<open>The list the decision answers with holds what the selectors match.\<close>

lemma results_True: "results I m (\<lambda>x s. True)"
  by (simp add: results_def)

lemma serviceDecision_matching:
  assumes "apiServer P view"
    and "serviceDecision P h namespace fi fs s = (Ok (Some ds), t)"
  shows "ds = deploymentsMatching (ns_name namespace) (deploymentReqs h) (objectsOf view t)"
proof -
  have api: "readsKeep P view" "listsMatch P view" using assms(1) by (simp_all add: apiServer_def)
  let ?ns = "ns_name namespace"
  let ?I = "\<lambda>ds s. ds = deploymentsMatching ?ns (deploymentReqs h) (objectsOf view s)"
  let ?Q = "\<lambda>d s. \<forall>ds. d = Some ds \<longrightarrow> ?I ds s"
  have keep: "results (?I ds) m (\<lambda>_. ?I ds)" if "preserves (objectsOf view) m" for m :: "('a st, 'b) go" and ds
    using that by (auto simp: results_def dest: steps_run)
  have reqs: "results I (liftO (generateLabelRequirements P ss)) (\<lambda>x s. x = map requirementOf ss)" for ss and I :: "'a st \<Rightarrow> bool"
    by (rule results_liftO) (simp add: generateLabelRequirements_def appendRequirements_eq split: if_splits)
  have list: "results (\<lambda>s. x = deploymentReqs h) (ListDeployments P (inNamespace ?ns (Requirements x)))
      (\<lambda>r s. \<forall>ds. r = Inr ds \<longrightarrow> ?I ds s)" for x
    using api by (auto simp: results_def ListDeployments_def request_eval readsKeep_def listsMatch_def)
  have listed: "results (\<lambda>s. x = deploymentReqs h) (andThen (ListDeployments P (inNamespace ?ns (Requirements x))) f) Q"
    if "\<And>e. results (\<lambda>s. True) (f (Inl e)) Q" and "\<And>ds. results (?I ds) (f (Inr ds)) Q"
    for x and f :: "gerror + deployment list \<Rightarrow> ('a st, 'b) go" and Q
  proof (rule results_andThen [OF list])
    show "results (\<lambda>s. \<forall>ds. r = Inr ds \<longrightarrow> ?I ds s) (f r) Q" for r
      using that by (cases r) simp_all
  qed
  have loop: "preserves (objectsOf view) (forRange (checkDeployment P h namespace iv) xs b)" for iv xs b
    unfolding checkDeployment_def by (intro keeps_objects_rules keeps_objects_read [OF api(1)])
  have hits: "preserves (objectsOf view) (environmentHits P namespace iv)" for iv
    unfolding environmentHits_def by (intro keeps_objects_rules keeps_objects_read [OF api(1)])
  have "results (\<lambda>s. True) (serviceDecision P h namespace fi fs) ?Q"
    unfolding serviceDecision_def
    by (intro results_andThen [OF reqs] listed results_andThen [OF results_True] results_if)
      (simp_all only: sum.case, auto intro!: results_andThen [OF keep [OF loop]] results_andThen [OF keep [OF hits]]
        results_if results_option results_ret)
  from resultsD [OF this _ assms(2)] show ?thesis by simp
qed

lemma KubernetesServiceIdler_spares:
  assumes "apiServer P view" and "Selectors h = shippedSelectors"
    and "distinct (map refOfDeployment (cl_deployments f))"
    and "n \<in> set (cl_namespaces f)" and "ns_name n = ns_name namespace" and "optedIn n"
  shows "steps (sparesRel view f) (KubernetesServiceIdler P h namespace fi fs)"
  unfolding KubernetesServiceIdler_split
proof (rule stepsI)
  fix s :: "'a st"
  have api: "readsKeep P view" "patchMerges P view" using assms(1) by (simp_all add: apiServer_def)
  obtain d t where D: "serviceDecision P h namespace fi fs s = (d, t)" by fastforce
  have t: "objectsOf view t = objectsOf view s"
    using steps_run [OF keeps_objects_serviceDecision [OF api(1)] D] .
  have st: "sparesRel view f s t" by (rule sparesRel_same) (simp_all add: t)
  have action: "sparesRel view f t (snd (serviceAction P h namespace fi fs (Some ds) t))" if d: "d = Ok (Some ds)" for ds
  proof -
    obtain r u where I: "patchIngress P h namespace t = (r, u)" by fastforce
    have u: "cl_deployments (objectsOf view u) = cl_deployments (objectsOf view t)"
      "foreign (objectsOf view u) = foreign (objectsOf view t)"
      using steps_run [OF patchIngress_keeps_deployments [OF assms(1)] I]
        steps_run [OF patchIngress_foreign [OF assms(1)] I] by simp_all
    have tu: "sparesRel view f t u" by (rule sparesRel_same) (simp_all add: u)
    let ?w = "snd (idleDeployments P h ds fi fs u)"
    have "sparesRel view f u ?w"
      unfolding sparesRel_def
    proof (intro impI conjI)
      assume f: "foreign (objectsOf view u) = f"
      have within: "withinRel view (refOfDeployment ` set ds) u ?w"
        using idleDeployments_within [OF api(2)] by (rule stepsD)
      then show "foreign (objectsOf view ?w) = f" using f by (simp add: withinRel_def)
      have dist: "distinct (map refOfDeployment (cl_deployments (objectsOf view u)))"
        using assms(3) f refs_foreign(1) by metis
      have ds: "ds = deploymentsMatching (ns_name namespace) (deploymentReqs h) (objectsOf view t)"
        using serviceDecision_matching [OF assms(1)] D d by blast
      have ok: "mayIdle f (foreignDeployment x)" if "x \<in> set ds" for x
      proof -
        have "dep_namespace x = ns_name namespace" "expendable x"
          using that shipped_deployments [OF assms(2)] by (auto simp: ds deploymentsMatching_def)
        then show ?thesis
          using assms(4-6) by (auto simp: mayIdle_def expendable_foreign)
      qed
      have "x \<in> set ds" if "x \<in> set (cl_deployments (objectsOf view u))" "refOfDeployment x \<in> refOfDeployment ` set ds" for x
      proof -
        from that(2) obtain y where y: "y \<in> set ds" "refOfDeployment y = refOfDeployment x" by auto
        then have "y \<in> set (cl_deployments (objectsOf view u))" by (auto simp: ds deploymentsMatching_def u)
        with y that(1) dist have "x = y" by (auto simp: distinct_map dest: inj_onD)
        with y show ?thesis by simp
      qed
      with ok have allowed: "mayIdle f (foreignDeployment x)"
        if "x \<in> set (cl_deployments (objectsOf view u))" "refOfDeployment x \<in> refOfDeployment ` set ds" for x
        using that by blast
      have "list_all2 (\<lambda>d d'. refOfDeployment d' = refOfDeployment d \<and> (d' = d \<or> refOfDeployment d \<in> refOfDeployment ` set ds))
          (cl_deployments (objectsOf view u)) (cl_deployments (objectsOf view ?w))"
        using within unfolding withinRel_def by (rule conjunct2)
      then show "list_all2 (\<lambda>d d'. d' = d \<or> mayIdle f (foreignDeployment d))
          (cl_deployments (objectsOf view u)) (cl_deployments (objectsOf view ?w))"
        by (rule list.rel_mono_strong) (use allowed in blast)
    qed
    with tu have "sparesRel view f t ?w" by (rule sparesRel_trans)
    with tu show ?thesis
      using I by (cases r) (auto simp: serviceAction_def andThen_def ret_def split: option.splits)
  qed
  show "sparesRel view f s (snd (andThen (serviceDecision P h namespace fi fs) (serviceAction P h namespace fi fs) s))"
  proof (cases "\<exists>ds. d = Ok (Some ds)")
    case True
    with D action sparesRel_trans [OF st] show ?thesis by (auto simp: andThen_def)
  next
    case False
    with D st show ?thesis by (cases d) (auto simp: andThen_def serviceAction_def ret_def split: option.split)
  qed
qed

text \<open>A list of namespaces answers with those the selector matches.\<close>

definition namespacesMatch :: "'w platform \<Rightarrow> ('w \<Rightarrow> objects) \<Rightarrow> bool" where
  "namespacesMatch P view \<longleftrightarrow>
     (\<forall>rs w ns. fst (listNamespaces P \<lparr>lo_namespace = None, lo_selector = Some (Requirements rs)\<rparr> w) = Inr ns
        \<longrightarrow> ns = filter (\<lambda>n. list_all (meets (ns_labels n)) rs) (cl_namespaces (view w)))"

lemma serviceNamespace_spares:
  assumes "apiServer P view" and "Selectors h = shippedSelectors"
    and "distinct (map refOfDeployment (cl_deployments v))"
    and "n \<in> set (cl_namespaces v)" and "ns_labels n ''lagoon.sh/environmentType'' = Some ''development''"
  shows "steps (sparesRel view (foreign v)) (serviceNamespace P h n acc)"
proof -
  let ?n = "n\<lparr>ns_labels := hide owned (ns_labels n)\<rparr>"
  have "?n \<in> set (cl_namespaces (foreign v))" using assms(4) by (simp add: foreign_def)
  moreover have "distinct (map refOfDeployment (cl_deployments (foreign v)))"
    using assms(3) by (simp only: refs_foreign)
  ultimately have idler: "steps (sparesRel view (foreign v)) (KubernetesServiceIdler P h n fi fs)" if "optedIn n" for fi fs
    using that KubernetesServiceIdler_spares [OF assms(1,2), of "foreign v" ?n n] by (simp add: optedIn_foreign)
  have labels: "ProjectIdling (nsLabels (Selectors h)) = ''lagoon.sh/projectAutoIdle''"
    "EnvironmentIdling (nsLabels (Selectors h)) = ''lagoon.sh/environmentAutoIdle''"
    by (simp_all add: assms(2) shippedSelectors_def)
  show ?thesis
    unfolding serviceNamespace_def labels
    using assms(5)
    by (auto simp: optedIn_def split: option.split intro!: spares.steps_rules idler)
qed

text \<open>
  C17. With the configuration that ships with the controller, a run of the service idler changes a
  deployment only if its namespace is a development environment in which both auto-idle
  labels are set, and the deployment is one of an environment and neither the CLI, nor a
  database, nor a build, nor a storage calculator; every other deployment of the cluster is
  left exactly as it was, whatever requests fail.
\<close>

theorem shipped_idler_spares:
  assumes "apiServer P view" and "namespacesMatch P view" and "Selectors h = shippedSelectors"
    and "distinct (map refOfDeployment (cl_deployments (objectsOf view s)))"
  shows "list_all2 (\<lambda>d d'. d' = d \<or> mayIdle (objectsOf view s) d)
     (cl_deployments (objectsOf view s)) (cl_deployments (objectsOf view (snd (ServiceIdler P h s))))"
proof -
  let ?v = "objectsOf view s"
  let ?reqs = "map requirementOf (svc_Namespace (service (Selectors h)))"
  let ?opts = "\<lparr>lo_namespace = None, lo_selector = Some (Requirements ?reqs)\<rparr>"
  have same: "sparesRel view (foreign ?v) s s" by (rule sparesRel_same) simp_all
  have "sparesRel view (foreign ?v) s (snd (ServiceIdler P h s))"
  proof (cases "generateLabelRequirements P (svc_Namespace (service (Selectors h)))")
    case (Panic p)
    then show ?thesis using same by (simp add: ServiceIdler_def panic_def)
  next
    case (Ok reqs)
    then have reqs: "reqs = ?reqs"
      by (simp add: generateLabelRequirements_def appendRequirements_eq split: if_splits)
    obtain r t where L: "ListNamespaces P ?opts s = (Ok r, t)" and r: "r = fst (listNamespaces P ?opts (world s))"
      by (simp add: ListNamespaces_def request_eval)
    have t: "objectsOf view t = ?v"
      using steps_run [OF keeps_objects_read(1) L] assms(1) by (simp add: apiServer_def)
    have st: "sparesRel view (foreign ?v) s t" by (rule sparesRel_same) (simp_all add: t)
    show ?thesis
    proof (cases r)
      case (Inl e)
      with Ok L st show ?thesis by (simp add: ServiceIdler_def reqs andThen_Ok ret_def)
    next
      case (Inr ns)
      then have "ns = filter (\<lambda>n. list_all (meets (ns_labels n)) ?reqs) (cl_namespaces ?v)"
        using assms(2) r unfolding namespacesMatch_def by metis
      then have "n \<in> set (cl_namespaces ?v) \<and> ns_labels n ''lagoon.sh/environmentType'' = Some ''development''"
        if "n \<in> set ns" for n
        using that by (auto simp: assms(3) shippedSelectors_def selectorFor_def requirementOf_def meets_def split: option.splits)
      then have "steps (sparesRel view (foreign ?v)) (forRange (serviceNamespace P h) ns ())"
        by (intro spares.steps_forRange serviceNamespace_spares assms(1,3,4)) auto
      from sparesRel_trans [OF st stepsD [OF this]] Ok L Inr show ?thesis
        by (simp add: ServiceIdler_def reqs andThen_Ok)
    qed
  qed
  then have "list_all2 (\<lambda>d d'. d' = d \<or> mayIdle (foreign ?v) (foreignDeployment d)) (cl_deployments ?v)
      (cl_deployments (objectsOf view (snd (ServiceIdler P h s))))"
    by (simp add: sparesRel_def)
  then show ?thesis by (simp add: mayIdle_foreign)
qed

end
