(* ===== verification/Witnesses.thy ===== *)
theory Witnesses
  imports Samples ServiceIdlerProps HandlerProps UnidleProps Reconciler Locks Setup
begin

text \<open>
  Each property with hypotheses, applied to a concrete cluster on which they hold.
\<close>

section \<open>The service idler\<close>

theorem running_build_blocks_idling_witness:
  "KubernetesServiceIdler clusterPlatform (sampleIdler False) sampleNamespace True False
       (start (sampleCluster [buildPod]))
     = (Ok (), (start (sampleCluster [buildPod]))\<lparr>calls :=
         [CList KPod (inNamespace ''shop-main'' (Requirements [requirementOf hasBuild]))]\<rparr>)"
  using running_build_blocks_idling [of "sampleIdler False" clusterPlatform
      "inNamespace ''shop-main'' (Requirements [requirementOf hasBuild])" sampleNamespace
      "start (sampleCluster [buildPod])" "[buildPod]" "sampleCluster [buildPod]" buildPod True False]
  by (simp add: sample_defs cluster_eval requirementOf_def selectorOk_def)

theorem dry_run_never_patches_witness:
  "\<exists>new. calls (snd (ServiceIdler clusterPlatform (sampleIdler True) (start (sampleCluster [])))) = new
      \<and> \<not> list_ex isPatch new"
  using dry_run_never_patches [of "sampleIdler True" clusterPlatform sampleNamespace True False
      "start (sampleCluster [])"]
  by (simp add: sampleIdler_def start_def)

theorem forced_skips_hit_check_witness:
  "\<not> list_ex isProm (calls (snd (KubernetesServiceIdler clusterPlatform (sampleIdler False)
        sampleNamespace True False (start (sampleCluster [samplePod ''Running''])))))"
  using forced_skips_hit_check [of True False clusterPlatform "sampleIdler False" sampleNamespace
      "start (sampleCluster [samplePod ''Running''])"]
  by (simp add: start_def)

theorem idleDeployments_patches_witness:
  "fst (idleDeployments clusterPlatform (sampleIdler False) [sampleDeployment, cronDeployment] True False
        (start (sampleCluster []))) = Ok ()"
  using idleDeployments_patches [of "sampleIdler False" "[sampleDeployment, cronDeployment]"
      clusterPlatform True False "start (sampleCluster [])"]
  by (simp add: sample_defs)

theorem checkDeployment_ignores_replicas_witness:
  "fst (checkDeployment clusterPlatform (sampleIdler False) sampleNamespace (hours 4)
         (sampleDeployment\<lparr>dep_replicas := Some 0\<rparr>) False (start (sampleCluster [samplePod ''Running''])))
     = Ok (Continue True)"
  using checkDeployment_ignores_replicas [of "sampleDeployment\<lparr>dep_replicas := Some 0\<rparr>" 0
      "inNamespace ''shop-main'' (LabelSet [''lagoon.sh/service'' \<mapsto> ''web''])" sampleNamespace
      "sampleIdler False" clusterPlatform "start (sampleCluster [samplePod ''Running''])"
      "[samplePod ''Running'']" "sampleCluster [samplePod ''Running'']" "hours 4" False]
  by (simp add: sample_defs cluster_eval timeSince_def satDuration_def)

section \<open>The CLI idler\<close>

theorem cron_jobs_protect_witness:
  "cliDeployment clusterPlatform (sampleIdler False) sampleNamespace cronDeployment () (start (sampleCluster []))
     = (Ok (Continue ()), start (sampleCluster []))"
  using cron_jobs_protect [of "sampleIdler False" cronDeployment 3
      "\<lparr>con_env = [\<lparr>env_name = ''CRONJOBS'', env_value = ''* * * * *''\<rparr>]\<rparr>"
      "\<lparr>env_name = ''CRONJOBS'', env_value = ''* * * * *''\<rparr>"
      clusterPlatform sampleNamespace "start (sampleCluster [])"]
  by (simp add: sample_defs)

theorem cli_dry_run_never_patches_witness:
  "\<not> list_ex isPatch (calls (snd (CLIIdler clusterPlatform (sampleIdler True) (start (sampleCluster [])))))"
  using cli_dry_run_never_patches [of "sampleIdler True" clusterPlatform "start (sampleCluster [])"]
  by (simp add: sampleIdler_def start_def)

section \<open>Runs evaluated on the sample cluster\<close>

lemma sample_ingress_run:
  "fst (patchIngress clusterPlatform (sampleIdler False) sampleNamespace (start (sampleCluster []))) = Ok None"
  by (simp add: patchIngress_def sample_defs generateLabelRequirements_def appendRequirements_eq andThen_def liftO_def
     ListIngresses_def request_eval patchOneIngress_def Patch_def ret_def countMetric_def cluster_eval)

theorem patchIngress_success_witness:
  "\<exists>t opts ings w. patchIngress clusterPlatform (sampleIdler False) sampleNamespace (start (sampleCluster [])) = (Ok None, t)
     \<and> listIngresses clusterPlatform opts (sampleCluster []) = (Inr ings, w)
     \<and> calls t = [CList KIngress opts]
          @ map (\<lambda>i. CPatch (refOfIngress i) (ingressPatch i)) ings
          @ (if ings = [] then []
             else [CPatch (NamespaceRef ''shop-main'') (idledLabelPatch ''true'')])"
proof -
  obtain t where t: "patchIngress clusterPlatform (sampleIdler False) sampleNamespace (start (sampleCluster [])) = (Ok None, t)"
    using sample_ingress_run by (metis prod.collapse)
  have "\<not> DryRun (sampleIdler False)" "\<not> svc_SkipIngressPatch (service (Selectors (sampleIdler False)))"
    by (simp_all add: sample_defs)
  from patchIngress_success [OF this t] obtain opts ings w
    where "listIngresses clusterPlatform opts (sampleCluster []) = (Inr ings, w)"
      and "calls t = [CList KIngress opts]
          @ map (\<lambda>i. CPatch (refOfIngress i) (ingressPatch i)) ings
          @ (if ings = [] then []
             else [CPatch (NamespaceRef ''shop-main'') (idledLabelPatch ''true'')])"
    unfolding start_def sampleNamespace_def by auto
  with t show ?thesis by blast
qed

lemma atoi_zero: "atoi ''0'' = (0, True)"
  using atoi_showNat [of 0] by (simp add: showNat.simps digitChar_def)

lemma sample_idle_run:
  "list_ex isPatch (calls (snd (KubernetesServiceIdler clusterPlatform (sampleIdler False) sampleNamespace False False
      (start (sampleCluster [samplePod ''Running''])))))"
  by (simp add: KubernetesServiceIdler_def idleEnvironment_def Let_def patchIngress_def sample_defs generateLabelRequirements_def appendRequirements_eq andThen_def liftO_def
     ListIngresses_def ListPods_def ListDeployments_def PromQuery_def request_eval patchOneIngress_def Patch_def ret_def countMetric_def cluster_eval
     serviceRunningBuild_def checkDeployment_def differsFromFresh_def selectorOk_def requirementOf_def timeSince_def satDuration_def intervalOverride_def environmentHits_def
     idleDeployments_def idleOneDeployment_def atoi_zero)

theorem patches_need_zero_hits_witness:
  "\<exists>w v1 warn1 w1 v2 warn2 w2.
     promQuery clusterPlatform (nginxQuery ''shop-main'' (hours 4)) w = (Inr (v1, warn1), w1)
     \<and> promQuery clusterPlatform (traefikQuery ''shop-main'' (hours 4)) w1 = (Inr (v2, warn2), w2)
     \<and> vectorHits (vectorHits 0 v1) v2 = 0"
proof -
  let ?s = "start (sampleCluster [samplePod ''Running''])"
  let ?new = "calls (snd (KubernetesServiceIdler clusterPlatform (sampleIdler False) sampleNamespace False False ?s))"
  have "\<not> svc_SkipHitCheck (service (Selectors (sampleIdler False)))"
    by (simp add: sampleIdler_def sampleSelectors_def)
  moreover have "?new = calls ?s @ ?new" by (simp add: start_def)
  ultimately have "\<exists>w v1 warn1 w1 v2 warn2 w2 pre post.
     (let i = intervalOverride (PrometheusCheckInterval (sampleIdler False)) ''idling.amazee.io/prometheus-interval'' sampleNamespace;
          q1 = nginxQuery (ns_name sampleNamespace) i; q2 = traefikQuery (ns_name sampleNamespace) i
      in promQuery clusterPlatform q1 w = (Inr (v1, warn1), w1) \<and> promQuery clusterPlatform q2 w1 = (Inr (v2, warn2), w2)
         \<and> vectorHits (vectorHits 0 v1) v2 = 0
         \<and> ?new = pre @ [CProm q1, CProm q2] @ post \<and> \<not> list_ex isPatch pre)"
    using sample_idle_run by (rule patches_need_zero_hits)
  moreover have "intervalOverride (PrometheusCheckInterval (sampleIdler False))
      ''idling.amazee.io/prometheus-interval'' sampleNamespace = hours 4" "ns_name sampleNamespace = ''shop-main''"
    by (simp_all add: sampleNamespace_def sampleIdler_def intervalOverride_def)
  ultimately show ?thesis
    unfolding Let_def by metis
qed

lemma sample_exec:
  "execPod clusterPlatform ''web-1'' ''shop-main'' processCommand False False (start (sampleCluster []))
    = (Ok (Inr (showNat 20 @ [CHR 0x0A], '''')),
       (start (sampleCluster []))\<lparr>calls := [CExec ''web-1'' ''shop-main'' processCommand]\<rparr>)"
  by (simp add: execPod_def processCommand_def cluster_eval andThen_def ExecStream_def request_eval ret_def start_def
     sampleCluster_def showNat.simps digitChar_def Let_def)

theorem cliPod_scales_iff_witness:
  "list_ex isPatch (calls (snd (cliPod clusterPlatform (sampleIdler False) sampleNamespace sampleDeployment
      (samplePod ''Running'') () (start (sampleCluster [])))))"
  using cliPod_scales_iff [of "sampleIdler False" clusterPlatform "samplePod ''Running''" sampleNamespace
      "start (sampleCluster [])" 20 "''''" "(start (sampleCluster []))\<lparr>calls := [CExec ''web-1'' ''shop-main'' processCommand]\<rparr>" sampleDeployment] sample_exec
  by (simp add: sampleIdler_def sampleSelectors_def samplePod_def sampleNamespace_def)

section \<open>The request handler\<close>

lemma sample_code:
  "responseCode sampleUnidler (sampleRequest ''503'' q) = 503"
  "responseCode sampleUnidler (sampleRequest ''0'' q) = 0"
  "responseCode sampleUnidler bareRequest = 404"
proof -
  have "atoi ''503'' = (503, True)"
    using atoi_showNat [of 503] by (simp add: showNat.simps digitChar_def)
  then show "responseCode sampleUnidler (sampleRequest ''503'' q) = 503"
    by (simp add: responseCode_def headerGet_def canonical_keys sampleRequest_def)
  show "responseCode sampleUnidler (sampleRequest ''0'' q) = 0"
    by (simp add: responseCode_def headerGet_def canonical_keys sampleRequest_def atoi_zero)
  show "responseCode sampleUnidler bareRequest = 404"
    by (simp add: responseCode_def headerGet_def bareRequest_def atoi_def parseUint_def sampleUnidler_def)
qed

theorem client_sees_error_code_witness:
  "\<exists>hdr. r_status (resp (snd (ingressHandler clusterPlatform sampleUnidler ''/www''
        (sampleRequest ''503'' '''') (start (sampleCluster []))))) = Some (503, hdr)
     \<and> hdr ''X-Aergia'' = Some ''true'' \<and> hdr ''X-Aergia-Allowed'' = None"
proof -
  have "resp (start (sampleCluster [])) = newResponse" by (simp add: start_def)
  from client_sees_error_code [OF this, of sampleUnidler "sampleRequest ''503'' ''''" clusterPlatform "''/www''"]
  show ?thesis by (auto simp: sample_code)
qed

theorem invalid_code_panics_witness:
  "fst (ingressHandler clusterPlatform sampleUnidler ''/www'' (sampleRequest ''0'' '''')
      (start (sampleCluster []))) = Panic ''invalid WriteHeader code''"
proof -
  have "resp (start (sampleCluster [])) = newResponse" by (simp add: start_def)
  from invalid_code_panics [OF this, of sampleUnidler "sampleRequest ''0'' ''''" clusterPlatform "''/www''"]
  show ?thesis by (auto simp: sample_code)
qed

lemma sample_query: "queryGet (sampleRequest c ''url=x'') ''url'' = ''x''"
  by (simp add: queryGet_def sampleRequest_def queryPair_def cutAt_def map_filter_simps)

theorem bad_url_panics_witness:
  "fst (ingressHandler badUrlPlatform sampleUnidler ''/www'' (sampleRequest ''503'' ''url=x'')
      (start (sampleCluster []))) = Panic ''nil pointer dereference''"
proof -
  have "resp (start (sampleCluster [])) = newResponse" by (simp add: start_def)
  from bad_url_panics [OF this, of sampleUnidler "sampleRequest ''503'' ''url=x''" badUrlPlatform "''/www''"]
  show ?thesis by (auto simp: sample_code sample_query badUrlPlatform_def)
qed


theorem no_namespace_request_witness:
  "\<exists>t d. ingressHandler clusterPlatform sampleUnidler ''/www'' bareRequest (start (sampleCluster [])) = (Ok (), t)
     \<and> r_body (resp t) = [Page (''/www'' @ ''/error.html'') d] \<and> pd_ErrorMessage d = ''Not Found''
     \<and> spawned t = []"
proof -
  have s: "resp (start (sampleCluster [])) = newResponse" by (simp add: start_def)
  have q: "queryGet bareRequest k = ''''" for k
    by (simp add: queryGet_def bareRequest_def queryPair_def map_filter_simps)
  have "requestNamespace bareRequest = ''''" "requestHostname clusterPlatform bareRequest = Ok ''''"
    "templateParses clusterPlatform (''/www'' @ ''/error.html'')"
    using q by (simp_all add: requestNamespace_def requestHostname_def headerGet_def clusterPlatform_def)
      (simp add: bareRequest_def)
  from no_namespace_request [OF s _ _ _ this, of sampleUnidler]
  show ?thesis
    by (auto simp: sample_code bodyAllowed_def statusText_def statusTexts_def start_def)
qed

section \<open>Access rules\<close>


theorem forwarded_address_keeps_space_witness:
  "\<not> checkIPList [''10.0.0.1''] (splitOn (CHR '','') (''9.9.9.9'' @ '', '' @ ''10.0.0.1'')) ''''"
  using forwarded_address_keeps_space [of "''10.0.0.1''" "[''10.0.0.1'']" "''9.9.9.9''"]
  by (simp add: checkIPList_iff clientAddresses_def splitOn_no_sep)

theorem generateLabelRequirements_eq_witness:
  "generateLabelRequirements clusterPlatform [hasBuild, isCli] = Ok [requirementOf hasBuild, requirementOf isCli]"
  using generateLabelRequirements_eq [of clusterPlatform "[hasBuild, isCli]"]
  by (simp add: selectorOk_def clusterPlatform_def hasBuild_def isCli_def)

section \<open>Unidling and the round trips\<close>

theorem Unidle_releases_own_lock_witness:
  "locks (snd (Unidle clusterPlatform sampleNamespace
      ((start (sampleCluster []))\<lparr>locks := [''shop-main'' \<mapsto> ''shop-main'', ''other'' \<mapsto> ''other'']\<rparr>)))
     = [''other'' \<mapsto> ''other'']"
  using Unidle_releases_own_lock [OF pollRunsCondition_cluster, of sampleNamespace
      "(start (sampleCluster []))\<lparr>locks := [''shop-main'' \<mapsto> ''shop-main'', ''other'' \<mapsto> ''other'']\<rparr>"]
  by (simp add: sampleNamespace_def fun_eq_iff)

definition idledDeployment :: deployment where
  "idledDeployment = sampleDeployment\<lparr>dep_replicas := Some 0,
     dep_labels := [''idling.amazee.io/watch'' \<mapsto> ''true'', ''idling.amazee.io/idled'' \<mapsto> ''true''],
     dep_annotations := [''idling.amazee.io/unidle-replicas'' \<mapsto> ''2'']\<rparr>"

definition idledCluster :: cluster where
  "idledCluster = (sampleCluster [samplePod ''Running''])\<lparr>cl_deployments := [idledDeployment, sampleDeployment]\<rparr>"

theorem unidle_scales_idled_witness:
  "\<exists>new. calls (snd (Unidle clusterPlatform sampleNamespace (start idledCluster))) = new
     \<and> filter isDeploymentPatch new
         = [CPatch (DeploymentRef ''shop-main'' ''web'') (unidlePatch (unidleReplicas idledDeployment))]"
proof -
  have "newRequirementOk clusterPlatform ''idling.amazee.io/watch'' ''='' [''true'']"
    by (simp add: clusterPlatform_def)
  moreover have "listDeployments clusterPlatform (inNamespace (ns_name sampleNamespace) (Requirements
            [\<lparr>req_key = ''idling.amazee.io/watch'', req_op = ''='', req_values = [''true'']\<rparr>]))
            (world (start idledCluster)) = (Inr [idledDeployment, sampleDeployment], idledCluster)"
    by (simp add: cluster_eval idledCluster_def idledDeployment_def sample_defs)
  moreover have "\<forall>d \<in> set [idledDeployment, sampleDeployment]. dep_replicas d \<noteq> None"
    by (simp add: idledDeployment_def sampleDeployment_def)
  ultimately obtain new where "calls (snd (Unidle clusterPlatform sampleNamespace (start idledCluster)))
      = calls (start idledCluster) @ new"
    "filter isDeploymentPatch new = map (\<lambda>d. CPatch (refOfDeployment d) (unidlePatch (unidleReplicas d)))
       (filter needsScaling [idledDeployment, sampleDeployment])"
    using unidle_scales_idled [OF pollRunsCondition_cluster] by blast
  then show ?thesis
    by (simp add: start_def needsScaling_def idledDeployment_def sampleDeployment_def)
qed

definition foreignPod :: pod where
  "foreignPod = (samplePod ''Running'')\<lparr>pod_namespace := ''other-main''\<rparr>"

theorem hasRunningPod_any_namespace_witness:
  "fst (hasRunningPod clusterPlatform ''shop-main'' ''web'' (start (sampleCluster [foreignPod]))) = Ok (Inr True)"
  using hasRunningPod_any_namespace [of clusterPlatform "''shop-main''" "''web''"
      "start (sampleCluster [foreignPod])" sampleDeployment "sampleCluster [foreignPod]"
      "[''lagoon.sh/service'' \<mapsto> ''web'']"
      "\<lparr>lo_namespace = None, lo_selector = Some (LabelSet [''lagoon.sh/service'' \<mapsto> ''web''])\<rparr>"
      "[foreignPod]" "sampleCluster [foreignPod]"]
  by (simp add: cluster_eval foreignPod_def sample_defs)


theorem idling_twice_loses_replicas_witness:
  "dep_replicas (afterUnidle (afterIdle False False ''later'' (afterIdle True False ''now'' sampleDeployment)))
     = Some 1"
  using idling_twice_loses_replicas [of sampleDeployment 3 False False "''later''" True False "''now''"]
  by (simp add: sampleDeployment_def)

theorem ingress_roundtrip_witness:
  "ing_annotations (ingressAfterUnidle (ingressAfterIdle sampleIngress))
     ''nginx.ingress.kubernetes.io/custom-http-errors'' = Some ''404''"
  using ingress_roundtrip [of sampleIngress]
  by (simp add: sampleIngress_def annotationValue_def codesAfterCycle_def)

section \<open>The reconciler\<close>

definition labelled :: "string \<Rightarrow> namespace" where
  "labelled l = sampleNamespace\<lparr>ns_labels := [l \<mapsto> ''true'']\<rparr>"

definition labelledCluster :: "string \<Rightarrow> pod list \<Rightarrow> cluster" where
  "labelledCluster l pods = (sampleCluster pods)\<lparr>cl_namespaces := [labelled l]\<rparr>"

lemma get_labelled:
  "getNamespace clusterPlatform ''shop-main'' (world (start (labelledCluster l pods)))
     = (Inr (labelled l), labelledCluster l pods)"
  by (simp add: clusterPlatform_def labelledCluster_def labelled_def sample_defs found_def)

theorem force_request_lost_during_build_witness:
  "last (calls (snd (Reconcile clusterPlatform (sampleIdler False) ''shop-main''
      (start (labelledCluster ''idling.amazee.io/force-scaled'' [buildPod])))))
     = CPatch (NamespaceRef ''shop-main'') (removeLabelPatch ''idling.amazee.io/force-scaled'')"
  using force_request_lost_during_build [OF get_labelled, of "''idling.amazee.io/force-scaled''"
      "sampleIdler False" "inNamespace ''shop-main'' (Requirements [requirementOf hasBuild])" "[buildPod]"
      "[buildPod]" "labelledCluster ''idling.amazee.io/force-scaled'' [buildPod]" buildPod]
  by (simp add: cluster_eval labelledCluster_def labelled_def sample_defs selectorOk_def requirementOf_def
      hasLabel_def)

theorem reconcile_drops_lock_witness:
  "locks (snd (Reconcile clusterPlatform (sampleIdler False) ''shop-main''
      (start (labelledCluster ''idling.amazee.io/unidle'' [])))) ''shop-main'' = None"
  using reconcile_drops_lock [OF get_labelled, of "''idling.amazee.io/unidle''" "sampleIdler False" "[]"]
  by (simp add: activeLabel_def hasLabel_def labelled_def sampleNamespace_def)


section \<open>The lock\<close>

theorem startUnidle_is_steps_witness:
  "lsteps (lockView ''shop-main'' (\<lambda>t. AtLoad) (start ()))
     (lockView ''shop-main'' ((\<lambda>t. AtLoad)(0 := Served))
        (snd (startUnidle ''shop-main'' sampleNamespace (start ()))))"
  by (rule startUnidle_is_steps) (simp_all add: sampleNamespace_def)

theorem lock_never_stuck_witness: "\<exists>s'. lsteps lock_init s' \<and> \<not> held s'"
  by (rule lock_never_stuck) (simp add: reachable_def)

section \<open>Configuration\<close>

theorem podInterval_plain_hours_witness: "podInterval (showNat 4) = Some (4 * hour)"
  using podInterval_plain_hours [of 4] by simp

theorem ReadSliceFromFile_lines_witness:
  "ReadSliceFromFile sampleSurroundings ''/lists/blockedips'' = (Some [''a'', ''b''], True)"
  by (rule ReadSliceFromFile_lines) (simp_all add: sampleSurroundings_def)

end
