(* ===== verification/ClusterWitnesses.thy ===== *)
theory ClusterWitnesses
  imports Witnesses EndToEnd Cycle Drain PatchTypes Wake Race Visit
begin

text \<open>
  The end-to-end properties, applied to the sample cluster, which obeys the laws of ApiServer.
\<close>

section \<open>A platform whose pods print\<close>

definition printingPlatform :: "cluster platform" where
  "printingPlatform = clusterPlatform\<lparr>execStream := (\<lambda>req c. (Inr (showNat 0 @ [CHR 0x0A], ''''), c))\<rparr>"

lemma printing_laws:
  "apiServer printingPlatform objects.truncate" "getsMatch printingPlatform objects.truncate"
  "answers printingPlatform objects.truncate" "pollRunsCondition printingPlatform"
  using apiServer_cluster getsMatch_cluster answers_cluster pollRunsCondition_cluster
  by (simp_all add: apiServer_def readsKeep_def patchMerges_def listsMatch_def getsMatch_def answers_def
      pollRunsCondition_def waitPoll_def printingPlatform_def)

lemma waitPoll_printing: "waitPoll printingPlatform = pollTimes 91"
  by (simp add: fun_eq_iff waitPoll_def printingPlatform_def flip: waitPoll_cluster)

lemma returning_pollTimes: "returning I cond \<Longrightarrow> returning I (pollTimes n cond)"
  by (induction n) (auto intro!: returns_rules)

lemma working_sample: "working printingPlatform objects.truncate (sampleIdler False)"
proof -
  have "trimSpace (showNat 0 @ [CHR 0x0A]) = showNat 0"
    by (rule trimSpace_line) (simp_all add: showNat_digits)
  then have "execPrints printingPlatform"
    by (simp add: execPrints_def printingPlatform_def)
  moreover have "pollReturns printingPlatform"
    by (simp add: pollReturns_def waitPoll_printing returning_pollTimes)
  moreover have "configOk printingPlatform (sampleIdler False)"
    by (simp add: configOk_def selectorOk_def printingPlatform_def clusterPlatform_def sample_defs)
  ultimately show ?thesis
    using printing_laws by (simp add: working_def printingPlatform_def clusterPlatform_def)
qed

interpretation sample: total_runs "healthyIn objects.truncate" printingPlatform "sampleIdler False"
  using working_sample by (rule working_total)

lemma healthy_sample: "healthyIn objects.truncate (start (sampleCluster pods))"
  by (simp add: healthy_def sound_def sample_defs objects.defs)

section \<open>Witnesses\<close>


theorem idled_environment_can_wake_witness:
  "\<exists>j \<in> set (cl_ingresses (objects.truncate (world (snd (KubernetesServiceIdler clusterPlatform (sampleIdler False)
      sampleNamespace True False (start (sampleCluster []))))))). refOfIngress j = refOfIngress sampleIngress \<and> marked j"
proof (rule idled_environment_can_wake [OF apiServer_cluster _ _ refl])
  show "\<not> svc_SkipIngressPatch (service (Selectors (sampleIdler False)))" by (simp add: sample_defs)
  show "CHR '','' \<notin> set (ns_name sampleNamespace)" by (simp add: sample_defs)
  show "sampleIngress \<in> set (ingressesMatching (ns_name sampleNamespace)
      (map requirementOf (svc_Ingress (service (Selectors (sampleIdler False)))))
      (objects.truncate (world (start (sampleCluster [])))))"
    by (simp add: ingressesMatching_def sample_defs objects.defs)
  have "dep_replicas (hd (cl_deployments (world (snd (KubernetesServiceIdler clusterPlatform (sampleIdler False)
      sampleNamespace True False (start (sampleCluster []))))))) = Some 0"
    by (simp add: KubernetesServiceIdler_def idleEnvironment_def Let_def patchIngress_def sample_defs generateLabelRequirements_def
      appendRequirements_eq andThen_def liftO_def ListIngresses_def ListPods_def ListDeployments_def request_eval
      patchOneIngress_def Patch_def ret_def countMetric_def cluster_eval serviceRunningBuild_def checkDeployment_def
      differsFromFresh_def selectorOk_def requirementOf_def intervalOverride_def idleDeployments_def
      idleOneDeployment_def mergeReplicas_def idlePatch_def)
  moreover have "dep_replicas (hd (cl_deployments (world (start (sampleCluster []))))) = Some 3"
    by (simp add: sample_defs)
  ultimately show "cl_deployments (objects.truncate (world (snd (KubernetesServiceIdler clusterPlatform (sampleIdler False)
      sampleNamespace True False (start (sampleCluster [])))))) \<noteq> cl_deployments (objects.truncate (world (start (sampleCluster []))))"
    by (auto simp: objects.defs)
qed



theorem foreign_data_kept_witness:
  "foreign (objects.truncate (world (snd (Unidle clusterPlatform sampleNamespace (start (sampleCluster []))))))
     = foreign (objects.truncate (sampleCluster []))"
proof -
  have laws: "readsKeep clusterPlatform objects.truncate" "patchMerges clusterPlatform objects.truncate"
    using apiServer_cluster by (simp_all add: apiServer_def)
  show ?thesis
    using foreign_data_kept [OF laws pollRunsCondition_cluster, where s = "start (sampleCluster [])" and namespace = sampleNamespace]
    by (simp add: start_def)
qed

theorem reconciler_settles_witness:
  "\<exists>t namespace'. reconcileRounds printingPlatform (sampleIdler False) ''shop-main'' 3
      (start (labelledCluster ''idling.amazee.io/unidle'' [samplePod ''Running''])) = (Ok (), t)
    \<and> filter (\<lambda>n. ns_name n = ''shop-main'') (cl_namespaces (objects.truncate (world t))) = [namespace']
    \<and> activeLabel namespace' = None"
proof -
  let ?s = "start (labelledCluster ''idling.amazee.io/unidle'' [samplePod ''Running''])"
  have "healthyIn objects.truncate ?s"
    by (simp add: healthy_def sound_def labelledCluster_def sample_defs objects.defs)
  moreover have "filter (\<lambda>n. ns_name n = ''shop-main'') (cl_namespaces (objects.truncate (world ?s)))
      = [labelled ''idling.amazee.io/unidle'']"
    by (simp add: labelledCluster_def labelled_def sample_defs objects.defs)
  ultimately show ?thesis
    using reconciler_settles [OF working_sample printing_laws(3,4)] by blast
qed


section \<open>A visit\<close>

definition visitRequest :: http_request where
  "visitRequest = (sampleRequest ''503'' [])\<lparr>rq_header := (rq_header (sampleRequest ''503'' []))(''X-Ingress-Name'' \<mapsto> [''web''])\<rparr>"

lemma visit_request:
  "responseCode sampleUnidler visitRequest = 503" "requestHostname printingPlatform visitRequest = Ok ''''"
  "requestNamespace visitRequest = ''shop-main''" "headerGet visitRequest IngressName = ''web''"
  "requestAllowed printingPlatform sampleUnidler visitRequest sampleNamespace sampleIngress"
  "requestVerified sampleUnidler visitRequest sampleNamespace sampleIngress"
proof -
  have q: "queryGet visitRequest k = ''''" for k
    by (simp add: queryGet_def visitRequest_def sampleRequest_def queryPair_def map_filter_simps)
  have "responseCode sampleUnidler visitRequest = responseCode sampleUnidler (sampleRequest ''503'' [])"
    by (simp add: responseCode_def headerGet_def keys visitRequest_def sampleRequest_def)
  then show "responseCode sampleUnidler visitRequest = 503" by (simp only: sample_code)
  show "requestHostname printingPlatform visitRequest = Ok ''''" by (simp add: requestHostname_def q)
  show "requestNamespace visitRequest = ''shop-main''"
  proof -
    have "headerGet visitRequest NamespaceHeader = ''shop-main''"
      by (simp add: headerGet_def keys visitRequest_def sampleRequest_def)
    then show ?thesis by (simp add: requestNamespace_def q)
  qed
  show "headerGet visitRequest IngressName = ''web''"
    by (simp add: headerGet_def keys visitRequest_def)
  show "requestAllowed printingPlatform sampleUnidler visitRequest sampleNamespace sampleIngress"
    by (simp add: requestAllowed_def checkAccess_iff effectiveList_def sampleUnidler_def sampleNamespace_def
        sampleIngress_def)
  show "requestVerified sampleUnidler visitRequest sampleNamespace sampleIngress"
    by (simp add: requestVerified_def sampleUnidler_def)
qed


end
