(* ===== verification/CrowdWitnesses.thy ===== *)
theory CrowdWitnesses
  imports ClusterWitnesses Crowd Race Shipped
begin

text \<open>
  The properties of interleaved goroutines on the sample cluster, with an environment that is
  asleep and two \<open>Unidle\<close>s of it whose requests alternate, and a pod that starts meanwhile.
\<close>

section \<open>The sample platform under tracing\<close>

abbreviation "pollsOf n \<equiv> \<lambda>interval timeout immediate. pollTimes n"

abbreviation "poll1 \<equiv> pollsOf (Suc 0)"

abbreviation "tracingSample \<equiv> tracing printingPlatform poll1"

lemma poll_laws: "pollRunsCondition (tracing P (pollsOf n))" "pollReturns (tracing P (pollsOf n))"
  by (simp_all add: pollRunsCondition_def keeps_pollTimes pollReturns_def returning_pollTimes)

lemma mirrors_pollTimes: "mirrors cur now cond' cond \<Longrightarrow> mirrors cur now (pollTimes n cond') (pollTimes n cond)"
  by (induction n) (auto intro!: mirrors_code)

section \<open>The trace of one Unidle, in the worlds it finds\<close>

definition scaledUp :: "cluster \<Rightarrow> cluster" where
  "scaledUp c = patchObject (DeploymentRef ''shop-main'' ''web'') (unidlePatch 1) c"

definition relabelled :: "cluster \<Rightarrow> cluster" where
  "relabelled c = patchObject (NamespaceRef ''shop-main'') unidledLabelPatch c"

text \<open>The step of the rest of the world: the pod of the deployment starts.\<close>

definition podStarted :: "cluster \<Rightarrow> cluster" where
  "podStarted c = c\<lparr>cl_pods := [samplePod ''Running'']\<rparr>"

definition podsOnly :: "cluster \<Rightarrow> cluster \<Rightarrow> bool" where
  "podsOnly c d \<longleftrightarrow> objects.truncate d = objects.truncate c"

lemma podsOnly_laws: "podsOnly c (podStarted c)" "considerate objects.truncate podsOnly" "lenient objects.truncate ns podsOnly"
  by (simp_all add: podsOnly_def podStarted_def objects.defs considerate_def lenient_def stillAwake_def)

definition sleepingDeployment :: deployment where
  "sleepingDeployment = sampleDeployment\<lparr>dep_replicas := Some 0,
     dep_labels := [''idling.amazee.io/watch'' \<mapsto> ''true'', ''idling.amazee.io/idled'' \<mapsto> ''true'']\<rparr>"

definition sleepingCluster :: cluster where
  "sleepingCluster = (sampleCluster [])\<lparr>cl_deployments := [sleepingDeployment], cl_ingresses := []\<rparr>"

lemma sleeping_facts:
  "ns_name sampleNamespace = ''shop-main''" "dep_namespace sleepingDeployment = ''shop-main''"
  "dep_name sleepingDeployment = ''web''" "dep_replicas sleepingDeployment = Some 0"
  "dep_labels sleepingDeployment ''idling.amazee.io/idled'' = Some ''true''" "unidleReplicas sleepingDeployment = 1"
  "pod_phase (samplePod ''Running'') = ''Running''"
  by (simp_all add: sample_defs sleepingDeployment_def unidleReplicas_def)

text \<open>Reads of the sample cluster give an answer and leave the cluster alone.\<close>

lemma Unidle_trace:
  assumes "listDeployments P (inNamespace ''shop-main'' (Requirements [watched])) w1 = (Inr [sleepingDeployment], w1)"
    and "getDeployment P ''shop-main'' ''web'' w3 = (Inr d, w3)" and "dep_selector d = Some sel"
    and "listPods P \<lparr>lo_namespace = None, lo_selector = Some (LabelSet sel)\<rparr> w4 = (Inr [samplePod ''Running''], w4)"
    and "listIngresses P \<lparr>lo_namespace = Some ''shop-main'', lo_selector = None\<rparr> w5 = (Inr [], w5)"
    and "newRequirementOk P ''idling.amazee.io/watch'' ''='' [''true'']"
  shows "traceOf (Unidle (tracing P poll1) sampleNamespace) [w1, w2, w3, w4, w5, w6] s =
     [(w1, w1), (w2, snd (sendPatch P (DeploymentRef ''shop-main'' ''web'') (unidlePatch 1) w2)), (w3, w3), (w4, w4),
      (w5, w5), (w6, snd (sendPatch P (NamespaceRef ''shop-main'') unidledLabelPatch w6))]"
  using assms
  by (simp add: traceOf_def Unidle_def deferred_apply equalsTrue_def andThen_def liftO_def ret_def request_defs
      request_eval traced_apply arrive_def enter_def sleeping_facts unidleDeployment_def waitForPods_def hasRunningPod_def
      removeCodeFromIngress_def countMetric_def)

section \<open>Two Unidles whose requests alternate\<close>

text \<open>Both list before either scales; the second one's patches are computed from what the first changed.\<close>

definition alternating :: "cluster history" where
  "alternating =
     (let c = sleepingCluster; c1 = scaledUp c; c2 = scaledUp c1; d = podStarted c2; d1 = relabelled d
      in [(0, c, c), (1, c, c), (0, c, c1), (1, c1, c2), (2, c2, d), (0, d, d), (1, d, d), (0, d, d), (1, d, d),
          (0, d, d), (1, d, d), (0, d, d1), (1, d1, relabelled d1)])"

lemma reads_printing:
  "listDeployments printingPlatform opts c
     = (Inr (filter (\<lambda>d. selected (cl_keys c) opts (dep_namespace d) (dep_labels d)) (cl_deployments c)), c)"
  "listPods printingPlatform opts c
     = (Inr (filter (\<lambda>p. selected (cl_keys c) opts (pod_namespace p) (pod_labels p)) (cl_pods c)), c)"
  "listIngresses printingPlatform opts c
     = (Inr (filter (\<lambda>i. selected (cl_keys c) opts (ing_namespace i) (ing_labels i)) (cl_ingresses c)), c)"
  "getDeployment printingPlatform ns n c
     = (found (find (\<lambda>x. dep_namespace x = ns \<and> dep_name x = n) (cl_deployments c)), c)"
  "snd (sendPatch printingPlatform ref p c) = (if refExists ref c then patchObject ref p c else c)"
  "newRequirementOk printingPlatform ''idling.amazee.io/watch'' ''='' [''true'']"
  by (simp_all add: printingPlatform_def clusterPlatform_def)

lemma cluster_parts [simp]:
  "cl_pods (scaledUp c) = cl_pods c" "cl_ingresses (scaledUp c) = cl_ingresses c" "cl_keys (scaledUp c) = cl_keys c"
  "cl_pods (relabelled c) = cl_pods c" "cl_ingresses (relabelled c) = cl_ingresses c" "cl_keys (relabelled c) = cl_keys c"
  "cl_deployments (relabelled c) = cl_deployments c" "cl_namespaces (scaledUp c) = cl_namespaces c"
  "cl_deployments (scaledUp c) = map (\<lambda>d. if dep_namespace d = ''shop-main'' \<and> dep_name d = ''web''
      then mergeDeployment (unidlePatch 1) d else d) (cl_deployments c)"
  "cl_namespaces (relabelled c) = map (\<lambda>n. if ns_name n = ''shop-main''
      then mergeNamespace unidledLabelPatch n else n) (cl_namespaces c)"
  by (simp_all add: scaledUp_def relabelled_def)

lemma pod_parts [simp]:
  "cl_pods (podStarted c) = [samplePod ''Running'']" "cl_ingresses (podStarted c) = cl_ingresses c"
  "cl_keys (podStarted c) = cl_keys c" "cl_deployments (podStarted c) = cl_deployments c"
  "cl_namespaces (podStarted c) = cl_namespaces c"
  by (simp_all add: podStarted_def)

lemma sleeping_parts [simp]:
  "cl_deployments sleepingCluster = [sleepingDeployment]" "cl_ingresses sleepingCluster = []"
  "cl_pods sleepingCluster = []" "cl_keys sleepingCluster = [''lagoon.sh/service'']"
  "cl_namespaces sleepingCluster = [sampleNamespace]"
  by (simp_all add: sleepingCluster_def sample_defs)

lemma Unidle_in_sample:
  assumes "w2 \<in> {sleepingCluster, scaledUp sleepingCluster}" and "w6 \<in> {c, relabelled c}"
    and "c = podStarted (scaledUp (scaledUp sleepingCluster))"
  shows "traceOf (Unidle tracingSample sampleNamespace) [sleepingCluster, w2, c, c, c, w6] s
     = [(sleepingCluster, sleepingCluster), (w2, scaledUp w2), (c, c), (c, c), (c, c), (w6, relabelled w6)]"
proof -
  have c: "cl_deployments c = [mergeDeployment (unidlePatch 1) (mergeDeployment (unidlePatch 1) sleepingDeployment)]"
    by (simp add: assms(3) sleeping_facts)
  have "listDeployments printingPlatform (inNamespace ''shop-main'' (Requirements [watched])) sleepingCluster
      = (Inr [sleepingDeployment], sleepingCluster)"
    by (simp add: reads_printing selected_def meets_def sleeping_facts) (simp add: sleepingDeployment_def)
  moreover have "getDeployment printingPlatform ''shop-main'' ''web'' c
      = (Inr (mergeDeployment (unidlePatch 1) (mergeDeployment (unidlePatch 1) sleepingDeployment)), c)"
    by (simp add: reads_printing c found_def sleeping_facts)
  moreover have "dep_selector (mergeDeployment (unidlePatch 1) (mergeDeployment (unidlePatch 1) sleepingDeployment))
      = Some [''lagoon.sh/service'' \<mapsto> ''web'']"
    by (simp add: mergeDeployment_def sleepingDeployment_def sample_defs)
  moreover have "listPods printingPlatform \<lparr>lo_namespace = None,
        lo_selector = Some (LabelSet [''lagoon.sh/service'' \<mapsto> ''web''])\<rparr> c = (Inr [samplePod ''Running''], c)"
    by (simp add: reads_printing selected_def assms(3)) (simp add: samplePod_def)
  moreover have "listIngresses printingPlatform \<lparr>lo_namespace = Some ''shop-main'', lo_selector = None\<rparr> c = (Inr [], c)"
    by (simp add: reads_printing assms(3))
  moreover have "snd (sendPatch printingPlatform (DeploymentRef ''shop-main'' ''web'') (unidlePatch 1) w2) = scaledUp w2"
    using assms(1) by (auto simp: reads_printing sleeping_facts simp flip: scaledUp_def simp del: patchObject.simps)
  moreover have "snd (sendPatch printingPlatform (NamespaceRef ''shop-main'') unidledLabelPatch w6) = relabelled w6"
    using assms(2) by (auto simp: reads_printing sleeping_facts assms(3) simp flip: relabelled_def simp del: patchObject.simps)
  ultimately show ?thesis
    using reads_printing(6) by (subst Unidle_trace) simp_all
qed

lemma alternating_schedule:
  "schedule tracingSample podsOnly (sampleIdler False) sampleUnidler (start sleepingCluster)
     [UnidleRun sampleNamespace, UnidleRun sampleNamespace] alternating"
  "finished tracingSample (sampleIdler False) sampleUnidler (start sleepingCluster)
     [UnidleRun sampleNamespace, UnidleRun sampleNamespace] (Suc 0) alternating"
proof -
  let ?c = "podStarted (scaledUp (scaledUp sleepingCluster))"
  have "traceIn tracingSample (sampleIdler False) sampleUnidler (start sleepingCluster) (UnidleRun sampleNamespace) 0 alternating
      = stepsOf 0 alternating"
    using Unidle_in_sample [of sleepingCluster ?c ?c]
    by (simp add: traceIn_def alternating_def Let_def)
  moreover have "traceIn tracingSample (sampleIdler False) sampleUnidler (start sleepingCluster) (UnidleRun sampleNamespace) (Suc 0) alternating
      = stepsOf (Suc 0) alternating"
    using Unidle_in_sample [of "scaledUp sleepingCluster" "relabelled ?c" ?c]
    by (simp add: traceIn_def alternating_def Let_def)
  moreover have "chained (world (start sleepingCluster)) alternating"
    by (simp add: alternating_def Let_def start_def)
  moreover have "list_all (\<lambda>(i, a, b). i < 2 \<or> podsOnly a b) alternating"
    by (simp add: alternating_def Let_def podsOnly_laws(1))
  ultimately show "schedule tracingSample podsOnly (sampleIdler False) sampleUnidler (start sleepingCluster)
       [UnidleRun sampleNamespace, UnidleRun sampleNamespace] alternating"
    and "finished tracingSample (sampleIdler False) sampleUnidler (start sleepingCluster)
       [UnidleRun sampleNamespace, UnidleRun sampleNamespace] (Suc 0) alternating"
    by (simp_all add: schedule_def finished_def upt_rec numeral_2_eq_2)
qed

lemma sleeping_laws:
  "healthyIn objects.truncate (start sleepingCluster)"
  "refExists (NamespaceRef (ns_name sampleNamespace)) (objectsOf objects.truncate (start sleepingCluster))"
  by (simp_all add: start_def objects.defs healthy_def sound_def)
    (simp_all add: sleepingDeployment_def sample_defs)

section \<open>Witnesses\<close>

theorem interleaved_foreign_kept_witness:
  "foreign (objects.truncate (worldAfter sleepingCluster alternating)) = foreign (objects.truncate sleepingCluster)"
proof -
  have laws: "readsKeep printingPlatform objects.truncate" "patchMerges printingPlatform objects.truncate"
    using printing_laws(1) by (simp_all add: apiServer_def)
  show ?thesis
    using interleaved_foreign_kept [OF laws poll_laws(1) alternating_schedule(1)] by (simp add: start_def podsOnly_def)
qed




lemma pollAlone_sample: "pollAlone clusterPlatform (pollsOf 91)" "pollAlone printingPlatform (pollsOf 91)"
  by (simp_all add: pollMirrors_def waitPoll_cluster waitPoll_printing mirrors_pollTimes)


section \<open>The race\<close>

theorem interrupted_idling_strands_witness:
  "\<exists>ms. schedule (tracing printingPlatform (pollsOf 91)) podsOnly (sampleIdler False) sampleUnidler
         (start (labelledCluster ''idling.amazee.io/force-idled'' [samplePod ''Running'']))
         [ReconcileRun ''shop-main'', UnidleRun (labelled ''idling.amazee.io/force-idled'')] ms
     \<and> stranded ''shop-main'' [sampleDeployment] (objects.truncate
         (worldAfter (labelledCluster ''idling.amazee.io/force-idled'' [samplePod ''Running'']) ms))"
proof -
  let ?c = "labelledCluster ''idling.amazee.io/force-idled'' [samplePod ''Running'']"
  let ?n = "labelled ''idling.amazee.io/force-idled''"
  let ?s = "(start ?c)\<lparr>calls := [CGet (NamespaceRef ''shop-main'')]\<rparr>"
  have get: "getNamespace printingPlatform ''shop-main'' ?c = (Inr ?n, ?c)"
    using get_labelled [of _ "[samplePod ''Running'']"] by (simp add: printingPlatform_def start_def)
  have g: "GetNamespace printingPlatform ''shop-main'' (start ?c) = (Ok (Inr ?n), ?s)"
    by (simp add: GetNamespace_def request_eval start_def get)
  have f: "forcedIdle ?n" by (simp add: forcedIdle_def hasLabel_def labelled_def)
  have "selectorsOk printingPlatform (sampleIdler False)"
    by (simp add: selectorsOk_def selectorOk_def printingPlatform_def clusterPlatform_def sample_defs)
  moreover have "fst (serviceRunningBuild printingPlatform (sampleIdler False) (inNamespace (ns_name ?n)
      (Requirements (buildReqs (sampleIdler False)))) ?s) = Ok False"
    by (simp add: serviceRunningBuild_def andThen_def ListPods_def request_eval ret_def printingPlatform_def
        cluster_eval labelledCluster_def labelled_def sample_defs requirementOf_def)
  moreover have "distinct (map refOfDeployment (cl_deployments (objects.truncate (world (start ?c)))))"
    "distinct (map refOfIngress (cl_ingresses (objects.truncate (world (start ?c)))))"
    "list_all (\<lambda>d. \<not> needsScaling d) (cl_deployments (objects.truncate (world (start ?c))))"
    "healthyIn objects.truncate (start ?c)"
    "ns_name ?n = ''shop-main''" "\<not> DryRun (sampleIdler False)" "world (start ?c) = ?c"
    by (simp_all add: labelledCluster_def labelled_def sample_defs objects.defs needsScaling_def healthy_def sound_def)
  moreover have "deploymentsMatching ''shop-main'' (deploymentReqs (sampleIdler False))
      (objects.truncate ?c) = [sampleDeployment]"
    by (simp add: deploymentsMatching_def labelledCluster_def sample_defs objects.defs meets_def requirementOf_def)
  ultimately show ?thesis
    using interrupted_idling_strands [OF working_sample printing_laws(3,4) pollAlone_sample(2) _ _ _ _ _ _ g f _ refl,
        of podsOnly sampleUnidler] by fastforce
qed

section \<open>The shipped configuration\<close>

definition shippedIdler :: idler where
  "shippedIdler = (sampleIdler False)\<lparr>Selectors := shippedSelectors\<rparr>"

text \<open>The environment of the sample with its CLI deployment.\<close>

definition cliCluster :: cluster where
  "cliCluster = (sampleCluster [])\<lparr>cl_deployments := [sampleDeployment, cronDeployment\<lparr>dep_labels := [''lagoon.sh/service'' \<mapsto> ''cli'']\<rparr>]\<rparr>"

lemma namespacesMatch_cluster: "namespacesMatch clusterPlatform objects.truncate"
  by (simp add: namespacesMatch_def clusterPlatform_def selected_def objects.defs)

theorem shipped_idler_spares_witness:
  "cl_deployments (world (snd (ServiceIdler clusterPlatform shippedIdler (start cliCluster)))) ! 1
     = cronDeployment\<lparr>dep_labels := [''lagoon.sh/service'' \<mapsto> ''cli'']\<rparr>"
proof -
  have "Selectors shippedIdler = shippedSelectors" by (simp add: shippedIdler_def)
  moreover have "distinct (map refOfDeployment (cl_deployments (objectsOf objects.truncate (start cliCluster))))"
    by (simp add: start_def cliCluster_def objects.defs sampleDeployment_def cronDeployment_def)
  ultimately have "list_all2 (\<lambda>d d'. d' = d \<or> mayIdle (objects.truncate cliCluster) d)
      (cl_deployments (objects.truncate cliCluster))
      (cl_deployments (objects.truncate (world (snd (ServiceIdler clusterPlatform shippedIdler (start cliCluster))))))"
    using shipped_idler_spares [OF apiServer_cluster namespacesMatch_cluster, of shippedIdler "start cliCluster"]
    by (simp add: start_def)
  moreover have "\<not> mayIdle (objects.truncate cliCluster) (cronDeployment\<lparr>dep_labels := [''lagoon.sh/service'' \<mapsto> ''cli'']\<rparr>)"
    by (simp add: mayIdle_def expendable_def)
  ultimately show ?thesis
    by (auto simp: cliCluster_def objects.defs list_all2_Cons1)
qed

end
