(* ===== verification/Spec2Isabelle.thy ===== *)
theory Spec2Isabelle
  imports GoStrings GoTime Sha256 Hmac Http Kube StatusCodes Restrictions IdlerConfig ServiceIdlerProps
    CliIdler Unidle UnidleProps IngressHandler HandlerProps Reconciler Locks Setup Metrics Cluster Samples
    ApiServer EndToEnd Cycle Healthy Sends Alters PatchTypes Drain Wake Race Visit Interleave Together
    Crowd Resumed Undisturbed Shipped Witnesses ClusterWitnesses CrowdWitnesses
begin

text \<open>
  A verification development for the aergia controller, which scales idle Lagoon
  environments (Kubernetes namespaces) to zero and wakes them when a request arrives.

  The program has two halves.  The idlers run as cron jobs (or on a namespace label): the
  service idler (internal/handlers/idler/service.go, service-kubernetes.go) scales the
  deployments of an environment without traffic to zero and marks its ingresses so that the
  ingress controller sends failing requests to aergia; the CLI idler (cli.go,
  cli-kubernetes.go) scales down CLI pods that run nothing.  The unidler
  (internal/handlers/unidler) is the HTTP server those requests reach: it checks who may
  wake the environment, serves a page, and starts \<open>Unidle\<close>, which undoes the marks.  The
  reconciler (internal/controllers) does the same on labels, and cmd/main.go configures all.

  Theories, in the order of the imports:
  \<^item> Prelude: outcomes (a value or a panic), state-passing code, \<open>for range\<close>, deferred
    calls, and the rules for effects: what a piece of code may do to the state, proved
    structurally (locale \<open>effect\<close>).
  \<^item> GoStrings, GoTime, Sha256, Http: what the code uses of Go's standard library, written
    out: splitting and joining, numbers, booleans, line scanning, \<open>ParseDuration\<close> with its
    float rounding and \<open>Duration.String\<close>, SHA-256, HMAC, hex, header names, query
    parameters, the response writer, runes.
  \<^item> Kube: the objects and requests exchanged with the cluster, the process state, and the
    \<open>platform\<close>, a record of functions for all that is not the controller's code.  Every
    request is recorded in \<open>calls\<close>, in order.  No law of the platform is built in; those a
    property assumes are named in its statement: \<open>pollRunsCondition\<close> (Unidle), the laws of
    ApiServer, and \<open>working\<close> (Healthy).
  \<^item> StatusCodes: addStatusCode and removeStatusCode, locale \<open>code_editor\<close>.
  \<^item> Hmac: hmacSign, hmacSigner, hmacVerifier, locale \<open>token_scheme\<close>.
  \<^item> Restrictions: restrictions.go.
  \<^item> IdlerConfig, ServiceIdler, CliIdler: the idlers; ServiceIdlerProps: what the service
    idler guarantees.
  \<^item> Unidle: Unidle and checks.go; UnidleProps: its requests, its lock, the round trips.
  \<^item> IngressHandler: the HTTP handler; HandlerProps: what it starts and what a client sees.
  \<^item> Locks: handlers and \<open>Unidle\<close> goroutines interleaving on one lock, a step relation.
  \<^item> Reconciler: Reconcile, the predicates, SetupWithManager.  Setup: main's configuration, what
    it starts and the exit status.  Metrics: the descriptions and their registration.
  \<^item> Cluster, Samples, Witnesses, ClusterWitnesses, CrowdWitnesses: an executable cluster (label selection,
    merge patches, a poll that tries once at once and then as often as the interval fits in
    the timeout: 91 times for the one second and ninety seconds of \<open>waitPoll\<close>) on which the
    properties with hypotheses are applied.  Its merge patch is RFC 7386 on
    labels, annotations and replicas.
  \<^item> ApiServer: the laws of the Kubernetes API the end-to-end properties assume, of a platform
    and a view of the objects it stores: reads change nothing, lists and gets answer with
    what is stored, an accepted patch is merged and a refused one changes nothing; a server
    that answers.  The sample cluster obeys them all.
  \<^item> EndToEnd: an environment that was scaled down can be woken.  Cycle: forced idling and
    unidling give every deployment its replicas back.  Wake: what \<open>Unidle\<close> leaves behind.
    Visit: from a request to an environment that is awake.
  \<^item> Healthy: total correctness (\<open>returns\<close> of Prelude): nothing panics on a healthy cluster
    (locale \<open>total_runs\<close>, over any invariant under which the operations of the platform
    answer).  Drain: the reconciler, run again after every change, settles.
  \<^item> Sends: what each entry point may do to the state, given what reads and the patches of a
    kind may do: locales \<open>asks\<close>, \<open>wakes\<close>, \<open>sends\<close>, one lemma per entry point.  Alters and
    PatchTypes: every run as a sequence of well typed patches, and what no run can touch.
  \<^item> Interleave: the goroutines of the controller at once.  \<open>tracing P wait\<close> is the platform
    as one goroutine among others meets it: each of its requests is sent to the world the
    others left, taken from a list of worlds, and recorded with the world it leaves.  A
    \<open>schedule\<close> is a history of the cluster in which each goroutine's steps are those its
    code makes in the worlds it finds, and all other steps are those of the rest of the world,
    under a relation \<open>E\<close>; a prefix is a schedule, so properties hold at every moment.
    Together: every run of a schedule returns, and the next \<open>Unidle\<close> wakes whatever was left.
    Crowd: several \<open>Unidle\<close>s and handlers at once still wake.
  \<^item> Resumed: a simulation between the code under \<open>tracing\<close> and the code on a platform (locale
    \<open>resumed\<close>, with two interpretations: a goroutine alone, and one that goes on after others
    have changed the world).  Undisturbed: a goroutine alone does in a schedule what the code
    does.  Race: a schedule of a reconcile and an \<open>Unidle\<close> that strands the environment.
  \<^item> Shipped: the selectors file of resources, and what an idler configured by it spares.

  How the code is written here: a Go function that touches shared state is a function from
  the state to an outcome and a state; a returned error is \<open>Inl\<close> or \<open>Some\<close>, a nil pointer
  \<open>None\<close>, and what would crash a \<open>Panic\<close> that keeps the effects before it.  Strings are byte
  lists, replica counts are 32-bit words, the hit counter a 64-bit word that wraps.  The one
  comparison of pointers in the code, with a pointer just allocated, is constant.  All
  loops are structural, so every definition terminates; \<open>parseGroups\<close> and \<open>runeStrings\<close>
  have measures.  The controller's loop over events is \<open>reconcileRounds\<close>, and three rounds
  are enough because there are three labels.  Goroutines are recorded in \<open>spawned\<close>;
  their interleaving on the lock is in Locks, that of their requests in Interleave.
  In Interleave the points where others may step in are the requests to the API server, the
  Prometheus server and the containers, which are the steps that others can notice; the
  clock is the one of the world the goroutine's last request left, and each goroutine keeps
  its own copy of the process state (locks, counters, \<open>spawned\<close>), which no patch depends on.
  Users and the other controllers of the cluster take part by the steps \<open>E\<close> allows: any at
  all, for what the controller leaves alone; those that create and delete no object and keep
  deployments sound (\<open>considerate\<close>), for runs that return and for recovery; and those that
  also put nothing to sleep (\<open>lenient\<close>), for \<open>Unidle\<close>s that run at once.

  What the properties show: the access rules and the exact conditions under which an
  environment is woken; that idling needs the absence of builds and of hits, sends exactly
  the patches described, ingresses first; that a dry run sends none; in the cluster, that an
  environment that was scaled down has its ingresses marked, that waking it gives the
  replica counts and the annotations back, that the reconciler stops, that every patch is
  well typed and no foreign label, annotation or field is ever changed, one goroutine at a
  time or interleaved; that concurrent \<open>Unidle\<close>s, which the lock does not prevent, wake the
  environment all the same; that the shipped configuration spares what it names; and where
  the code does not do what it means to (a lock that does not exclude, an idler that can
  strand an environment that is woken meanwhile, a host lookup that cannot match, statuses
  and headers that never reach the client, process counts read by their last digit, counts
  lost by idling twice, labels dropped during a build, requests that panic the handler).

  Not modelled: logging, help texts of the metrics, listening and signal handling, the
  redirects of the mux, execution of the HTML templates (a page is its file and its data),
  \<open>url.Parse\<close> and \<open>Hostname\<close> (a parameter of the platform: which colons and address
  literals they accept changes between releases of the standard library, and only whether
  they fail and the resulting name matter here), regular expressions (a parameter), flag
  parsing and YAML decoding (parameters of Setup), the work queue of the controller library,
  and test code.  What is left of the implementation files beyond the definitions is package
  clauses, imports, comments, the declarations of interfaces and logging.
\<close>

section \<open>Properties that span components\<close>

text \<open>
  C24. A process configured for a dry run starts no cron job that patches anything: this holds
  from the flags and the environment down to the requests on the wire.
\<close>

theorem dry_run_process:
  assumes "main E f = Running p" and "GetEnvBool E ''DRY_RUN'' (fl_dryRun f)"
  shows "\<exists>new. calls (snd (runJob P (p_idler p) j s)) = calls s @ new \<and> \<not> list_ex isPatch new"
proof -
  have "DryRun (p_idler p)" using main_Running(1) [OF assms(1)] assms(2) by simp
  then have "emits (\<lambda>c. \<not> isPatch c) (runJob P (p_idler p) j)"
    by (cases j) (auto intro!: emits_CLIIdler emits_ServiceIdler)
  from stepsD [OF this, of s] show ?thesis
    by (auto simp: emitsRel_def list_ex_iff)
qed

theorem dry_run_process_witness:
  "\<exists>p. main sampleSurroundings defaultFlags = Running p
     \<and> \<not> list_ex isPatch (calls (snd (runJob clusterPlatform (p_idler p) (ServiceJob ''0 */4 * * *'')
          (start (sampleCluster [samplePod ''Running''])))))"
proof -
  have "parseDuration ''4h'' = Some (4 * hour)"
    using parseDuration_hours [of 4] by (simp add: showNat.simps digitChar_def)
  then obtain p where p: "main sampleSurroundings defaultFlags = Running p"
    by (simp add: main_def startProcess_def sampleSurroundings_def defaultFlags_def podInterval_def readSelectors_def Let_def)
  have "GetEnvBool sampleSurroundings ''DRY_RUN'' (fl_dryRun defaultFlags)"
    by (simp add: sampleSurroundings_def)
  from dry_run_process [OF p this, of clusterPlatform "ServiceJob ''0 */4 * * *''"
      "start (sampleCluster [samplePod ''Running''])"] p
  show ?thesis by (auto simp: start_def)
qed

end
